theory Spec2Isabelle
  imports Main
begin

section \<open>Data model of the romanization engine\<close>

text \<open>
  JavaScript strings are sequences of UTF-16 code units; lyric text is modelled as the list
  of its code units. Objects parsed from the transformer's JSON carry the properties
  \<^verbatim>\<open>types.d.ts\<close> declares, each with a value of the declared type (an index is an
  integer), or lack them: a property that is absent is \<open>None\<close>; for the text of a line
  \<open>None\<close> also stands for a falsy value that is not a string, which the source treats
  alike. Values of other types are not modelled, with one exception. The source reads the
  text of a chunk through a truthiness test and then calls \<^verbatim>\<open>trim\<close> on it, so the
  model tells three cases apart:
  \<open>NoText\<close>, a text that is absent or another falsy value that is not a string;
  \<open>Text s\<close>, the string \<open>s\<close>; and \<open>Other s\<close>, a truthy value that is not a string (it has
  no \<^verbatim>\<open>trim\<close> method), with \<open>s\<close> the string JavaScript converts it to.

  \<^item> \<open>chunk\<close> is \<open>StructuredLyricsChunk\<close> of \<^verbatim>\<open>types.d.ts\<close>.
  \<^item> \<open>line\<close> is \<open>StructuredLyricsLine\<close> / \<open>GeminiResponseLine\<close>; \<open>rest\<close> holds
    the other enumerable properties, which an object spread copies.
  \<^item> \<open>response\<close> is the parsed JSON of one transformer reply: \<open>romanized_lyrics\<close> for a
    full reply, \<open>fixed_lines\<close> for a selective one.
\<close>

type_synonym jstring = "nat list"

datatype chunk_text = NoText | Text jstring | Other jstring

record chunk =
  ctext :: chunk_text
  chunkIndex :: "int option"

record line =
  line_text :: "jstring option"
  original_line_index :: "int option"
  chunk :: "chunk list option"
  rest :: "(string \<times> jstring) list"

record response =
  romanized_lyrics :: "line list option"
  fixed_lines :: "line list option"

text \<open>\<open>ReconstructionPlanItem\<close>: \<open>{type:'latin', data, originalIndex}\<close> or
  \<open>{type:'api', apiIndex, originalIndex}\<close>.\<close>

datatype plan_item =
  Latin line nat
| Api nat nat

fun originalIndex :: "plan_item \<Rightarrow> nat" where
  "originalIndex (Latin d oi) = oi"
| "originalIndex (Api ai oi) = oi"

section \<open>GeminiRomanizer.prepareLyrics\<close>

text \<open>
  The content key is \<^verbatim>\<open>JSON.stringify({ text: line.text, chunk: line.chunk })\<close>. On
  records with a fixed property order the serialisation is injective, so the key is
  modelled by the pair it serialises; an absent \<open>chunk\<close> and an empty array stay distinct,
  as \<^verbatim>\<open>{"text":..}\<close> and \<^verbatim>\<open>{"text":..,"chunk":[]}\<close> are. (The lines of a
  \<open>StructuredLyricsInput\<close> have chunk texts that are strings.)
\<close>

type_synonym content_key = "jstring option \<times> chunk list option"

definition contentKey :: "line \<Rightarrow> content_key" where
  "contentKey l = (line_text l, chunk l)"

text \<open>\<^verbatim>\<open>line.chunk && line.chunk.length > 0\<close>\<close>

definition has_chunks :: "line \<Rightarrow> bool" where
  "has_chunks l = (case chunk l of None \<Rightarrow> False | Some cs \<Rightarrow> cs \<noteq> [])"

record prep =
  lyricsForApi_of :: "line list"
  reconstructionPlan_of :: "plan_item list"
  contentToApiIndexMap_of :: "content_key \<rightharpoonup> nat"

definition prep_init :: prep where
  "prep_init = \<lparr> lyricsForApi_of = [], reconstructionPlan_of = [], contentToApiIndexMap_of = Map.empty \<rparr>"

text \<open>The body of the \<^verbatim>\<open>forEach\<close> callback, for one line and its index.
  \<^verbatim>\<open>Utilities.isPurelyLatinScript\<close> (its module is not among the sources) is the
  parameter \<open>isLatin\<close>.\<close>

definition prepare_line :: "(jstring option \<Rightarrow> bool) \<Rightarrow> line \<Rightarrow> nat \<Rightarrow> prep \<Rightarrow> prep" where
  "prepare_line isLatin l oi st =
     (if isLatin (line_text l)
      then st\<lparr> reconstructionPlan_of := reconstructionPlan_of st @ [Latin l oi] \<rparr>
      else
        (case contentToApiIndexMap_of st (contentKey l) of
           Some ai \<Rightarrow> st\<lparr> reconstructionPlan_of := reconstructionPlan_of st @ [Api ai oi] \<rparr>
         | None \<Rightarrow>
             (let newApiIndex = length (lyricsForApi_of st);
                  apiLine = \<lparr> line_text = line_text l, original_line_index = Some (int newApiIndex),
                              chunk = (if has_chunks l then chunk l else None), rest = [] \<rparr>
              in \<lparr> lyricsForApi_of = lyricsForApi_of st @ [apiLine],
                   reconstructionPlan_of = reconstructionPlan_of st @ [Api newApiIndex oi],
                   contentToApiIndexMap_of = (contentToApiIndexMap_of st)(contentKey l \<mapsto> newApiIndex) \<rparr>)))"

fun prepare_each :: "(jstring option \<Rightarrow> bool) \<Rightarrow> line list \<Rightarrow> nat \<Rightarrow> prep \<Rightarrow> prep" where
  "prepare_each isLatin [] oi st = st"
| "prepare_each isLatin (l # ls) oi st = prepare_each isLatin ls (Suc oi) (prepare_line isLatin l oi st)"

definition prepareLyrics :: "(jstring option \<Rightarrow> bool) \<Rightarrow> line list \<Rightarrow> line list \<times> plan_item list" where
  "prepareLyrics isLatin structuredInput =
     (let st = prepare_each isLatin structuredInput 0 prep_init
      in (lyricsForApi_of st, reconstructionPlan_of st))"

section \<open>GeminiRomanizer.reconstructLyrics\<close>

text \<open>
  \<^verbatim>\<open>fullList[i] = v\<close> on a JavaScript array: an index past the end extends the array
  and leaves holes. A slot of the result is \<open>None\<close> for a hole.
\<close>

definition js_assign :: "'a option list \<Rightarrow> nat \<Rightarrow> 'a \<Rightarrow> 'a option list" where
  "js_assign xs i v =
     (if i < length xs then xs[i := Some v]
      else xs @ replicate (i - length xs) None @ [Some v])"

text \<open>\<^verbatim>\<open>{...undefined}\<close> is the empty object.\<close>

definition empty_line :: line where
  "empty_line = \<lparr> line_text = None, original_line_index = None, chunk = None, rest = [] \<rparr>"

text \<open>\<^verbatim>\<open>romanizedApiLyrics[i]\<close>, spread into a fresh object.\<close>

definition api_result :: "line list \<Rightarrow> nat \<Rightarrow> line" where
  "api_result romanizedApiLyrics i =
     (if i < length romanizedApiLyrics then romanizedApiLyrics ! i else empty_line)"

fun reconstruct_item :: "line list \<Rightarrow> bool \<Rightarrow> plan_item \<Rightarrow> line" where
  "reconstruct_item romanizedApiLyrics hasAnyChunks (Latin d oi) =
     d\<lparr> chunk := (if hasAnyChunks then (case chunk d of None \<Rightarrow> None
                                           | Some cs \<Rightarrow> Some (map (\<lambda>c. c\<lparr> ctext := ctext c \<rparr>) cs))
                   else None),
        original_line_index := Some (int oi) \<rparr>"
| "reconstruct_item romanizedApiLyrics hasAnyChunks (Api ai oi) =
     (api_result romanizedApiLyrics ai)\<lparr> original_line_index := Some (int oi) \<rparr>"

fun reconstruct_each :: "line list \<Rightarrow> bool \<Rightarrow> plan_item list \<Rightarrow> line option list \<Rightarrow> line option list" where
  "reconstruct_each r h [] fullList = fullList"
| "reconstruct_each r h (p # ps) fullList =
     reconstruct_each r h ps (js_assign fullList (originalIndex p) (reconstruct_item r h p))"

definition reconstructLyrics :: "line list \<Rightarrow> plan_item list \<Rightarrow> bool \<Rightarrow> line option list" where
  "reconstructLyrics romanizedApiLyrics plan hasAnyChunks =
     reconstruct_each romanizedApiLyrics hasAnyChunks plan []"

section \<open>ResponseValidator\<close>

text \<open>
  \<^verbatim>\<open>String.prototype.trim\<close> removes the code units of ECMAScript's WhiteSpace and
  LineTerminator productions from both ends.
\<close>

definition js_whitespace :: "nat \<Rightarrow> bool" where
  "js_whitespace u =
     (u \<in> {9, 10, 11, 12, 13, 32, 160, 5760, 8232, 8233, 8239, 8287, 12288, 65279}
      \<or> (8192 \<le> u \<and> u \<le> 8202))"

definition js_trim :: "jstring \<Rightarrow> jstring" where
  "js_trim s = rev (dropWhile js_whitespace (rev (dropWhile js_whitespace s)))"

text \<open>
  \<^verbatim>\<open>Utilities.normalizeText\<close> and \<^verbatim>\<open>Utilities.levenshteinDistance\<close> are not among
  the sources; the validator takes them as parameters. So it does the text that
  \<^verbatim>\<open>((distance / maxLength) * 100).toFixed(1)\<close> prints: the quotient and the product are
  IEEE doubles and \<^verbatim>\<open>toFixed\<close> converts the double to decimal; neither is modelled, and
  \<open>percentage_toFixed distance maxLength\<close> stands for the text printed for the two
  integers, whatever it is.
\<close>

record utilities =
  normalizeText :: "jstring \<Rightarrow> jstring"
  levenshteinDistance :: "jstring \<Rightarrow> jstring \<Rightarrow> nat"
  percentage_toFixed :: "nat \<Rightarrow> nat \<Rightarrow> string"

text \<open>
  The validator's messages, one constructor per template, carrying the values the template
  interpolates, so that two messages are the same string exactly when they are the same
  value. \<open>TextMismatch\<close> carries the percentage as text, as \<^verbatim>\<open>toFixed(1)\<close> prints it.
\<close>

datatype validation_error =
  TopLevelMissing
| LineCountMismatch nat nat
| IncorrectIndex nat "int option"
| InvalidText nat
| UnexpectedChunk nat
| MissingChunk nat
| ChunkCountMismatch nat nat nat
| EmptyChunks nat nat
| Concentrated nat
| TextMismatch nat string

record validation_result =
  isValid :: bool
  errors :: "validation_error list"
  detailedErrors :: "(nat \<times> validation_error list) list"

text \<open>\<^verbatim>\<open>line.chunk || []\<close>\<close>

definition chunks_of :: "line \<Rightarrow> chunk list" where
  "chunks_of l = (case chunk l of None \<Rightarrow> [] | Some cs \<Rightarrow> cs)"

text \<open>
  \<^verbatim>\<open>!chunk.text || chunk.text.trim() === ''\<close>. On a truthy value that is not a string
  the call of \<^verbatim>\<open>trim\<close> throws a \<open>TypeError\<close>: the result is \<open>None\<close>. The second filter
  of the source, \<^verbatim>\<open>chunk.text && chunk.text.trim() !== ''\<close>, is the negation and throws
  on the same values.
\<close>

definition is_empty_chunk :: "chunk \<Rightarrow> bool option" where
  "is_empty_chunk c =
     (case ctext c of
        NoText \<Rightarrow> Some True
      | Text s \<Rightarrow> Some (s = [] \<or> js_trim s = [])
      | Other v \<Rightarrow> None)"

definition is_nonempty_chunk :: "chunk \<Rightarrow> bool option" where
  "is_nonempty_chunk c = map_option Not (is_empty_chunk c)"

text \<open>\<^verbatim>\<open>Array.prototype.filter\<close> with a callback that may throw: the elements are
  visited in order and the first throw ends the call.\<close>

fun js_filter :: "('a \<Rightarrow> bool option) \<Rightarrow> 'a list \<Rightarrow> 'a list option" where
  "js_filter p [] = Some []"
| "js_filter p (x # xs) =
     (case p x of
        None \<Rightarrow> None
      | Some keep \<Rightarrow>
          (case js_filter p xs of
             None \<Rightarrow> None
           | Some ys \<Rightarrow> Some (if keep then x # ys else ys)))"

text \<open>\<^verbatim>\<open>romanizedLine.chunk.map(c => c.text || '').join('')\<close>\<close>

definition mergedChunkText :: "chunk list \<Rightarrow> jstring" where
  "mergedChunkText cs =
     concat (map (\<lambda>c. case ctext c of NoText \<Rightarrow> [] | Text s \<Rightarrow> s | Other v \<Rightarrow> v) cs)"

text \<open>
  \<open>percentageDifference = maxLength === 0 ? 0 : (distance / maxLength) * 100\<close> is compared
  with 20 in exact arithmetic: \<open>100 * distance > 20 * maxLength\<close>. (In IEEE doubles the
  quotient of a ratio of exactly one fifth times 100 is exactly 20, and any other ratio of
  string lengths is further from one fifth than the rounding error.)
\<close>

definition validateTextCoherence :: "utilities \<Rightarrow> line \<Rightarrow> nat \<Rightarrow> validation_error list" where
  "validateTextCoherence U romanizedLine lineIndex =
     (let lineText = (case line_text romanizedLine of None \<Rightarrow> [] | Some s \<Rightarrow> s);
          normalizedMerged = normalizeText U (mergedChunkText (chunks_of romanizedLine));
          normalizedLine = normalizeText U lineText
      in if normalizedMerged \<noteq> normalizedLine
         then (let distance = levenshteinDistance U normalizedMerged normalizedLine;
                   maxLength = max (length normalizedMerged) (length normalizedLine)
               in if maxLength \<noteq> 0 \<and> 100 * distance > 20 * maxLength
                  then [TextMismatch lineIndex (percentage_toFixed U distance maxLength)]
                  else [])
         else [])"

text \<open>Called only when \<^verbatim>\<open>romanizedLine.chunk\<close> is an array. The result is \<open>None\<close>
  when a filter throws.\<close>

definition validateChunkDistribution ::
  "utilities \<Rightarrow> line \<Rightarrow> line \<Rightarrow> nat \<Rightarrow> validation_error list option" where
  "validateChunkDistribution U originalLine romanizedLine lineIndex =
     (case js_filter is_empty_chunk (chunks_of romanizedLine) of
        None \<Rightarrow> None
      | Some emptyChunks \<Rightarrow>
          (case js_filter is_nonempty_chunk (chunks_of romanizedLine) of
             None \<Rightarrow> None
           | Some nonEmptyChunks \<Rightarrow>
               Some ((if length emptyChunks > 0
                      then [EmptyChunks lineIndex (length emptyChunks)] else [])
                     @ (if length nonEmptyChunks = 1 \<and> length (chunks_of romanizedLine) > 1
                        then [Concentrated lineIndex] else [])
                     @ validateTextCoherence U romanizedLine lineIndex)))"

text \<open>The errors of one response line: the body of the \<^verbatim>\<open>forEach\<close> callback of
  \<^verbatim>\<open>validate\<close>. The result is \<open>None\<close> when the body throws.\<close>

definition validate_line ::
  "utilities \<Rightarrow> line \<Rightarrow> line \<Rightarrow> nat \<Rightarrow> validation_error list option" where
  "validate_line U originalLine romanizedLine index =
     (let indexErrors =
            (if original_line_index romanizedLine \<noteq> Some (int index)
             then [IncorrectIndex index (original_line_index romanizedLine)] else []);
          textErrors = (if line_text romanizedLine = None then [InvalidText index] else []);
          originalHasChunks = has_chunks originalLine;
          romanizedHasChunks = (chunk romanizedLine \<noteq> None)
      in if \<not> originalHasChunks \<and> romanizedHasChunks
         then Some (indexErrors @ textErrors @ [UnexpectedChunk index])
         else if originalHasChunks then
           (if \<not> romanizedHasChunks then Some (indexErrors @ textErrors @ [MissingChunk index])
            else if length (chunks_of romanizedLine) \<noteq> length (chunks_of originalLine)
            then Some (indexErrors @ textErrors @
                   [ChunkCountMismatch index (length (chunks_of originalLine))
                      (length (chunks_of romanizedLine))])
            else (case validateChunkDistribution U originalLine romanizedLine index of
                    None \<Rightarrow> None
                  | Some chunkErrors \<Rightarrow> Some (indexErrors @ textErrors @ chunkErrors)))
         else Some (indexErrors @ textErrors))"

text \<open>The \<^verbatim>\<open>forEach\<close> of \<^verbatim>\<open>validate\<close> from position \<open>index\<close> on: the errors and
  the detailed errors the lines add, or \<open>None\<close> when a line throws.\<close>

fun validate_each ::
  "utilities \<Rightarrow> line list \<Rightarrow> line list \<Rightarrow> nat \<Rightarrow>
   (validation_error list \<times> (nat \<times> validation_error list) list) option" where
  "validate_each U originalLyricsForApi [] index = Some ([], [])"
| "validate_each U originalLyricsForApi (romanizedLine # others) index =
     (case (if index < length originalLyricsForApi
            then validate_line U (originalLyricsForApi ! index) romanizedLine index
            else Some []) of
        None \<Rightarrow> None
      | Some lineErrors \<Rightarrow>
          (case validate_each U originalLyricsForApi others (Suc index) of
             None \<Rightarrow> None
           | Some (es, ds) \<Rightarrow>
               Some (lineErrors @ es,
                     (if lineErrors \<noteq> [] then [(index, lineErrors)] else []) @ ds)))"

text \<open>\<open>geminiResponse\<close> is \<open>None\<close> for JSON \<^verbatim>\<open>null\<close>. The result is \<open>None\<close> when
  \<^verbatim>\<open>validate\<close> throws (a \<open>TypeError\<close>) instead of returning.\<close>

definition validate ::
  "utilities \<Rightarrow> line list \<Rightarrow> response option \<Rightarrow> validation_result option" where
  "validate U originalLyricsForApi geminiResponse =
     (case geminiResponse of
        None \<Rightarrow> Some \<lparr> isValid = False, errors = [TopLevelMissing], detailedErrors = [] \<rparr>
      | Some resp \<Rightarrow>
          (case romanized_lyrics resp of
             None \<Rightarrow> Some \<lparr> isValid = False, errors = [TopLevelMissing], detailedErrors = [] \<rparr>
           | Some ls \<Rightarrow>
               if length ls \<noteq> length originalLyricsForApi
               then Some \<lparr> isValid = False,
                           errors = [LineCountMismatch (length ls) (length originalLyricsForApi)],
                           detailedErrors = [] \<rparr>
               else (case validate_each U originalLyricsForApi ls 0 of
                       None \<Rightarrow> None
                     | Some (es, ds) \<Rightarrow>
                         Some \<lparr> isValid = (es = []), errors = es, detailedErrors = ds \<rparr>)))"

section \<open>GeminiRomanizer: repair helpers\<close>

text \<open>\<^verbatim>\<open>Set.add\<close>: a JavaScript \<open>Set\<close> iterates in insertion order.\<close>

definition set_add :: "nat list \<Rightarrow> nat \<Rightarrow> nat list" where
  "set_add xs x = (if x \<in> set xs then xs else xs @ [x])"

datatype issue =
  IssueEmptyChunks nat
| IssueConcentrated
| IssueChunkCount nat nat
| IssueIndex
| IssueText

text \<open>The \<open>issues\<close> array that \<^verbatim>\<open>getProblematicLines\<close> builds for one response line,
  or \<open>None\<close> when one of its filters throws.\<close>

definition line_issues :: "line \<Rightarrow> line \<Rightarrow> nat \<Rightarrow> issue list option" where
  "line_issues originalLine l index =
     (let indexIssues = (if original_line_index l \<noteq> Some (int index) then [IssueIndex] else []);
          textIssues = (if line_text l = None then [IssueText] else [])
      in if has_chunks originalLine \<and> has_chunks l
         then (case js_filter is_empty_chunk (chunks_of l) of
                 None \<Rightarrow> None
               | Some emptyChunks \<Rightarrow>
                   (case js_filter is_nonempty_chunk (chunks_of l) of
                      None \<Rightarrow> None
                    | Some nonEmptyChunks \<Rightarrow>
                        Some ((if length emptyChunks > 0
                               then [IssueEmptyChunks (length emptyChunks)] else [])
                              @ (if length nonEmptyChunks = 1 \<and> length (chunks_of l) > 1
                                 then [IssueConcentrated] else [])
                              @ (if length (chunks_of originalLine) \<noteq> length (chunks_of l)
                                 then [IssueChunkCount (length (chunks_of originalLine))
                                         (length (chunks_of l))]
                                 else [])
                              @ indexIssues @ textIssues)))
         else Some (indexIssues @ textIssues))"

text \<open>The \<^verbatim>\<open>forEach\<close> over the response lines, from position \<open>index\<close> on: the set of
  flagged indices, or \<open>None\<close> when a line throws.\<close>

fun flag_lines :: "line list \<Rightarrow> line list \<Rightarrow> nat \<Rightarrow> nat list \<Rightarrow> nat list option" where
  "flag_lines originalLyricsForApi [] index problematicIndices = Some problematicIndices"
| "flag_lines originalLyricsForApi (l # ls) index problematicIndices =
     (if index < length originalLyricsForApi
      then (case line_issues (originalLyricsForApi ! index) l index of
              None \<Rightarrow> None
            | Some issues \<Rightarrow>
                flag_lines originalLyricsForApi ls (Suc index)
                  (if issues \<noteq> [] then set_add problematicIndices index else problematicIndices))
      else flag_lines originalLyricsForApi ls (Suc index) problematicIndices)"

text \<open>\<open>None\<close> when \<^verbatim>\<open>getProblematicLines\<close> throws (a \<open>TypeError\<close>).\<close>

definition getProblematicLines ::
  "line list \<Rightarrow> response \<Rightarrow> (nat \<times> validation_error list) list \<Rightarrow> line list option" where
  "getProblematicLines originalLyricsForApi resp detailed =
     (let fromErrors = foldl set_add [] (map fst detailed)
      in case (case romanized_lyrics resp of
                 None \<Rightarrow> Some fromErrors
               | Some ls \<Rightarrow> flag_lines originalLyricsForApi ls 0 fromErrors) of
           None \<Rightarrow> None
         | Some problematicIndices \<Rightarrow>
             Some (map (\<lambda>index. (originalLyricsForApi ! index)\<lparr> original_line_index := Some (int index) \<rparr>)
                     (filter (\<lambda>index. index < length originalLyricsForApi) problematicIndices)))"

text \<open>
  Prompts are text built from templates; a prompt is modelled by its template and the
  values it interpolates. \<open>fix_entry\<close> is one element of the array a selective-fix
  prompt lists.
\<close>

record fix_entry =
  fe_original_line_index :: "int option"
  fe_original_text :: "jstring option"
  fe_had_chunks :: bool
  fe_errors :: "validation_error list"

datatype prompt =
  RomanizationPrompt "line list" bool
| CustomPrompt string
| SelectiveFixPrompt "fix_entry list" bool
| FullRetryPrompt "line list" bool
| InvalidJsonPrompt string

datatype turn = User prompt | Model string

datatype schema = RomanizationSchema bool | SelectiveRomanizationSchema bool

text \<open>\<^verbatim>\<open>detailedErrors.find(e => e.lineIndex === i)?.errors || []\<close>\<close>

fun find_errors :: "(nat \<times> validation_error list) list \<Rightarrow> int option \<Rightarrow> validation_error list" where
  "find_errors [] i = []"
| "find_errors ((k, es) # ds) i = (if Some (int k) = i then es else find_errors ds i)"

definition createSelectiveFixPrompt :: "line list \<Rightarrow> validation_result \<Rightarrow> bool \<Rightarrow> prompt" where
  "createSelectiveFixPrompt problematicLines validationResult hasAnyChunks =
     SelectiveFixPrompt
       (map (\<lambda>l. \<lparr> fe_original_line_index = original_line_index l,
                     fe_original_text = line_text l,
                     fe_had_chunks = has_chunks l,
                     fe_errors = find_errors (detailedErrors validationResult) (original_line_index l) \<rparr>)
          problematicLines)
       hasAnyChunks"

definition createFullRetryPrompt :: "validation_result \<Rightarrow> line list \<Rightarrow> bool \<Rightarrow> prompt" where
  "createFullRetryPrompt validationResult lyricsForApi hasAnyChunks =
     FullRetryPrompt lyricsForApi hasAnyChunks"

text \<open>
  \<^verbatim>\<open>problematicLines.length < lyricsForApi.length * 0.8\<close>, in exact arithmetic
  \<open>5 * p < 4 * n\<close> (for a multiple of five the double product is the exact integer, and
  otherwise it is not an integer and rounds between the same two integers).
\<close>

definition createCorrectionPrompt ::
  "line list \<Rightarrow> validation_result \<Rightarrow> line list \<Rightarrow> bool \<Rightarrow> prompt" where
  "createCorrectionPrompt problematicLines validationResult lyricsForApi hasAnyChunks =
     (if length problematicLines > 0 \<and> 5 * length problematicLines < 4 * length lyricsForApi
      then createSelectiveFixPrompt problematicLines validationResult hasAnyChunks
      else createFullRetryPrompt validationResult lyricsForApi hasAnyChunks)"

text \<open>
  One iteration of the \<^verbatim>\<open>forEach\<close> of \<^verbatim>\<open>mergeSelectiveFixes\<close>. The deep copy
  \<^verbatim>\<open>JSON.parse(JSON.stringify(..))\<close> is the identity on values; an index that is absent,
  negative or past the end selects no element and the fix is dropped.
\<close>

definition apply_fix :: "line list \<Rightarrow> line \<Rightarrow> line list" where
  "apply_fix ls fixedLine =
     (case original_line_index fixedLine of
        None \<Rightarrow> ls
      | Some index \<Rightarrow>
          if 0 \<le> index \<and> index < int (length ls) then ls[nat index := fixedLine] else ls)"

definition mergeSelectiveFixes :: "response option \<Rightarrow> line list \<Rightarrow> response" where
  "mergeSelectiveFixes lastValid fixedLines =
     (case lastValid of
        None \<Rightarrow> \<lparr> romanized_lyrics = Some fixedLines, fixed_lines = None \<rparr>
      | Some prev \<Rightarrow>
          (case romanized_lyrics prev of
             None \<Rightarrow> \<lparr> romanized_lyrics = Some fixedLines, fixed_lines = None \<rparr>
           | Some ls \<Rightarrow> prev\<lparr> romanized_lyrics := Some (foldl apply_fix ls fixedLines) \<rparr>))"

section \<open>GeminiRomanizer.romanize\<close>

text \<open>
  Values a \<^verbatim>\<open>throw\<close> carries. \<open>ApiError\<close> is an \<open>Error\<close> raised by
  \<^verbatim>\<open>callGeminiAPI\<close>, \<open>Error m\<close> one raised by the services with message \<open>m\<close>; \<open>FinalErrors n es\<close> is the error of line 85 and
  \<open>FailedAfter n e\<close> the one of line 116, whose message embeds the message of \<open>e\<close>;
  \<open>UnexpectedCompletion\<close> is the error after the loop.
\<close>

datatype js_error =
  ApiError string
| SyntaxError string
| TypeError
| Error string
| FinalErrors nat "validation_error list"
| FailedAfter nat js_error
| UnexpectedCompletion

text \<open>\<open>lastError\<close> starts as \<^verbatim>\<open>null\<close>; \<^verbatim>\<open>errors[0]\<close> of an empty array is
  \<^verbatim>\<open>undefined\<close>.\<close>

datatype error_ref = Null | Undefined | Message validation_error

definition first_error :: "validation_error list \<Rightarrow> error_ref" where
  "first_error es = (case es of [] \<Rightarrow> Undefined | e # _ \<Rightarrow> Message e)"

text \<open>
  The engine's surroundings: the settings it reads, \<^verbatim>\<open>CONFIG.GEMINI.MAX_RETRIES\<close>, the
  utilities, the external transformer and the JSON parser. The transformer is any function
  of the attempt number, the conversation sent and the schema; it answers with the reply's
  text or throws. \<open>JSON_parse\<close> gives the parsed value (\<open>None\<close> for \<^verbatim>\<open>null\<close>) or the
  message of its \<open>SyntaxError\<close>.
\<close>

record engine =
  isPurelyLatinScript :: "jstring option \<Rightarrow> bool"
  util :: utilities
  MAX_RETRIES :: nat
  callGeminiAPI :: "nat \<Rightarrow> turn list \<Rightarrow> schema \<Rightarrow> js_error + string"
  JSON_parse :: "string \<Rightarrow> string + response option"
  overrideGeminiRomanizePrompt :: bool
  customGeminiRomanizePrompt :: string

definition createInitialPrompt :: "engine \<Rightarrow> line list \<Rightarrow> bool \<Rightarrow> prompt" where
  "createInitialPrompt E lyricsForApi hasAnyChunks =
     (if overrideGeminiRomanizePrompt E \<and> customGeminiRomanizePrompt E \<noteq> []
      then CustomPrompt (customGeminiRomanizePrompt E)
      else RomanizationPrompt lyricsForApi hasAnyChunks)"

text \<open>The variables the loop carries from one attempt to the next.\<close>

record conversation =
  currentContents :: "turn list"
  lastValidResponse :: "response option"
  sameErrorCount :: nat
  lastError :: error_ref

datatype step =
  Return "line option list"
| Throw js_error
| Continue conversation

definition isSelectiveFix :: "nat \<Rightarrow> conversation \<Rightarrow> bool" where
  "isSelectiveFix attempt c =
     (attempt > 1 \<and> lastValidResponse c \<noteq> None \<and> sameErrorCount c < 3)"

definition request_schema :: "bool \<Rightarrow> nat \<Rightarrow> conversation \<Rightarrow> schema" where
  "request_schema hasAnyChunks attempt c =
     (if isSelectiveFix attempt c then SelectiveRomanizationSchema hasAnyChunks
      else RomanizationSchema hasAnyChunks)"

text \<open>The \<^verbatim>\<open>catch\<close> block.\<close>

definition catch_attempt :: "engine \<Rightarrow> nat \<Rightarrow> conversation \<Rightarrow> js_error \<Rightarrow> step" where
  "catch_attempt E attempt c e =
     (if attempt = MAX_RETRIES E then Throw (FailedAfter (MAX_RETRIES E) e)
      else (case e of
              SyntaxError m \<Rightarrow>
                Continue (c\<lparr> currentContents := currentContents c @ [User (InvalidJsonPrompt m)] \<rparr>)
            | _ \<Rightarrow> Continue c))"

text \<open>Lines 74 to 109: what follows a failed validation. The \<^verbatim>\<open>throw\<close> of line 85 is
  inside the \<^verbatim>\<open>try\<close> and lands in the \<^verbatim>\<open>catch\<close> block, as do the
  \<open>TypeError\<close> of reading \<^verbatim>\<open>response.romanized_lyrics\<close> of \<^verbatim>\<open>null\<close> and the one
  \<^verbatim>\<open>getProblematicLines\<close> throws. The assignments to \<open>sameErrorCount\<close> and \<open>lastError\<close>
  made before stay.\<close>

definition after_failure ::
  "engine \<Rightarrow> line list \<Rightarrow> bool \<Rightarrow> prompt \<Rightarrow> nat \<Rightarrow> conversation \<Rightarrow> string \<Rightarrow>
   response option \<Rightarrow> validation_result \<Rightarrow> step" where
  "after_failure E lyricsForApi hasAnyChunks initialPrompt attempt c responseText finalResponse
      validationResult =
     (let currentError = first_error (errors validationResult);
          c2 = (if currentError = lastError c
                then c\<lparr> sameErrorCount := sameErrorCount c + 1 \<rparr>
                else c\<lparr> sameErrorCount := 1, lastError := currentError \<rparr>)
      in if attempt = MAX_RETRIES E
         then catch_attempt E attempt c2 (FinalErrors (MAX_RETRIES E) (errors validationResult))
         else if sameErrorCount c2 \<ge> 3
         then Continue (c2\<lparr> currentContents := [User initialPrompt], sameErrorCount := 0,
                            lastValidResponse := None \<rparr>)
         else (case finalResponse of
                 None \<Rightarrow> catch_attempt E attempt c2 TypeError
               | Some fr \<Rightarrow>
                   (case getProblematicLines lyricsForApi fr (detailedErrors validationResult) of
                      None \<Rightarrow> catch_attempt E attempt c2 TypeError
                    | Some problematicLines \<Rightarrow>
                        Continue (c2\<lparr> currentContents := currentContents c2 @
                          [Model responseText,
                           User (createCorrectionPrompt problematicLines validationResult
                                   lyricsForApi hasAnyChunks)] \<rparr>))))"

text \<open>
  Lines 53 to 61: the call, the parse and the merge. The result is the reply's text, the
  parsed value and \<open>finalResponse\<close>, or the error thrown on the way (reading
  \<^verbatim>\<open>fixed_lines\<close> of \<^verbatim>\<open>null\<close> is a \<open>TypeError\<close>).
\<close>

definition attempt_response ::
  "engine \<Rightarrow> bool \<Rightarrow> nat \<Rightarrow> conversation \<Rightarrow> js_error + (string \<times> response option \<times> response option)" where
  "attempt_response E hasAnyChunks attempt c =
     (case callGeminiAPI E attempt (currentContents c) (request_schema hasAnyChunks attempt c) of
        Inl e \<Rightarrow> Inl e
      | Inr responseText \<Rightarrow>
          (case JSON_parse E responseText of
             Inl m \<Rightarrow> Inl (SyntaxError m)
           | Inr parsedJson \<Rightarrow>
               (case parsedJson of
                  None \<Rightarrow> if isSelectiveFix attempt c then Inl TypeError
                          else Inr (responseText, parsedJson, parsedJson)
                | Some pj \<Rightarrow>
                    (case fixed_lines pj of
                       None \<Rightarrow> Inr (responseText, parsedJson, parsedJson)
                     | Some fl \<Rightarrow>
                         if isSelectiveFix attempt c
                         then Inr (responseText, parsedJson,
                                   Some (mergeSelectiveFixes (lastValidResponse c) fl))
                         else Inr (responseText, parsedJson, parsedJson)))))"

text \<open>The body of the \<^verbatim>\<open>for\<close> loop, for one attempt. A \<open>TypeError\<close> thrown by
  \<^verbatim>\<open>validate\<close> lands in the \<^verbatim>\<open>catch\<close> block, after the assignment of line 64.\<close>

definition attempt_body ::
  "engine \<Rightarrow> line list \<Rightarrow> plan_item list \<Rightarrow> bool \<Rightarrow> prompt \<Rightarrow> nat \<Rightarrow> conversation \<Rightarrow> step" where
  "attempt_body E lyricsForApi plan hasAnyChunks initialPrompt attempt c =
     (case attempt_response E hasAnyChunks attempt c of
        Inl e \<Rightarrow> catch_attempt E attempt c e
      | Inr (responseText, parsedJson, finalResponse) \<Rightarrow>
          (let c1 = (if attempt = 1 then c\<lparr> lastValidResponse := parsedJson \<rparr> else c)
           in case validate (util E) lyricsForApi finalResponse of
                None \<Rightarrow> catch_attempt E attempt c1 TypeError
              | Some validationResult \<Rightarrow>
                  if isValid validationResult
                  then (case finalResponse of
                          None \<Rightarrow> catch_attempt E attempt c1 TypeError
                        | Some fr \<Rightarrow>
                            (case romanized_lyrics fr of
                               None \<Rightarrow> catch_attempt E attempt c1 TypeError
                             | Some ls \<Rightarrow> Return (reconstructLyrics ls plan hasAnyChunks)))
                  else after_failure E lyricsForApi hasAnyChunks initialPrompt attempt c1
                         responseText finalResponse validationResult))"

text \<open>The loop, with the log of the requests sent to the transformer: one per attempt, the
  conversation and the schema of the call.\<close>

type_synonym request = "turn list \<times> schema"

function romanize_loop ::
  "engine \<Rightarrow> line list \<Rightarrow> plan_item list \<Rightarrow> bool \<Rightarrow> prompt \<Rightarrow> nat \<Rightarrow> conversation \<Rightarrow>
   request list \<Rightarrow> (js_error + line option list) \<times> request list" where
  "romanize_loop E lyricsForApi plan hasAnyChunks initialPrompt attempt c sent =
     (if attempt \<le> MAX_RETRIES E
      then (let sent' = sent @ [(currentContents c, request_schema hasAnyChunks attempt c)]
            in case attempt_body E lyricsForApi plan hasAnyChunks initialPrompt attempt c of
                 Return out \<Rightarrow> (Inr out, sent')
               | Throw e \<Rightarrow> (Inl e, sent')
               | Continue c' \<Rightarrow>
                   romanize_loop E lyricsForApi plan hasAnyChunks initialPrompt (Suc attempt) c' sent')
      else (Inl UnexpectedCompletion, sent))"
  by pat_completeness auto
termination
  by (relation "measure (\<lambda>(E, lyricsForApi, plan, hasAnyChunks, initialPrompt, attempt, c, sent).
        Suc (MAX_RETRIES E) - attempt)") auto

definition romanize :: "engine \<Rightarrow> line list \<Rightarrow> (js_error + line option list) \<times> request list" where
  "romanize E structuredInput =
     (let (lyricsForApi, plan) = prepareLyrics (isPurelyLatinScript E) structuredInput;
          hasAnyChunks = list_ex has_chunks lyricsForApi
      in if lyricsForApi = []
         then (Inr (reconstructLyrics [] plan hasAnyChunks), [])
         else (let initialPrompt = createInitialPrompt E lyricsForApi hasAnyChunks
               in romanize_loop E lyricsForApi plan hasAnyChunks initialPrompt 1
                    \<lparr> currentContents = [User initialPrompt], lastValidResponse = None,
                      sameErrorCount = 0, lastError = Null \<rparr> []))"

section \<open>Caches, stores and the in-flight registry\<close>

text \<open>
  \<open>SongInfo\<close> of \<^verbatim>\<open>types.d.ts\<close>. A property that is absent is \<open>None\<close>;
  \<open>duration\<close> holds the decimal text the key template prints for the number (\<open>None\<close>
  when it is absent or zero, which \<^verbatim>\<open>||\<close> treats alike).
\<close>

record song_info =
  title :: "string option"
  artist :: "string option"
  album :: "string option"
  duration :: "string option"
  songId :: "string option"
  videoId :: "string option"
  subtitle :: bool

record lyric_line =
  ll_text :: jstring
  translatedText :: "jstring option"
  romanizedText :: "jstring option"

record translation_meta =
  tm_action :: "string option"
  tm_provider :: "string option"
  tm_targetLang :: "string option"
  tm_requestedTargetLang :: "string option"
  tm_sourceLang :: "string option"
  tm_fallbackUsed :: "bool option"
  tm_skippedReason :: "string option"
  tm_failedLines :: "nat list option"
  tm_generatedAt :: "int option"
  tm_cached :: "bool option"
  tm_cacheSource :: "string option"
  tm_lastServedAt :: "int option"

text \<open>\<open>LyricsData\<close>; of \<open>metadata\<close> the model keeps \<open>fetchedAt\<close>.\<close>

record lyrics_data =
  data :: "lyric_line list"
  fetchedAt :: "int option"
  translationMeta :: "translation_meta option"

text \<open>A version is a number (the fetch timestamp) or a string (a local song id).\<close>

datatype version = VNum int | VStr string

text \<open>
  What the memory cache holds under a key: \<^verbatim>\<open>{lyrics, version}\<close> for a lyrics key,
  \<^verbatim>\<open>{translatedLyrics, originalVersion}\<close> for a translation key. Both services use the same
  cache, and the readers only look at the properties they expect.
\<close>

record cache_entry =
  lyrics :: "lyrics_data option"
  version :: "version option"
  translatedLyrics :: "lyrics_data option"
  originalVersion :: "version option"

definition lyrics_entry :: "lyrics_data \<Rightarrow> version \<Rightarrow> cache_entry" where
  "lyrics_entry l v = \<lparr> lyrics = Some l, version = Some v, translatedLyrics = None, originalVersion = None \<rparr>"

definition translation_entry :: "lyrics_data \<Rightarrow> version option \<Rightarrow> cache_entry" where
  "translation_entry l v = \<lparr> lyrics = None, version = None, translatedLyrics = Some l, originalVersion = v \<rparr>"

text \<open>The records of the three persistent collections (\<^verbatim>\<open>database.js\<close>).\<close>

record lyrics_record =
  lr_lyrics :: lyrics_data
  lr_version :: version
  lr_timestamp :: int
  lr_duration :: "string option"

record translation_record =
  tr_translatedLyrics :: lyrics_data
  tr_originalVersion :: "version option"

record local_record =
  lo_songId :: string
  lo_songInfo :: song_info
  lo_lyrics :: string
  lo_timestamp :: "int option"

text \<open>
  The mutable state the services share. \<open>cache\<close> and \<open>ongoingFetches\<close> belong to the
  \<^verbatim>\<open>state\<close> module; a pending result is named by a handle, and \<open>handles\<close> counts the
  handles given out. The three stores are keyed tables; \<^verbatim>\<open>put\<close> and \<^verbatim>\<open>delete\<close> act at
  once and a failing transaction is not modelled.
\<close>

record world =
  cache :: "string \<rightharpoonup> cache_entry"
  ongoingFetches :: "string \<rightharpoonup> nat"
  handles :: nat
  lyricsDB :: "string \<rightharpoonup> lyrics_record"
  translationsDB :: "string \<rightharpoonup> translation_record"
  localLyricsDB :: "local_record list"

text \<open>Modelled from the spec: the memory cache of \<^verbatim>\<open>state.js\<close>, a map by cache key
  (\<^verbatim>\<open>hasCached\<close>, \<^verbatim>\<open>getCached\<close>, \<^verbatim>\<open>setCached\<close>).\<close>

definition hasCached :: "world \<Rightarrow> string \<Rightarrow> bool" where
  "hasCached w k = (cache w k \<noteq> None)"

definition setCached :: "string \<Rightarrow> cache_entry \<Rightarrow> world \<Rightarrow> world" where
  "setCached k e w = w\<lparr> cache := (cache w)(k \<mapsto> e) \<rparr>"

text \<open>Modelled from the spec: the in-flight registry of \<^verbatim>\<open>state.js\<close>, a map from
  logical key to the pending result (\<^verbatim>\<open>hasOngoingFetch\<close>, \<^verbatim>\<open>setOngoingFetch\<close>,
  \<^verbatim>\<open>deleteOngoingFetch\<close>).\<close>

definition hasOngoingFetch :: "world \<Rightarrow> string \<Rightarrow> bool" where
  "hasOngoingFetch w k = (ongoingFetches w k \<noteq> None)"

definition setOngoingFetch :: "string \<Rightarrow> world \<Rightarrow> world" where
  "setOngoingFetch k w =
     w\<lparr> ongoingFetches := (ongoingFetches w)(k \<mapsto> handles w), handles := Suc (handles w) \<rparr>"

definition deleteOngoingFetch :: "string \<Rightarrow> world \<Rightarrow> world" where
  "deleteOngoingFetch k w = w\<lparr> ongoingFetches := (ongoingFetches w)(k := None) \<rparr>"

text \<open>
  How a call settles, run to completion on its own: it resolves, rejects, or joins the
  pending result of an earlier call that is still in flight.
\<close>

datatype 'a outcome = Resolved 'a | Rejected js_error | Joined nat

text \<open>
  What the services read from outside: the stored settings, \<^verbatim>\<open>CONFIG\<close> and
  \<^verbatim>\<open>PROVIDERS\<close> of \<^verbatim>\<open>constants.js\<close>, the clock, the utilities and the provider
  clients. None of these modules is among the sources; each is a parameter.
\<close>

record services =
  cacheStrategy :: string
  lyricsProvider :: string
  customKpoeUrl :: string
  CACHE_EXPIRY :: "string \<rightharpoonup> int"
  PROVIDERS_values :: "string list"
  KPOE :: string
  CUSTOM_KPOE :: string
  LRCLIB :: string
  LOCAL :: string
  GOOGLE :: string
  GEMINI :: string
  Date_now :: int
  isEmptyLyrics :: "lyrics_data option \<Rightarrow> bool"
  parseKPoeFormat :: "string \<Rightarrow> lyrics_data"
  KPoeService_fetch :: "song_info \<Rightarrow> bool \<Rightarrow> bool \<Rightarrow> js_error + lyrics_data option"
  KPoeService_fetchCustom :: "song_info \<Rightarrow> string \<Rightarrow> bool \<Rightarrow> bool \<Rightarrow> js_error + lyrics_data option"
  LRCLibService_fetch :: "song_info \<Rightarrow> bool \<Rightarrow> js_error + lyrics_data option"
  YouTubeService_fetchSubtitles :: "song_info \<Rightarrow> js_error + lyrics_data option"
  overrideTranslateTarget :: bool
  customTranslateTarget :: string
  normalizeLanguageCode :: "string \<Rightarrow> string"
  performTranslation ::
    "lyrics_data \<Rightarrow> string \<Rightarrow> string \<Rightarrow> js_error + (lyric_line list option \<times> translation_meta option)"

section \<open>LyricsService\<close>

text \<open>\<^verbatim>\<open>!s\<close> for an optional string: absent or empty.\<close>

definition falsy :: "string option \<Rightarrow> bool" where
  "falsy s = (case s of None \<Rightarrow> True | Some t \<Rightarrow> t = [])"

text \<open>\<^verbatim>\<open>s || ''\<close>\<close>

definition or_empty :: "string option \<Rightarrow> string" where
  "or_empty s = (case s of None \<Rightarrow> [] | Some t \<Rightarrow> t)"

text \<open>The template prints an absent title as \<^verbatim>\<open>undefined\<close>.\<close>

definition LyricsService_createCacheKey :: "song_info \<Rightarrow> string" where
  "LyricsService_createCacheKey songInfo =
     (case title songInfo of None \<Rightarrow> ''undefined'' | Some t \<Rightarrow> t)
     @ '' - '' @ or_empty (artist songInfo)
     @ '' - '' @ or_empty (album songInfo)
     @ '' - '' @ or_empty (duration songInfo)"

text \<open>\<open>songInfo\<close> is \<open>None\<close> for \<^verbatim>\<open>null\<close> or \<^verbatim>\<open>undefined\<close>. The result is the
  error thrown, if any.\<close>

definition validateSongInfo :: "song_info option \<Rightarrow> js_error option" where
  "validateSongInfo songInfo =
     (case songInfo of
        None \<Rightarrow> Some (Error ''Song info must include title and artist'')
      | Some si \<Rightarrow>
          if falsy (title si) \<or> falsy (artist si)
          then Some (Error ''Song info must include title and artist'')
          else None)"

text \<open>\<^verbatim>\<open>settings.cacheStrategy && settings.cacheStrategy in CONFIG.CACHE_EXPIRY
  ? settings.cacheStrategy : 'aggressive'\<close>\<close>

definition expiry_strategy :: "services \<Rightarrow> string" where
  "expiry_strategy S =
     (if cacheStrategy S \<noteq> [] \<and> cacheStrategy S \<in> dom (CACHE_EXPIRY S)
      then cacheStrategy S else ''aggressive'')"

text \<open>A strategy without an entry in the table has expiry \<^verbatim>\<open>undefined\<close>, and
  \<^verbatim>\<open>age < undefined\<close> is false.\<close>

definition getFromDB :: "services \<Rightarrow> string \<Rightarrow> world \<Rightarrow> cache_entry option \<times> world" where
  "getFromDB S key w =
     (if cacheStrategy S = ''none'' then (None, w)
      else
        (case lyricsDB w key of
           None \<Rightarrow> (None, w)
         | Some result \<Rightarrow>
             (let now = Date_now S;
                  strategy = expiry_strategy S;
                  expirationTime = CACHE_EXPIRY S strategy;
                  age = now - lr_timestamp result
              in if (case expirationTime of None \<Rightarrow> False | Some t \<Rightarrow> age < t)
                 then (Some (lyrics_entry (lr_lyrics result) (lr_version result)), w)
                 else (None, w\<lparr> lyricsDB := (lyricsDB w)(key := None) \<rparr>))))"

text \<open>\<^verbatim>\<open>localLyricsDB.get(id)\<close>\<close>

definition local_get :: "world \<Rightarrow> string \<Rightarrow> local_record option" where
  "local_get w sid = find (\<lambda>r. lo_songId r = sid) (localLyricsDB w)"

text \<open>\<^verbatim>\<open>record.timestamp || id\<close>\<close>

definition local_version :: "local_record \<Rightarrow> string \<Rightarrow> version" where
  "local_version r sid =
     (case lo_timestamp r of
        None \<Rightarrow> VStr sid
      | Some t \<Rightarrow> if t = 0 then VStr sid else VNum t)"

definition checkLocalLyrics :: "services \<Rightarrow> song_info \<Rightarrow> world \<Rightarrow> cache_entry option" where
  "checkLocalLyrics S songInfo w =
     (let direct =
            (if falsy (songId songInfo) then None
             else (case local_get w (or_empty (songId songInfo)) of
                     None \<Rightarrow> None
                   | Some directLocal \<Rightarrow>
                       Some (lyrics_entry (parseKPoeFormat S (lo_lyrics directLocal))
                               (local_version directLocal (or_empty (songId songInfo))))))
      in case direct of
           Some e \<Rightarrow> Some e
         | None \<Rightarrow>
             (case find (\<lambda>item. title (lo_songInfo item) = title songInfo
                                \<and> artist (lo_songInfo item) = artist songInfo) (localLyricsDB w) of
                None \<Rightarrow> None
              | Some matched \<Rightarrow>
                  (case local_get w (lo_songId matched) of
                     None \<Rightarrow> None
                   | Some fetchedLocal \<Rightarrow>
                       Some (lyrics_entry (parseKPoeFormat S (lo_lyrics fetchedLocal))
                               (local_version fetchedLocal (lo_songId matched))))))"

definition getProviderOrder :: "services \<Rightarrow> string list" where
  "getProviderOrder S =
     (let allProviders = filter (\<lambda>p. p \<noteq> GOOGLE S \<and> p \<noteq> GEMINI S) (PROVIDERS_values S);
          preferredProvider = (if lyricsProvider S \<in> set allProviders then lyricsProvider S else KPOE S)
      in preferredProvider # filter (\<lambda>p. p \<noteq> preferredProvider) allProviders)"

text \<open>The \<^verbatim>\<open>switch\<close> takes the first matching case. \<open>noStore\<close> stands for the fetch
  options \<^verbatim>\<open>{ cache: 'no-store' }\<close>.\<close>

definition fetchFromProvider ::
  "services \<Rightarrow> string \<Rightarrow> song_info \<Rightarrow> bool \<Rightarrow> bool \<Rightarrow> world \<Rightarrow> js_error + lyrics_data option" where
  "fetchFromProvider S provider songInfo noStore forceReload w =
     (if provider = KPOE S then KPoeService_fetch S songInfo forceReload noStore
      else if provider = CUSTOM_KPOE S then
        (if customKpoeUrl S \<noteq> []
         then KPoeService_fetchCustom S songInfo (customKpoeUrl S) forceReload noStore
         else Inr None)
      else if provider = LRCLIB S then LRCLibService_fetch S songInfo noStore
      else if provider = LOCAL S then
        (case checkLocalLyrics S songInfo w of
           None \<Rightarrow> Inr None
         | Some localResult \<Rightarrow> Inr (lyrics localResult))
      else Inr None)"

text \<open>The \<^verbatim>\<open>for\<close> loop over the providers; \<open>found\<close> is the variable
  \<^verbatim>\<open>lyrics\<close>. A provider that throws ends the fetch.\<close>

fun try_providers ::
  "services \<Rightarrow> song_info \<Rightarrow> bool \<Rightarrow> bool \<Rightarrow> world \<Rightarrow> string list \<Rightarrow> lyrics_data option \<Rightarrow>
   js_error + lyrics_data option" where
  "try_providers S songInfo noStore forceReload w [] found = Inr found"
| "try_providers S songInfo noStore forceReload w (provider # ps) found =
     (case fetchFromProvider S provider songInfo noStore forceReload w of
        Inl e \<Rightarrow> Inl e
      | Inr l \<Rightarrow>
          if \<not> isEmptyLyrics S l then Inr l
          else try_providers S songInfo noStore forceReload w ps l)"

text \<open>The \<^verbatim>\<open>try\<close> block of \<^verbatim>\<open>fetchNewLyrics\<close>.\<close>

definition fetch_body ::
  "services \<Rightarrow> song_info \<Rightarrow> string \<Rightarrow> bool \<Rightarrow> world \<Rightarrow> (js_error + cache_entry) \<times> world" where
  "fetch_body S songInfo cacheKey forceReload w =
     (let noStore = (cacheStrategy S = ''none'')
      in case try_providers S songInfo noStore forceReload w (getProviderOrder S) None of
           Inl e \<Rightarrow> (Inl e, w)
         | Inr l0 \<Rightarrow>
             (case (if isEmptyLyrics S l0 \<and> \<not> falsy (videoId songInfo) \<and> subtitle songInfo
                    then YouTubeService_fetchSubtitles S songInfo else Inr l0) of
                Inl e \<Rightarrow> (Inl e, w)
              | Inr l1 \<Rightarrow>
                  (case l1 of
                     None \<Rightarrow> (Inl (Error ''No lyrics found from any provider''), w)
                   | Some found \<Rightarrow>
                       if isEmptyLyrics S l1
                       then (Inl (Error ''No lyrics found from any provider''), w)
                       else
                         (let fetchedAt' = Date_now S;
                              lyricsWithMeta = found\<lparr> fetchedAt := Some fetchedAt' \<rparr>;
                              result = lyrics_entry lyricsWithMeta (VNum fetchedAt');
                              w1 = setCached cacheKey result w;
                              w2 = (if cacheStrategy S \<noteq> ''none''
                                    then w1\<lparr> lyricsDB := (lyricsDB w1)(cacheKey \<mapsto>
                                           \<lparr> lr_lyrics = lyricsWithMeta, lr_version = VNum fetchedAt',
                                             lr_timestamp = fetchedAt', lr_duration = duration songInfo \<rparr>) \<rparr>
                                    else w1)
                          in (Inr result, w2)))))"

text \<open>\<^verbatim>\<open>fetchNewLyrics\<close>: the \<^verbatim>\<open>try\<close> block, then the \<^verbatim>\<open>finally\<close> block on
  either exit.\<close>

definition fetchNewLyrics ::
  "services \<Rightarrow> song_info \<Rightarrow> string \<Rightarrow> bool \<Rightarrow> world \<Rightarrow> cache_entry outcome \<times> world" where
  "fetchNewLyrics S songInfo cacheKey forceReload w =
     (let (r, w') = fetch_body S songInfo cacheKey forceReload w;
          settled = deleteOngoingFetch cacheKey w'
      in (case r of Inl e \<Rightarrow> (Rejected e, settled) | Inr e \<Rightarrow> (Resolved e, settled)))"

text \<open>
  One call of \<^verbatim>\<open>getOrFetch\<close>, run to completion with no other call interleaved.
  \<^verbatim>\<open>fetchNewLyrics\<close> runs up to its first \<^verbatim>\<open>await\<close> without touching the state and
  hands its promise back; the caller registers it, and the fetch goes on from there. The
  model registers first and then runs the fetch.
\<close>

definition LyricsService_getOrFetch ::
  "services \<Rightarrow> song_info option \<Rightarrow> bool \<Rightarrow> world \<Rightarrow> cache_entry outcome \<times> world" where
  "LyricsService_getOrFetch S songInfo forceReload w =
     (case validateSongInfo songInfo of
        Some e \<Rightarrow> (Rejected e, w)
      | None \<Rightarrow>
          (case songInfo of
             None \<Rightarrow> (Rejected TypeError, w)
           | Some si \<Rightarrow>
               (let cacheKey = LyricsService_createCacheKey si
                in case (if \<not> forceReload then cache w cacheKey else None) of
                     Some hit \<Rightarrow> (Resolved hit, w)
                   | None \<Rightarrow>
                       (let (dbResult, w1) = (if \<not> forceReload then getFromDB S cacheKey w else (None, w))
                        in case dbResult of
                             Some e \<Rightarrow> (Resolved e, setCached cacheKey e w1)
                           | None \<Rightarrow>
                               (case (if \<not> forceReload then checkLocalLyrics S si w1 else None) of
                                  Some e \<Rightarrow> (Resolved e, setCached cacheKey e w1)
                                | None \<Rightarrow>
                                    (case ongoingFetches w1 cacheKey of
                                       Some pending \<Rightarrow> (Joined pending, w1)
                                     | None \<Rightarrow>
                                         fetchNewLyrics S si cacheKey forceReload
                                           (setOngoingFetch cacheKey w1)))))))"

section \<open>TranslationService\<close>

text \<open>Reading \<^verbatim>\<open>songInfo.artist\<close> of \<^verbatim>\<open>null\<close> throws a \<open>TypeError\<close>.\<close>

definition TranslationService_createCacheKey ::
  "song_info option \<Rightarrow> string \<Rightarrow> string \<Rightarrow> js_error + string" where
  "TranslationService_createCacheKey songInfo action targetLang =
     (case songInfo of
        None \<Rightarrow> Inl TypeError
      | Some si \<Rightarrow> Inr (LyricsService_createCacheKey si @ '' - '' @ action @ '' - '' @ targetLang))"

definition empty_meta :: translation_meta where
  "empty_meta =
     \<lparr> tm_action = None, tm_provider = None, tm_targetLang = None, tm_requestedTargetLang = None,
       tm_sourceLang = None, tm_fallbackUsed = None, tm_skippedReason = None, tm_failedLines = None,
       tm_generatedAt = None, tm_cached = None, tm_cacheSource = None, tm_lastServedAt = None \<rparr>"

definition annotateCacheHit :: "services \<Rightarrow> lyrics_data \<Rightarrow> string \<Rightarrow> lyrics_data" where
  "annotateCacheHit S translated cacheSource =
     translated\<lparr> translationMeta :=
          Some ((case translationMeta translated of None \<Rightarrow> empty_meta | Some m \<Rightarrow> m)
                  \<lparr> tm_cached := Some True, tm_cacheSource := Some cacheSource,
                    tm_lastServedAt := Some (Date_now S) \<rparr>) \<rparr>"

text \<open>
  \<^verbatim>\<open>getCached(key, originalVersion)\<close>. \<^verbatim>\<open>annotateCacheHit\<close> writes into the object it
  is given, which is the one the memory cache holds: the cached entry carries the
  annotation afterwards. A record read from the database is a fresh copy.
\<close>

definition TranslationService_getCached ::
  "services \<Rightarrow> string \<Rightarrow> version option \<Rightarrow> world \<Rightarrow> (js_error + lyrics_data option) \<times> world" where
  "TranslationService_getCached S key origVersion w =
     (let memory =
            (case cache w key of
               None \<Rightarrow> None
             | Some cached \<Rightarrow> if originalVersion cached = origVersion then Some cached else None)
      in case memory of
           Some cached \<Rightarrow>
             (case translatedLyrics cached of
                None \<Rightarrow> (Inl TypeError, w)
              | Some translated \<Rightarrow>
                  (let annotated = annotateCacheHit S translated ''memory''
                   in (Inr (Some annotated),
                       setCached key (cached\<lparr> translatedLyrics := Some annotated \<rparr>) w)))
         | None \<Rightarrow>
             (case translationsDB w key of
                None \<Rightarrow> (Inr None, w)
              | Some dbCached \<Rightarrow>
                  if tr_originalVersion dbCached = origVersion
                  then (let annotated = annotateCacheHit S (tr_translatedLyrics dbCached) ''db''
                        in (Inr (Some annotated),
                            setCached key (translation_entry annotated (tr_originalVersion dbCached)) w))
                  else (Inr None, w\<lparr> translationsDB := (translationsDB w)(key := None) \<rparr>)))"

definition performAndCacheTranslation ::
  "services \<Rightarrow> string \<Rightarrow> lyrics_data \<Rightarrow> version option \<Rightarrow> string \<Rightarrow> string \<Rightarrow> world \<Rightarrow>
   (js_error + lyrics_data) \<times> world" where
  "performAndCacheTranslation S translatedKey originalLyrics origVersion action targetLang w =
     (let resolvedTargetLang =
            (if overrideTranslateTarget S \<and> customTranslateTarget S \<noteq> []
             then customTranslateTarget S else targetLang)
      in case performTranslation S originalLyrics action resolvedTargetLang of
           Inl e \<Rightarrow> (Inl e, w)
         | Inr (resultData, resultMeta) \<Rightarrow>
             (let meta = (case resultMeta of None \<Rightarrow> empty_meta | Some m \<Rightarrow> m);
                  finalTranslatedLyrics = originalLyrics
                    \<lparr> data := (case resultData of None \<Rightarrow> data originalLyrics | Some d \<Rightarrow> d),
                      translationMeta := Some
                        \<lparr> tm_action = Some action,
                          tm_provider = Some (if falsy (tm_provider meta) then ''unknown''
                                              else or_empty (tm_provider meta)),
                          tm_targetLang = Some (if normalizeLanguageCode S resolvedTargetLang \<noteq> []
                                                then normalizeLanguageCode S resolvedTargetLang
                                                else resolvedTargetLang),
                          tm_requestedTargetLang = Some targetLang,
                          tm_sourceLang = Some (if falsy (tm_sourceLang meta) then ''auto''
                                                else or_empty (tm_sourceLang meta)),
                          tm_fallbackUsed = Some (tm_fallbackUsed meta = Some True),
                          tm_skippedReason = (if falsy (tm_skippedReason meta) then None
                                              else tm_skippedReason meta),
                          tm_failedLines = Some (case tm_failedLines meta of None \<Rightarrow> [] | Some f \<Rightarrow> f),
                          tm_generatedAt = Some (Date_now S),
                          tm_cached = None, tm_cacheSource = None, tm_lastServedAt = None \<rparr> \<rparr>;
                  w1 = setCached translatedKey (translation_entry finalTranslatedLyrics origVersion) w;
                  w2 = w1\<lparr> translationsDB := (translationsDB w1)(translatedKey \<mapsto>
                         \<lparr> tr_translatedLyrics = finalTranslatedLyrics,
                           tr_originalVersion = origVersion \<rparr>) \<rparr>
              in (Inr finalTranslatedLyrics, w2)))"

text \<open>
  One call of \<^verbatim>\<open>TranslationService.getOrFetch\<close>, run to completion with no other call
  interleaved. When the base lyrics call joins a fetch in flight, what follows depends on
  how that fetch settles; the model stops there with \<open>Joined\<close>.
\<close>

definition TranslationService_getOrFetch ::
  "services \<Rightarrow> song_info option \<Rightarrow> string \<Rightarrow> string \<Rightarrow> bool \<Rightarrow> world \<Rightarrow>
   lyrics_data outcome \<times> world" where
  "TranslationService_getOrFetch S songInfo action targetLang forceReload w =
     (case TranslationService_createCacheKey songInfo action targetLang of
        Inl e \<Rightarrow> (Rejected e, w)
      | Inr translatedKey \<Rightarrow>
          (case LyricsService_getOrFetch S songInfo forceReload w of
             (Rejected e, w1) \<Rightarrow> (Rejected e, w1)
           | (Joined pending, w1) \<Rightarrow> (Joined pending, w1)
           | (Resolved base, w1) \<Rightarrow>
               if isEmptyLyrics S (lyrics base)
               then (Rejected (Error ''Original lyrics not found or empty''), w1)
               else
                 (case (if \<not> forceReload
                        then TranslationService_getCached S translatedKey (version base) w1
                        else (Inr None, w1)) of
                    (Inl e, w2) \<Rightarrow> (Rejected e, w2)
                  | (Inr (Some cached), w2) \<Rightarrow> (Resolved cached, w2)
                  | (Inr None, w2) \<Rightarrow>
                      (case (if \<not> forceReload then ongoingFetches w2 translatedKey else None) of
                         Some pending \<Rightarrow> (Joined pending, w2)
                       | None \<Rightarrow>
                           (case lyrics base of
                              None \<Rightarrow> (Rejected TypeError, w2)
                            | Some originalLyrics \<Rightarrow>
                                (let (r, w3) = performAndCacheTranslation S translatedKey originalLyrics
                                                 (version base) action targetLang
                                                 (setOngoingFetch translatedKey w2);
                                     w4 = deleteOngoingFetch translatedKey w3
                                 in (case r of Inl e \<Rightarrow> (Rejected e, w4)
                                             | Inr t \<Rightarrow> (Resolved t, w4))))))))"


section \<open>Overlapping calls of LyricsService.getOrFetch\<close>

text \<open>
  JavaScript runs one call at a time and hands over only at an \<^verbatim>\<open>await\<close>. A call of
  \<^verbatim>\<open>getOrFetch\<close> with \<open>forceReload = false\<close> is cut at its hand-over points into the
  phases below; between two of them it runs alone on the shared state.

  \<^item> \<open>NotStarted\<close>: lines 42 to 51, validation, the key and the memory-cache check, up to
    \<^verbatim>\<open>await this.getFromDB(cacheKey)\<close>.
  \<^item> \<open>AwaitingDB\<close>: \<^verbatim>\<open>getFromDB\<close> answers; lines 52 to 57, up to
    \<^verbatim>\<open>await this.checkLocalLyrics(songInfo)\<close>.
  \<^item> \<open>AwaitingLocal\<close>: \<^verbatim>\<open>checkLocalLyrics\<close> answers; lines 58 to 71. No \<^verbatim>\<open>await\<close>
    separates the registry check of line 64 from the registration of line 69
    (\<^verbatim>\<open>fetchNewLyrics\<close> runs up to its first \<^verbatim>\<open>await\<close> without touching the state), so
    the call either takes the pending promise of the registry (\<open>Waiting\<close>) or starts a
    fetch and registers it (\<open>Fetching\<close>), in one step.
  \<^item> \<open>Fetching h\<close>: the fetch behind promise \<open>h\<close> is under way; its step is the rest of
    \<^verbatim>\<open>fetchNewLyrics\<close>, the \<^verbatim>\<open>try\<close> block and the \<^verbatim>\<open>finally\<close> block, and settles \<open>h\<close>.
  \<^item> \<open>Waiting p\<close>: the call returned the promise \<open>p\<close> of another call and finishes with
    its result once \<open>p\<close> has settled.
  \<^item> \<open>Finished r\<close>: the promise of the call has settled with \<open>r\<close>.

  The several \<^verbatim>\<open>await\<close>s inside \<^verbatim>\<open>getFromDB\<close>, \<^verbatim>\<open>checkLocalLyrics\<close> and
  \<^verbatim>\<open>fetchNewLyrics\<close> are taken together: each of the three acts on the shared state at
  the moment it answers. None of them reads the registry, and \<^verbatim>\<open>fetchNewLyrics\<close> writes
  it only in its \<^verbatim>\<open>finally\<close> block.
\<close>

datatype phase =
  NotStarted
| AwaitingDB
| AwaitingLocal
| Fetching nat
| Waiting nat
| Finished "cache_entry outcome"

text \<open>
  Some calls for one song: the shared state, the phase of each call, the promises that
  have settled (by handle), and the number of times \<^verbatim>\<open>fetchNewLyrics\<close> was called.
\<close>

record system =
  shared :: world
  calls :: "phase list"
  promises :: "nat \<rightharpoonup> cache_entry outcome"
  fetches :: nat

text \<open>Call \<open>i\<close> runs from its present hand-over point to the next one. A call that waits
  for a promise not yet settled, a finished call and an index that names no call leave
  everything as it is.\<close>

definition advance :: "services \<Rightarrow> song_info \<Rightarrow> nat \<Rightarrow> system \<Rightarrow> system" where
  "advance S songInfo i sys =
     (if length (calls sys) \<le> i then sys
      else
        (let cacheKey = LyricsService_createCacheKey songInfo; w = shared sys
         in case calls sys ! i of
              NotStarted \<Rightarrow>
                (case validateSongInfo (Some songInfo) of
                   Some e \<Rightarrow> sys\<lparr> calls := (calls sys)[i := Finished (Rejected e)] \<rparr>
                 | None \<Rightarrow>
                     (case cache w cacheKey of
                        Some hit \<Rightarrow> sys\<lparr> calls := (calls sys)[i := Finished (Resolved hit)] \<rparr>
                      | None \<Rightarrow> sys\<lparr> calls := (calls sys)[i := AwaitingDB] \<rparr>))
            | AwaitingDB \<Rightarrow>
                (let (dbResult, w1) = getFromDB S cacheKey w
                 in case dbResult of
                      Some e \<Rightarrow> sys\<lparr> shared := setCached cacheKey e w1,
                                     calls := (calls sys)[i := Finished (Resolved e)] \<rparr>
                    | None \<Rightarrow> sys\<lparr> shared := w1, calls := (calls sys)[i := AwaitingLocal] \<rparr>)
            | AwaitingLocal \<Rightarrow>
                (case checkLocalLyrics S songInfo w of
                   Some e \<Rightarrow> sys\<lparr> shared := setCached cacheKey e w,
                                  calls := (calls sys)[i := Finished (Resolved e)] \<rparr>
                 | None \<Rightarrow>
                     (case ongoingFetches w cacheKey of
                        Some pending \<Rightarrow> sys\<lparr> calls := (calls sys)[i := Waiting pending] \<rparr>
                      | None \<Rightarrow>
                          sys\<lparr> shared := setOngoingFetch cacheKey w,
                               calls := (calls sys)[i := Fetching (handles w)],
                               fetches := Suc (fetches sys) \<rparr>))
            | Fetching h \<Rightarrow>
                (let (r, w') = fetchNewLyrics S songInfo cacheKey False w
                 in sys\<lparr> shared := w', calls := (calls sys)[i := Finished r],
                         promises := (promises sys)(h \<mapsto> r) \<rparr>)
            | Waiting pending \<Rightarrow>
                (case promises sys pending of
                   None \<Rightarrow> sys
                 | Some r \<Rightarrow> sys\<lparr> calls := (calls sys)[i := Finished r] \<rparr>)
            | Finished r \<Rightarrow> sys))"

text \<open>A schedule names the call that runs next, step after step; every order in which
  the calls can take turns is a schedule.\<close>

definition run :: "services \<Rightarrow> song_info \<Rightarrow> nat list \<Rightarrow> system \<Rightarrow> system" where
  "run S songInfo schedule sys = foldl (\<lambda>s i. advance S songInfo i s) sys schedule"

text \<open>\<open>n\<close> calls that have been made and have not run yet.\<close>

definition start :: "world \<Rightarrow> nat \<Rightarrow> system" where
  "start w n = \<lparr> shared = w, calls = replicate n NotStarted, promises = Map.empty, fetches = 0 \<rparr>"


section \<open>Definitions used to state the properties\<close>

text \<open>The line \<^verbatim>\<open>prepareLyrics\<close> sends for content key \<open>k\<close> in slot \<open>ai\<close>.\<close>

definition api_line_of :: "content_key \<Rightarrow> nat \<Rightarrow> line" where
  "api_line_of k ai =
     \<lparr> line_text = fst k, original_line_index = Some (int ai),
       chunk = (case snd k of None \<Rightarrow> None | Some cs \<Rightarrow> if cs = [] then None else Some cs),
       rest = [] \<rparr>"

text \<open>
  The invariant of the \<^verbatim>\<open>forEach\<close> of \<^verbatim>\<open>prepareLyrics\<close>: the map sends each key to
  the slot that holds its line, every slot has a key, and no two keys share a slot.
\<close>

definition prep_inv :: "prep \<Rightarrow> bool" where
  "prep_inv st =
     ((\<forall>k ai. contentToApiIndexMap_of st k = Some ai \<longrightarrow>
          ai < length (lyricsForApi_of st) \<and> lyricsForApi_of st ! ai = api_line_of k ai)
      \<and> (\<forall>ai < length (lyricsForApi_of st). \<exists>k. contentToApiIndexMap_of st k = Some ai)
      \<and> (\<forall>k k' ai. contentToApiIndexMap_of st k = Some ai \<longrightarrow>
            contentToApiIndexMap_of st k' = Some ai \<longrightarrow> k = k'))"

text \<open>The plan entry of line \<open>l\<close> at index \<open>oi\<close>, given the final map \<open>m\<close>.\<close>

definition plan_entry :: "(jstring option \<Rightarrow> bool) \<Rightarrow> (content_key \<rightharpoonup> nat) \<Rightarrow> line \<Rightarrow> nat \<Rightarrow> plan_item" where
  "plan_entry f m l oi =
     (if f (line_text l) then Latin l oi
      else (case m (contentKey l) of None \<Rightarrow> Api 0 oi | Some ai \<Rightarrow> Api ai oi))"

text \<open>
  Concrete surroundings for the worked examples: a script test that accepts ASCII text, a
  normalisation that changes nothing with a crude distance (the longer length, for texts
  that differ, so that the percentage printed is always \<open>100.0\<close>), and an engine whose
  transformer answers attempt \<open>n\<close> with \<open>replies n\<close>.
\<close>

definition example_isLatin :: "jstring option \<Rightarrow> bool" where
  "example_isLatin t = (case t of None \<Rightarrow> True | Some s \<Rightarrow> list_all (\<lambda>u. u < 128) s)"

definition example_util :: utilities where
  "example_util = \<lparr> normalizeText = (\<lambda>s. s),
     levenshteinDistance = (\<lambda>a b. if a = b then 0 else max (length a) (length b)),
     percentage_toFixed = (\<lambda>distance maxLength. ''100.0'') \<rparr>"

definition plain_line :: "jstring \<Rightarrow> nat \<Rightarrow> line" where
  "plain_line s i = \<lparr> line_text = Some s, original_line_index = Some (int i), chunk = None, rest = [] \<rparr>"

definition example_engine :: "nat \<Rightarrow> (nat \<Rightarrow> js_error + string) \<Rightarrow> (string \<Rightarrow> string + response option) \<Rightarrow> engine" where
  "example_engine n replies parse =
     \<lparr> isPurelyLatinScript = example_isLatin, util = example_util, MAX_RETRIES = n,
       callGeminiAPI = (\<lambda>attempt contents sch. replies attempt), JSON_parse = parse,
       overrideGeminiRomanizePrompt = False, customGeminiRomanizePrompt = [] \<rparr>"

definition example_input :: "line list" where
  "example_input = [plain_line [108, 97] 0, plain_line [12354] 1]"

definition example_success :: engine where
  "example_success = example_engine 5 (\<lambda>a. Inr ''r'')
     (\<lambda>s. Inr (Some \<lparr> romanized_lyrics = Some [plain_line [97] 0], fixed_lines = None \<rparr>))"

text \<open>Four lines that are not Latin, the second and the fourth alike.\<close>

definition dedup_input :: "line list" where
  "dedup_input = [plain_line [12354] 0, plain_line [12356] 1, plain_line [12358] 2, plain_line [12356] 3]"

text \<open>A document of one Latin line that carries a chunk.\<close>

definition latin_chunked :: "line list" where
  "latin_chunked =
     [\<lparr> line_text = Some [108, 97], original_line_index = Some 0,
        chunk = Some [\<lparr> ctext = Text [108, 97], chunkIndex = Some 0 \<rparr>], rest = [] \<rparr>]"

text \<open>
  The contract of the \<open>Validate\<close> state, written from the specification. Text coherence
  (f): the concatenated chunk texts and the line text, both normalised, are equal or differ
  by at most 20 percent of the longer length.
\<close>

definition coherent :: "utilities \<Rightarrow> line \<Rightarrow> bool" where
  "coherent U romanizedLine =
     (let merged = normalizeText U (mergedChunkText (chunks_of romanizedLine));
          full = normalizeText U (case line_text romanizedLine of None \<Rightarrow> [] | Some s \<Rightarrow> s)
      in merged = full \<or>
         100 * levenshteinDistance U merged full \<le> 20 * max (length merged) (length full))"

text \<open>
  One response line against the input line at the same position: (b) the declared index is
  the position, (c) the text is a string, (d) a chunk array is present exactly when the
  input line has chunks, and for a line with chunks (e) the counts match, no chunk is empty
  (every chunk text is a string with a character that is not whitespace), the text is not
  concentrated in a single chunk when there is more than one, and (f) the text is coherent.
\<close>

definition line_contract :: "utilities \<Rightarrow> line \<Rightarrow> line \<Rightarrow> nat \<Rightarrow> bool" where
  "line_contract U originalLine romanizedLine position =
     (original_line_index romanizedLine = Some (int position)
      \<and> line_text romanizedLine \<noteq> None
      \<and> (has_chunks originalLine \<longleftrightarrow> chunk romanizedLine \<noteq> None)
      \<and> (has_chunks originalLine \<longrightarrow>
            length (chunks_of romanizedLine) = length (chunks_of originalLine)
            \<and> list_all (\<lambda>c. is_empty_chunk c = Some False) (chunks_of romanizedLine)
            \<and> \<not> (length (chunks_of romanizedLine) > 1
                  \<and> length (filter (\<lambda>c. is_empty_chunk c = Some False) (chunks_of romanizedLine)) = 1)
            \<and> coherent U romanizedLine))"

text \<open>(a) The array is present with as many lines as the structured input, and every
  line meets the line contract.\<close>

definition response_contract :: "utilities \<Rightarrow> line list \<Rightarrow> response option \<Rightarrow> bool" where
  "response_contract U input r =
     (case r of
        None \<Rightarrow> False
      | Some resp \<Rightarrow>
          (case romanized_lyrics resp of
             None \<Rightarrow> False
           | Some ls \<Rightarrow>
               length ls = length input
               \<and> (\<forall>i < length ls. line_contract U (input ! i) (ls ! i) i)))"

text \<open>A two-line input, the first line with two chunks; a reply that meets the contract,
  one whose second chunk is a single space, and one whose second chunk has the number 5 as
  its text.\<close>

definition chunked_input :: "line list" where
  "chunked_input =
     [\<lparr> line_text = Some [12354, 12356], original_line_index = Some 0,
        chunk = Some [\<lparr> ctext = Text [12354], chunkIndex = Some 0 \<rparr>,
                      \<lparr> ctext = Text [12356], chunkIndex = Some 1 \<rparr>], rest = [] \<rparr>,
      plain_line [12358] 1]"

definition chunked_reply :: response where
  "chunked_reply =
     \<lparr> romanized_lyrics = Some
         [\<lparr> line_text = Some [97, 105], original_line_index = Some 0,
            chunk = Some [\<lparr> ctext = Text [97], chunkIndex = Some 0 \<rparr>,
                          \<lparr> ctext = Text [105], chunkIndex = Some 1 \<rparr>], rest = [] \<rparr>,
          plain_line [117] 1],
       fixed_lines = None \<rparr>"

definition blank_chunk_reply :: response where
  "blank_chunk_reply =
     \<lparr> romanized_lyrics = Some
         [\<lparr> line_text = Some [97, 105], original_line_index = Some 0,
            chunk = Some [\<lparr> ctext = Text [97, 105], chunkIndex = Some 0 \<rparr>,
                          \<lparr> ctext = Text [32], chunkIndex = Some 1 \<rparr>], rest = [] \<rparr>,
          plain_line [117] 1],
       fixed_lines = None \<rparr>"

definition odd_chunk_reply :: response where
  "odd_chunk_reply =
     \<lparr> romanized_lyrics = Some
         [\<lparr> line_text = Some [97, 105], original_line_index = Some 0,
            chunk = Some [\<lparr> ctext = Text [97, 105], chunkIndex = Some 0 \<rparr>,
                          \<lparr> ctext = Other [53], chunkIndex = Some 1 \<rparr>], rest = [] \<rparr>,
          plain_line [117] 1],
       fixed_lines = None \<rparr>"

text \<open>An index that selects no element of an array of the given length.\<close>

definition out_of_bounds :: "nat \<Rightarrow> line \<Rightarrow> bool" where
  "out_of_bounds n f =
     (case original_line_index f of None \<Rightarrow> True | Some k \<Rightarrow> k < 0 \<or> int n \<le> k)"

text \<open>
  A repair scenario: two lines to romanize; a first reply whose second line declares index
  5; a selective reply that fixes line 1 and also names line 7, which does not exist. And a
  transformer whose every reply lacks the \<open>romanized_lyrics\<close> array.
\<close>

definition fix_api :: "line list" where
  "fix_api = [plain_line [12354] 0, plain_line [12356] 1]"

definition first_reply :: response where
  "first_reply = \<lparr> romanized_lyrics = Some [plain_line [97] 0, plain_line [105] 5], fixed_lines = None \<rparr>"

definition fix_reply :: response where
  "fix_reply = \<lparr> romanized_lyrics = None, fixed_lines = Some [plain_line [105] 1, plain_line [120] 7] \<rparr>"

definition fixing_engine :: engine where
  "fixing_engine = example_engine 5
     (\<lambda>attempt. if attempt = 1 then Inr ''first'' else Inr ''fix'')
     (\<lambda>s. if s = ''first'' then Inr (Some first_reply) else Inr (Some fix_reply))"

definition no_array :: response where
  "no_array = \<lparr> romanized_lyrics = None, fixed_lines = None \<rparr>"

definition no_array_engine :: engine where
  "no_array_engine = example_engine 2 (\<lambda>attempt. Inr ''r'') (\<lambda>s. Inr (Some no_array))"

text \<open>The first validation error an attempt reports, when its reply parses and fails
  validation.\<close>

definition attempt_error ::
  "engine \<Rightarrow> line list \<Rightarrow> bool \<Rightarrow> nat \<Rightarrow> conversation \<Rightarrow> validation_error option" where
  "attempt_error E lyricsForApi hasAnyChunks attempt c =
     (case attempt_response E hasAnyChunks attempt c of
        Inl e \<Rightarrow> None
      | Inr (responseText, parsedJson, finalResponse) \<Rightarrow>
          (case validate (util E) lyricsForApi finalResponse of
             None \<Rightarrow> None
           | Some validationResult \<Rightarrow>
               if isValid validationResult then None
               else (case errors validationResult of [] \<Rightarrow> None | e # es \<Rightarrow> Some e)))"

text \<open>The conversation after a reset.\<close>

definition fresh_conversation :: "prompt \<Rightarrow> error_ref \<Rightarrow> conversation" where
  "fresh_conversation initialPrompt err =
     \<lparr> currentContents = [User initialPrompt], lastValidResponse = None,
       sameErrorCount = 0, lastError = err \<rparr>"

text \<open>Transformers that keep failing the same way: from the first attempt on, and after two
  failed calls.\<close>

definition repeat_engine :: engine where
  "repeat_engine = example_engine 5 (\<lambda>attempt. Inr ''r'') (\<lambda>s. Inr (Some no_array))"

definition late_engine :: engine where
  "late_engine = example_engine 5
     (\<lambda>attempt. if attempt < 3 then Inl (ApiError ''unavailable'') else Inr ''r'')
     (\<lambda>s. Inr (Some no_array))"

definition fix_prompt :: prompt where
  "fix_prompt = RomanizationPrompt fix_api False"

definition retry_turns :: "turn list" where
  "retry_turns = [Model ''r'', User (FullRetryPrompt fix_api False)]"

text \<open>
  The value \<open>sameErrorCount\<close> takes on lines 77 to 82 when the attempt reports
  \<open>currentError\<close>.
\<close>

definition repeat_count :: "conversation \<Rightarrow> error_ref \<Rightarrow> nat" where
  "repeat_count c currentError = (if currentError = lastError c then sameErrorCount c + 1 else 1)"

text \<open>
  The state of the loop along a run. \<open>conversation_after \<dots> attempt c n\<close> is the
  conversation \<open>n\<close> iterations after the loop stood before attempt \<open>attempt\<close> with the
  variables \<open>c\<close>, if the loop gets that far: an iteration runs when the loop condition
  holds and goes on to the next when its body neither returns nor throws.
  \<open>conversation_before \<dots> attempt\<close> is the conversation with which attempt number
  \<open>attempt\<close> of \<^verbatim>\<open>romanize\<close> starts: the loop starts at attempt 1 with the initial
  prompt, no stored response, the counter at zero and \<open>lastError\<close> \<^verbatim>\<open>null\<close>.
\<close>

fun conversation_after ::
  "engine \<Rightarrow> line list \<Rightarrow> plan_item list \<Rightarrow> bool \<Rightarrow> prompt \<Rightarrow> nat \<Rightarrow> conversation \<Rightarrow> nat \<Rightarrow>
   conversation option" where
  "conversation_after E api plan h ip attempt c 0 = Some c"
| "conversation_after E api plan h ip attempt c (Suc n) =
     (if attempt \<le> MAX_RETRIES E
      then (case attempt_body E api plan h ip attempt c of
              Continue c' \<Rightarrow> conversation_after E api plan h ip (Suc attempt) c' n
            | Return out \<Rightarrow> None
            | Throw e \<Rightarrow> None)
      else None)"

definition conversation_before ::
  "engine \<Rightarrow> line list \<Rightarrow> plan_item list \<Rightarrow> bool \<Rightarrow> prompt \<Rightarrow> nat \<Rightarrow> conversation option" where
  "conversation_before E api plan h ip attempt =
     (if attempt = 0 then None
      else conversation_after E api plan h ip 1 (fresh_conversation ip Null) (attempt - 1))"

text \<open>The entry a selective-fix prompt lists for a flagged line (lines 287 to 292).\<close>

definition fix_entry_of :: "validation_result \<Rightarrow> line \<Rightarrow> fix_entry" where
  "fix_entry_of vr l =
     \<lparr> fe_original_line_index = original_line_index l, fe_original_text = line_text l,
       fe_had_chunks = has_chunks l,
       fe_errors = find_errors (detailedErrors vr) (original_line_index l) \<rparr>"

text \<open>
  The conversation of the repair scenario after its first attempt and the validation
  results of its first reply and of a reply without the array; the conversation after \<open>n\<close>
  reports of the missing array.
\<close>

definition first_result :: validation_result where
  "first_result =
     \<lparr> isValid = False, errors = [IncorrectIndex 1 (Some 5)],
       detailedErrors = [(1, [IncorrectIndex 1 (Some 5)])] \<rparr>"

definition after_first :: conversation where
  "after_first =
     \<lparr> currentContents =
         [User fix_prompt, Model ''first'',
          User (SelectiveFixPrompt
                  [\<lparr> fe_original_line_index = Some 1, fe_original_text = Some [12356],
                     fe_had_chunks = False, fe_errors = [IncorrectIndex 1 (Some 5)] \<rparr>] False)],
       lastValidResponse = Some first_reply, sameErrorCount = 1,
       lastError = Message (IncorrectIndex 1 (Some 5)) \<rparr>"

definition no_array_result :: validation_result where
  "no_array_result = \<lparr> isValid = False, errors = [TopLevelMissing], detailedErrors = [] \<rparr>"

definition repeated :: "nat \<Rightarrow> turn list \<Rightarrow> response option \<Rightarrow> conversation" where
  "repeated n turns stored =
     \<lparr> currentContents = User fix_prompt # turns, lastValidResponse = stored,
       sameErrorCount = n, lastError = Message TopLevelMissing \<rparr>"

text \<open>
  A scenario in which a fix is lost: three lines; a first reply whose second and third
  line declare the indices 5 and 6; a selective reply that fixes the second line, then one
  that fixes the third. \<open>lost_second\<close> and \<open>lost_third\<close> are the conversations with which
  the second and the third attempt start.
\<close>

definition lost_api :: "line list" where
  "lost_api = [plain_line [12354] 0, plain_line [12356] 1, plain_line [12358] 2]"

definition lost_first :: response where
  "lost_first =
     \<lparr> romanized_lyrics = Some [plain_line [97] 0, plain_line [105] 5, plain_line [117] 6],
       fixed_lines = None \<rparr>"

definition lost_fix_1 :: response where
  "lost_fix_1 = \<lparr> romanized_lyrics = None, fixed_lines = Some [plain_line [105] 1] \<rparr>"

definition lost_fix_2 :: response where
  "lost_fix_2 = \<lparr> romanized_lyrics = None, fixed_lines = Some [plain_line [117] 2] \<rparr>"

definition lost_engine :: engine where
  "lost_engine = example_engine 3
     (\<lambda>attempt. if attempt = 1 then Inr ''first'' else if attempt = 2 then Inr ''one'' else Inr ''two'')
     (\<lambda>s. if s = ''first'' then Inr (Some lost_first)
          else if s = ''one'' then Inr (Some lost_fix_1) else Inr (Some lost_fix_2))"

definition lost_prompt :: prompt where
  "lost_prompt = RomanizationPrompt lost_api False"

definition lost_entry :: "nat \<Rightarrow> nat \<Rightarrow> int \<Rightarrow> fix_entry" where
  "lost_entry i u got =
     \<lparr> fe_original_line_index = Some (int i), fe_original_text = Some [u], fe_had_chunks = False,
       fe_errors = [IncorrectIndex i (Some got)] \<rparr>"

definition lost_second :: conversation where
  "lost_second =
     \<lparr> currentContents =
         [User lost_prompt, Model ''first'',
          User (SelectiveFixPrompt [lost_entry 1 12356 5, lost_entry 2 12358 6] False)],
       lastValidResponse = Some lost_first, sameErrorCount = 1,
       lastError = Message (IncorrectIndex 1 (Some 5)) \<rparr>"

definition lost_third :: conversation where
  "lost_third =
     \<lparr> currentContents =
         [User lost_prompt, Model ''first'',
          User (SelectiveFixPrompt [lost_entry 1 12356 5, lost_entry 2 12358 6] False),
          Model ''one'', User (SelectiveFixPrompt [lost_entry 2 12358 6] False)],
       lastValidResponse = Some lost_first, sameErrorCount = 1,
       lastError = Message (IncorrectIndex 2 (Some 6)) \<rparr>"

text \<open>
  Concrete surroundings for the services: a one-line lyrics document, settings and
  collaborators with a given cache strategy and clock reading (expiry 1000 for
  \<open>aggressive\<close>, 100 for \<open>moderate\<close>), and worlds that hold nothing, a lyrics record
  stored at a given time, a translation of version 1 in the memory cache, and the same
  translation in the persistent cache. \<open>untitled\<close> is a song without a title.
\<close>

definition example_lyrics :: lyrics_data where
  "example_lyrics =
     \<lparr> data = [\<lparr> ll_text = [12354], translatedText = None, romanizedText = None \<rparr>],
       fetchedAt = None, translationMeta = None \<rparr>"

definition example_services :: "string \<Rightarrow> int \<Rightarrow> services" where
  "example_services strategy now =
     \<lparr> cacheStrategy = strategy, lyricsProvider = ''kpoe'', customKpoeUrl = [],
       CACHE_EXPIRY = [''aggressive'' \<mapsto> 1000, ''moderate'' \<mapsto> 100],
       PROVIDERS_values = [''kpoe'', ''customKpoe'', ''lrclib'', ''local'', ''gemini'', ''google''],
       KPOE = ''kpoe'', CUSTOM_KPOE = ''customKpoe'', LRCLIB = ''lrclib'', LOCAL = ''local'',
       GOOGLE = ''google'', GEMINI = ''gemini'',
       Date_now = now,
       isEmptyLyrics = (\<lambda>l. case l of None \<Rightarrow> True | Some d \<Rightarrow> data d = []),
       parseKPoeFormat = (\<lambda>raw. example_lyrics),
       KPoeService_fetch = (\<lambda>si force noStore. Inr (Some example_lyrics)),
       KPoeService_fetchCustom = (\<lambda>si url force noStore. Inr None),
       LRCLibService_fetch = (\<lambda>si noStore. Inr None),
       YouTubeService_fetchSubtitles = (\<lambda>si. Inr None),
       overrideTranslateTarget = False, customTranslateTarget = [],
       normalizeLanguageCode = (\<lambda>lang. lang),
       performTranslation = (\<lambda>l action lang. Inr (None, None)) \<rparr>"

definition empty_world :: world where
  "empty_world =
     \<lparr> cache = Map.empty, ongoingFetches = Map.empty, handles = 0, lyricsDB = Map.empty,
       translationsDB = Map.empty, localLyricsDB = [] \<rparr>"

definition stored_record :: "int \<Rightarrow> lyrics_record" where
  "stored_record stamp =
     \<lparr> lr_lyrics = example_lyrics, lr_version = VNum stamp, lr_timestamp = stamp,
       lr_duration = None \<rparr>"

definition stored_world :: "int \<Rightarrow> world" where
  "stored_world stamp = empty_world\<lparr> lyricsDB := [''song'' \<mapsto> stored_record stamp] \<rparr>"

definition stale_entry :: cache_entry where
  "stale_entry = translation_entry example_lyrics (Some (VNum 1))"

definition stale_world :: world where
  "stale_world = empty_world\<lparr> cache := [''song - translate - en'' \<mapsto> stale_entry] \<rparr>"

definition stale_record :: translation_record where
  "stale_record = \<lparr> tr_translatedLyrics = example_lyrics, tr_originalVersion = Some (VNum 1) \<rparr>"

definition stale_db_world :: world where
  "stale_db_world =
     empty_world\<lparr> translationsDB := [''song - translate - en'' \<mapsto> stale_record] \<rparr>"

definition untitled :: song_info where
  "untitled = \<lparr> title = Some [], artist = Some ''artist'', album = None, duration = None,
                 songId = None, videoId = None, subtitle = False \<rparr>"

text \<open>A song with a title and an artist.\<close>

definition titled :: song_info where
  "titled = \<lparr> title = Some ''song'', artist = Some ''artist'', album = None, duration = None,
                 songId = None, videoId = None, subtitle = False \<rparr>"

text \<open>The handles of the fetches under way, call by call.\<close>

fun fetching :: "phase \<Rightarrow> nat list" where
  "fetching (Fetching h) = [h]"
| "fetching ph = []"

definition in_flight :: "system \<Rightarrow> nat list" where
  "in_flight sys = concat (map fetching (calls sys))"

text \<open>
  The invariant of overlapping calls for the song of key \<open>key\<close>: no two calls are fetching;
  the registry holds handle \<open>h\<close> under the key exactly when a call is fetching behind \<open>h\<close>;
  a registered handle has been given out and has not settled; a settled handle has been
  given out; a waiting call waits for the registered handle or for a settled one.
\<close>

definition single_flight :: "string \<Rightarrow> system \<Rightarrow> bool" where
  "single_flight key sys =
     ((\<forall>i < length (calls sys). \<forall>j < length (calls sys). \<forall>h h'.
          calls sys ! i = Fetching h \<and> calls sys ! j = Fetching h' \<longrightarrow> i = j)
      \<and> (\<forall>h. ongoingFetches (shared sys) key = Some h
               \<longleftrightarrow> (\<exists>i < length (calls sys). calls sys ! i = Fetching h))
      \<and> (\<forall>h. ongoingFetches (shared sys) key = Some h
               \<longrightarrow> h < handles (shared sys) \<and> promises sys h = None)
      \<and> (\<forall>p. promises sys p \<noteq> None \<longrightarrow> p < handles (shared sys))
      \<and> (\<forall>i < length (calls sys). \<forall>p. calls sys ! i = Waiting p
               \<longrightarrow> ongoingFetches (shared sys) key = Some p \<or> promises sys p \<noteq> None))"

text \<open>Call \<open>j\<close> took from the registry the promise \<open>h\<close> of the fetch of call \<open>i\<close>: either
  the fetch is still under way and \<open>j\<close> waits, or the fetch has settled with \<open>r\<close>, and \<open>j\<close>
  still waits or has finished with \<open>r\<close> as well.\<close>

definition coalesced :: "nat \<Rightarrow> nat \<Rightarrow> nat \<Rightarrow> system \<Rightarrow> bool" where
  "coalesced i j h sys =
     (i < length (calls sys) \<and> j < length (calls sys) \<and>
      ((calls sys ! i = Fetching h \<and> calls sys ! j = Waiting h \<and> promises sys h = None)
       \<or> (\<exists>r. calls sys ! i = Finished r \<and> promises sys h = Some r
              \<and> (calls sys ! j = Waiting h \<or> calls sys ! j = Finished r))))"

text \<open>Two overlapping calls for \<open>titled\<close> on an empty state, after the given schedule, and
  the result of a fetch at clock reading 5000.\<close>

definition two_calls :: "nat list \<Rightarrow> system" where
  "two_calls schedule = run (example_services ''aggressive'' 5000) titled schedule (start empty_world 2)"

definition fetched :: "cache_entry outcome" where
  "fetched = Resolved (lyrics_entry (example_lyrics\<lparr> fetchedAt := Some 5000 \<rparr>) (VNum 5000))"


text \<open>The defining equations, collected for evaluating the model on concrete inputs.\<close>

lemmas romanizer_defs =
  romanize_def prepareLyrics_def prep_init_def prepare_line_def contentKey_def has_chunks_def
  reconstructLyrics_def js_assign_def api_result_def empty_line_def
  validate_def validate_line_def validateChunkDistribution_def validateTextCoherence_def
  chunks_of_def is_empty_chunk_def is_nonempty_chunk_def js_trim_def js_whitespace_def
  mergedChunkText_def
  attempt_body_def attempt_response_def isSelectiveFix_def request_schema_def
  catch_attempt_def after_failure_def first_error_def getProblematicLines_def line_issues_def
  set_add_def createCorrectionPrompt_def createSelectiveFixPrompt_def createFullRetryPrompt_def
  mergeSelectiveFixes_def apply_fix_def createInitialPrompt_def romanize_loop.simps Let_def

lemmas example_defs =
  example_isLatin_def example_util_def plain_line_def example_engine_def example_input_def
  example_success_def dedup_input_def latin_chunked_def chunked_input_def chunked_reply_def
  blank_chunk_reply_def odd_chunk_reply_def

lemmas fix_defs = fix_api_def first_reply_def fix_reply_def fixing_engine_def no_array_def
  no_array_engine_def

lemmas repeat_defs = repeat_engine_def late_engine_def fix_prompt_def retry_turns_def
  fresh_conversation_def attempt_error_def

lemmas loop_defs =
  conversation_before_def fresh_conversation_def repeat_count_def
  lost_api_def lost_first_def lost_fix_1_def lost_fix_2_def lost_engine_def first_result_def
  after_first_def no_array_result_def lost_prompt_def lost_entry_def lost_second_def
  lost_third_def fix_entry_of_def repeated_def numeral_2_eq_2 numeral_3_eq_3

lemmas service_defs =
  example_lyrics_def example_services_def empty_world_def stored_world_def stored_record_def
  stale_world_def stale_entry_def stale_record_def stale_db_world_def untitled_def
  getFromDB_def expiry_strategy_def lyrics_entry_def translation_entry_def
  TranslationService_getCached_def annotateCacheHit_def setCached_def empty_meta_def
  LyricsService_getOrFetch_def validateSongInfo_def falsy_def or_empty_def
  LyricsService_createCacheKey_def TranslationService_createCacheKey_def
  TranslationService_getOrFetch_def Let_def

lemmas flight_defs =
  two_calls_def fetched_def run_def start_def advance_def titled_def in_flight_def
  checkLocalLyrics_def local_get_def fetchNewLyrics_def fetch_body_def getProviderOrder_def
  fetchFromProvider_def setOngoingFetch_def deleteOngoingFetch_def numeral_2_eq_2


section \<open>Preparation and reconstruction\<close>

lemma js_assign_end: "js_assign xs (length xs) v = xs @ [Some v]"
  by (simp add: js_assign_def)

lemma upt_step: "[n ..< n + Suc k] = n # [Suc n ..< Suc n + k]"
  by (simp add: upt_conv_Cons del: upt_Suc)

lemma prepare_line_plan:
  "\<exists>p. reconstructionPlan_of (prepare_line f l oi st) = reconstructionPlan_of st @ [p] \<and> originalIndex p = oi"
  by (auto simp: prepare_line_def Let_def split: option.splits)

lemma prepare_each_indices:
  "map originalIndex (reconstructionPlan_of (prepare_each f ls oi st)) =
     map originalIndex (reconstructionPlan_of st) @ [oi ..< oi + length ls]"
proof (induction ls arbitrary: oi st)
  case Nil
  then show ?case by simp
next
  case (Cons l ls)
  obtain p where p: "reconstructionPlan_of (prepare_line f l oi st) = reconstructionPlan_of st @ [p]"
    "originalIndex p = oi"
    using prepare_line_plan by blast
  show ?case
    using upt_step [of oi "length ls"] by (simp add: Cons.IH p del: upt_Suc)
qed

lemma reconstruct_each_dense:
  "map originalIndex ps = [length fl ..< length fl + length ps] \<Longrightarrow>
   reconstruct_each r h ps fl = fl @ map (\<lambda>p. Some (reconstruct_item r h p)) ps"
proof (induction ps arbitrary: fl)
  case Nil
  then show ?case by simp
next
  case (Cons p ps)
  from Cons.prems have hd: "originalIndex p = length fl"
    and tl: "map originalIndex ps = [Suc (length fl) ..< Suc (length fl) + length ps]"
    using upt_step [of "length fl" "length ps"] by (simp_all del: upt_Suc)
  have "reconstruct_each r h ps (fl @ [Some (reconstruct_item r h p)]) =
        (fl @ [Some (reconstruct_item r h p)]) @ map (\<lambda>p. Some (reconstruct_item r h p)) ps"
    by (rule Cons.IH) (simp add: tl)
  then show ?case by (simp add: hd js_assign_end)
qed

lemma prep_inv_bound:
  "prep_inv st \<Longrightarrow> contentToApiIndexMap_of st k = Some ai \<Longrightarrow> ai < length (lyricsForApi_of st)"
  unfolding prep_inv_def by blast

lemma prep_inv_line:
  "prep_inv st \<Longrightarrow> contentToApiIndexMap_of st k = Some ai \<Longrightarrow>
   lyricsForApi_of st ! ai = api_line_of k ai"
  unfolding prep_inv_def by blast

lemma prep_inv_onto:
  "prep_inv st \<Longrightarrow> ai < length (lyricsForApi_of st) \<Longrightarrow>
   \<exists>k. contentToApiIndexMap_of st k = Some ai"
  unfolding prep_inv_def by blast

lemma prep_inv_inj:
  "prep_inv st \<Longrightarrow> contentToApiIndexMap_of st k = Some ai \<Longrightarrow>
   contentToApiIndexMap_of st k' = Some ai \<Longrightarrow> k = k'"
  unfolding prep_inv_def by blast

lemma prep_inv_init: "prep_inv prep_init"
  by (simp add: prep_inv_def prep_init_def)

lemma prepare_line_step:
  assumes "prep_inv st"
  shows "prep_inv (prepare_line f l oi st)"
    and "contentToApiIndexMap_of st \<subseteq>\<^sub>m contentToApiIndexMap_of (prepare_line f l oi st)"
    and "dom (contentToApiIndexMap_of (prepare_line f l oi st)) =
           dom (contentToApiIndexMap_of st) \<union> (if f (line_text l) then {} else {contentKey l})"
    and "reconstructionPlan_of (prepare_line f l oi st) =
           reconstructionPlan_of st @ [plan_entry f (contentToApiIndexMap_of (prepare_line f l oi st)) l oi]"
proof -
  show "prep_inv (prepare_line f l oi st)"
  proof (cases "f (line_text l)")
    case True
    with assms show ?thesis by (simp add: prepare_line_def prep_inv_def)
  next
    case False
    show ?thesis
    proof (cases "contentToApiIndexMap_of st (contentKey l)")
      case (Some ai)
      with False assms show ?thesis by (simp add: prepare_line_def prep_inv_def)
    next
      case None
      have fresh: "\<And>k ai. contentToApiIndexMap_of st k = Some ai \<Longrightarrow> ai < length (lyricsForApi_of st)"
        using assms by (rule prep_inv_bound)
      have new: "\<lparr> line_text = line_text l, original_line_index = Some (int (length (lyricsForApi_of st))),
                    chunk = (if has_chunks l then chunk l else None), rest = [] \<rparr>
                 = api_line_of (contentKey l) (length (lyricsForApi_of st))"
        by (auto simp: api_line_of_def contentKey_def has_chunks_def split: option.splits)
      have p1: "ai < length (lyricsForApi_of (prepare_line f l oi st)) \<and>
              lyricsForApi_of (prepare_line f l oi st) ! ai = api_line_of k ai"
        if h: "contentToApiIndexMap_of (prepare_line f l oi st) k = Some ai" for k ai
        proof (cases "k = contentKey l")
          case True
          with h False None new show ?thesis
            by (auto simp: prepare_line_def Let_def nth_append)
        next
          case neq: False
          with h False None have old: "contentToApiIndexMap_of st k = Some ai"
            by (simp add: prepare_line_def Let_def)
          with assms have "ai < length (lyricsForApi_of st)"
            "lyricsForApi_of st ! ai = api_line_of k ai"
            by (simp_all add: prep_inv_bound prep_inv_line)
          with False None show ?thesis
            by (simp add: prepare_line_def Let_def nth_append)
        qed
      have p2: "\<exists>k. contentToApiIndexMap_of (prepare_line f l oi st) k = Some ai"
        if "ai < length (lyricsForApi_of (prepare_line f l oi st))" for ai
      proof -
        from that False None have "ai < length (lyricsForApi_of st) \<or> ai = length (lyricsForApi_of st)"
          by (auto simp: prepare_line_def Let_def)
        then show ?thesis
        proof
          assume lt: "ai < length (lyricsForApi_of st)"
          with assms obtain k where k: "contentToApiIndexMap_of st k = Some ai"
            using prep_inv_onto by blast
          with None have "k \<noteq> contentKey l" by auto
          with k False None show ?thesis
            by (intro exI [of _ k]) (simp add: prepare_line_def Let_def)
        next
          assume "ai = length (lyricsForApi_of st)"
          with False None show ?thesis
            by (intro exI [of _ "contentKey l"]) (simp add: prepare_line_def Let_def)
        qed
      qed
      have p3: "k = k'"
        if a: "contentToApiIndexMap_of (prepare_line f l oi st) k = Some ai"
          and b: "contentToApiIndexMap_of (prepare_line f l oi st) k' = Some ai" for k k' ai
      proof -
        have m: "contentToApiIndexMap_of (prepare_line f l oi st) =
                 (contentToApiIndexMap_of st)(contentKey l \<mapsto> length (lyricsForApi_of st))"
          using False None by (simp add: prepare_line_def Let_def)
        have inj: "\<And>k k' ai. contentToApiIndexMap_of st k = Some ai \<Longrightarrow>
                     contentToApiIndexMap_of st k' = Some ai \<Longrightarrow> k = k'"
          using assms by (rule prep_inv_inj)
        show "k = k'"
          using a b fresh [of k ai] fresh [of k' ai] inj [of k ai k'] unfolding m
          by (auto split: if_splits)
      qed
      show ?thesis
        unfolding prep_inv_def using p1 p2 p3 by blast
    qed
  qed
next
  show "contentToApiIndexMap_of st \<subseteq>\<^sub>m contentToApiIndexMap_of (prepare_line f l oi st)"
    by (auto simp: prepare_line_def Let_def map_le_def split: option.splits)
next
  show "dom (contentToApiIndexMap_of (prepare_line f l oi st)) =
           dom (contentToApiIndexMap_of st) \<union> (if f (line_text l) then {} else {contentKey l})"
    by (auto simp: prepare_line_def Let_def split: option.splits)
next
  show "reconstructionPlan_of (prepare_line f l oi st) =
           reconstructionPlan_of st @ [plan_entry f (contentToApiIndexMap_of (prepare_line f l oi st)) l oi]"
    by (auto simp: prepare_line_def Let_def plan_entry_def split: option.splits)
qed

lemma plan_entry_mono:
  "m \<subseteq>\<^sub>m m' \<Longrightarrow> f (line_text l) \<or> contentKey l \<in> dom m \<Longrightarrow>
   plan_entry f m l oi = plan_entry f m' l oi"
proof (cases "f (line_text l)")
  case True
  then show ?thesis by (simp add: plan_entry_def)
next
  case False
  assume le: "m \<subseteq>\<^sub>m m'" and "f (line_text l) \<or> contentKey l \<in> dom m"
  with False have "contentKey l \<in> dom m" by simp
  with le have "m' (contentKey l) = m (contentKey l)"
    by (simp add: map_le_def)
  then show ?thesis by (simp add: plan_entry_def)
qed

lemma prepare_each_spec:
  "prep_inv st \<Longrightarrow>
   prep_inv (prepare_each f ls oi st) \<and>
   contentToApiIndexMap_of st \<subseteq>\<^sub>m contentToApiIndexMap_of (prepare_each f ls oi st) \<and>
   dom (contentToApiIndexMap_of (prepare_each f ls oi st)) =
     dom (contentToApiIndexMap_of st) \<union> contentKey ` {l \<in> set ls. \<not> f (line_text l)} \<and>
   reconstructionPlan_of (prepare_each f ls oi st) =
     reconstructionPlan_of st @
     map (\<lambda>(l, i). plan_entry f (contentToApiIndexMap_of (prepare_each f ls oi st)) l i)
       (zip ls [oi ..< oi + length ls])"
proof (induction ls arbitrary: oi st)
  case Nil
  then show ?case by simp
next
  case (Cons l ls)
  let ?st1 = "prepare_line f l oi st"
  let ?fin = "prepare_each f ls (Suc oi) ?st1"
  note s1 = prepare_line_step [OF Cons.prems, of f l oi]
  note ih = Cons.IH [OF s1(1), of "Suc oi"]
  have le: "contentToApiIndexMap_of ?st1 \<subseteq>\<^sub>m contentToApiIndexMap_of ?fin"
    using ih by blast
  have key: "f (line_text l) \<or> contentKey l \<in> dom (contentToApiIndexMap_of ?st1)"
    using s1(3) by auto
  have entry: "plan_entry f (contentToApiIndexMap_of ?st1) l oi =
               plan_entry f (contentToApiIndexMap_of ?fin) l oi"
    using le key by (rule plan_entry_mono)
  have a: "prep_inv (prepare_each f (l # ls) oi st)"
    using ih by simp
  have b: "contentToApiIndexMap_of st \<subseteq>\<^sub>m contentToApiIndexMap_of (prepare_each f (l # ls) oi st)"
    using s1(2) le by (auto intro: map_le_trans)
  have c: "dom (contentToApiIndexMap_of (prepare_each f (l # ls) oi st)) =
     dom (contentToApiIndexMap_of st) \<union> contentKey ` {x \<in> set (l # ls). \<not> f (line_text x)}"
    using ih s1(3) by auto
  have d: "reconstructionPlan_of (prepare_each f (l # ls) oi st) =
     reconstructionPlan_of st @
     map (\<lambda>(l', i). plan_entry f (contentToApiIndexMap_of (prepare_each f (l # ls) oi st)) l' i)
       (zip (l # ls) [oi ..< oi + length (l # ls)])"
    using ih s1(4) entry upt_step [of oi "length ls"] by (simp del: upt_Suc)
  from a b c d show ?case by blast
qed

lemma prep_inv_card:
  assumes "prep_inv st"
  shows "card (dom (contentToApiIndexMap_of st)) = length (lyricsForApi_of st)"
proof -
  let ?m = "contentToApiIndexMap_of st"
  have "bij_betw (\<lambda>k. the (?m k)) (dom ?m) {..< length (lyricsForApi_of st)}"
    unfolding bij_betw_def
  proof
    show "inj_on (\<lambda>k. the (?m k)) (dom ?m)"
      using prep_inv_inj [OF assms] by (auto simp: inj_on_def)
    show "(\<lambda>k. the (?m k)) ` dom ?m = {..< length (lyricsForApi_of st)}"
    proof (intro set_eqI iffI)
      fix ai assume "ai \<in> (\<lambda>k. the (?m k)) ` dom ?m"
      then show "ai \<in> {..< length (lyricsForApi_of st)}"
        using prep_inv_bound [OF assms] by auto
    next
      fix ai assume "ai \<in> {..< length (lyricsForApi_of st)}"
      then have "ai < length (lyricsForApi_of st)" by simp
      then obtain k where "?m k = Some ai"
        using prep_inv_onto [OF assms] by blast
      then show "ai \<in> (\<lambda>k. the (?m k)) ` dom ?m"
        by force
    qed
  qed
  then show ?thesis
    using bij_betw_same_card by fastforce
qed


lemma prepareLyrics_indices:
  "map originalIndex (snd (prepareLyrics f input)) = [0 ..< length input]"
  using prepare_each_indices [of f input 0 prep_init]
  by (simp add: prepareLyrics_def Let_def prep_init_def)

lemma reconstructLyrics_prepared:
  "reconstructLyrics r (snd (prepareLyrics f input)) h =
     map (\<lambda>p. Some (reconstruct_item r h p)) (snd (prepareLyrics f input))"
proof -
  have "length (snd (prepareLyrics f input)) = length input"
    using prepareLyrics_indices [of f input] by (metis length_map length_upt diff_zero)
  then show ?thesis
    unfolding reconstructLyrics_def
    using reconstruct_each_dense [of "snd (prepareLyrics f input)" "[]" r h]
      prepareLyrics_indices [of f input]
    by simp
qed





declare romanize_loop.simps [simp del]





lemma prepareLyrics_inj:
  assumes "prepareLyrics f input = (api, plan)"
  shows "\<exists>m. plan = map (\<lambda>(l, i). plan_entry f m l i) (zip input [0 ..< length input])
           \<and> dom m = contentKey ` {l \<in> set input. \<not> f (line_text l)}
           \<and> (\<forall>k ai. m k = Some ai \<longrightarrow> ai < length api)
           \<and> (\<forall>k k' ai. m k = Some ai \<longrightarrow> m k' = Some ai \<longrightarrow> k = k')
           \<and> card (dom m) = length api"
proof -
  let ?fin = "prepare_each f input 0 prep_init"
  note sp = prepare_each_spec [OF prep_inv_init, of f input 0]
  have api: "api = lyricsForApi_of ?fin" and plan: "plan = reconstructionPlan_of ?fin"
    using assms by (simp_all add: prepareLyrics_def Let_def)
  have inv: "prep_inv ?fin" using sp by blast
  have 1: "plan = map (\<lambda>(l, i). plan_entry f (contentToApiIndexMap_of ?fin) l i)
                    (zip input [0 ..< length input])"
    using sp by (simp add: plan prep_init_def)
  have 2: "dom (contentToApiIndexMap_of ?fin) = contentKey ` {l \<in> set input. \<not> f (line_text l)}"
    using sp by (simp add: prep_init_def)
  have 3: "\<forall>k ai. contentToApiIndexMap_of ?fin k = Some ai \<longrightarrow> ai < length api"
    using prep_inv_bound [OF inv] unfolding api by blast
  have 4: "\<forall>k k' ai. contentToApiIndexMap_of ?fin k = Some ai \<longrightarrow>
             contentToApiIndexMap_of ?fin k' = Some ai \<longrightarrow> k = k'"
    using prep_inv_inj [OF inv] by blast
  have 5: "card (dom (contentToApiIndexMap_of ?fin)) = length api"
    using prep_inv_card [OF inv] by (simp add: api)
  from 1 2 3 4 5 show ?thesis by blast
qed

text \<open>
  Claim C8. The deduplicated input has one slot per distinct content key among the lines
  that are not Latin. Two such lines get the same slot exactly when their keys (text and
  chunk structure) agree, and reconstruction emits at each of their indices the response
  line of that slot, re-tagged with the original index: lines that share a slot receive
  identical romanized content. In the example of four lines with the second and fourth
  alike, the structured input has three entries.
\<close>

theorem dedup_slots:
  assumes "prepareLyrics f input = (api, plan)"
  shows "length api = card (contentKey ` {l \<in> set input. \<not> f (line_text l)}) \<and>
     (\<forall>i < length input. \<forall>j < length input.
        \<not> f (line_text (input ! i)) \<and> \<not> f (line_text (input ! j)) \<longrightarrow>
        (\<exists>ai < length api. \<exists>aj < length api.
           plan ! i = Api ai i \<and> plan ! j = Api aj j \<and>
           (ai = aj \<longleftrightarrow> contentKey (input ! i) = contentKey (input ! j)) \<and>
           (\<forall>r h. reconstructLyrics r plan h ! i
                      = Some ((api_result r ai)\<lparr> original_line_index := Some (int i) \<rparr>) \<and>
                  reconstructLyrics r plan h ! j
                      = Some ((api_result r aj)\<lparr> original_line_index := Some (int j) \<rparr>))))"
proof -
  obtain m where plan: "plan = map (\<lambda>(l, i). plan_entry f m l i) (zip input [0 ..< length input])"
    and dom: "dom m = contentKey ` {l \<in> set input. \<not> f (line_text l)}"
    and bound: "\<And>k ai. m k = Some ai \<Longrightarrow> ai < length api"
    and inj: "\<And>k k' ai. m k = Some ai \<Longrightarrow> m k' = Some ai \<Longrightarrow> k = k'"
    and card: "card (dom m) = length api"
    using prepareLyrics_inj [OF assms] by blast
  have len: "length plan = length input" by (simp add: plan)
  have rec: "reconstructLyrics r plan h = map (\<lambda>p. Some (reconstruct_item r h p)) plan" for r h
    using reconstructLyrics_prepared [of r f input h] by (simp add: assms)
  have slot: "\<exists>ai. m (contentKey (input ! i)) = Some ai \<and> ai < length api \<and> plan ! i = Api ai i \<and>
      (\<forall>r h. reconstructLyrics r plan h ! i
                      = Some ((api_result r ai)\<lparr> original_line_index := Some (int i) \<rparr>))"
    if i: "i < length input" and nl: "\<not> f (line_text (input ! i))" for i
  proof -
    from i nl have "contentKey (input ! i) \<in> dom m"
      unfolding dom by (auto intro!: imageI)
    then obtain ai where ai: "m (contentKey (input ! i)) = Some ai" by blast
    have p: "plan ! i = Api ai i"
      using i nl ai by (simp add: plan plan_entry_def)
    have "reconstructLyrics r plan h ! i
            = Some ((api_result r ai)\<lparr> original_line_index := Some (int i) \<rparr>)" for r h
      using i len p by (simp add: rec)
    with ai bound [OF ai] p show ?thesis by blast
  qed
  have "\<exists>ai < length api. \<exists>aj < length api.
           plan ! i = Api ai i \<and> plan ! j = Api aj j \<and>
           (ai = aj \<longleftrightarrow> contentKey (input ! i) = contentKey (input ! j)) \<and>
           (\<forall>r h. reconstructLyrics r plan h ! i
                      = Some ((api_result r ai)\<lparr> original_line_index := Some (int i) \<rparr>) \<and>
                  reconstructLyrics r plan h ! j
                      = Some ((api_result r aj)\<lparr> original_line_index := Some (int j) \<rparr>))"
    if "i < length input" "j < length input"
      "\<not> f (line_text (input ! i))" "\<not> f (line_text (input ! j))" for i j
  proof -
    from slot [OF that(1) that(3)] obtain ai where
      a: "m (contentKey (input ! i)) = Some ai" "ai < length api" "plan ! i = Api ai i"
      "\<forall>r h. reconstructLyrics r plan h ! i
                      = Some ((api_result r ai)\<lparr> original_line_index := Some (int i) \<rparr>)"
      by blast
    from slot [OF that(2) that(4)] obtain aj where
      b: "m (contentKey (input ! j)) = Some aj" "aj < length api" "plan ! j = Api aj j"
      "\<forall>r h. reconstructLyrics r plan h ! j
                      = Some ((api_result r aj)\<lparr> original_line_index := Some (int j) \<rparr>)"
      by blast
    have "ai = aj \<longleftrightarrow> contentKey (input ! i) = contentKey (input ! j)"
      using a(1) b(1) inj by (metis option.inject)
    with a b show ?thesis by blast
  qed
  then show ?thesis using card dom by auto
qed

theorem dedup_slots_witness:
  "prepareLyrics example_isLatin dedup_input =
     ([plain_line [12354] 0, plain_line [12356] 1, plain_line [12358] 2],
      [Api 0 0, Api 1 1, Api 2 2, Api 1 3]) \<and>
   length [plain_line [12354] 0, plain_line [12356] 1, plain_line [12358] 2]
     = card (contentKey ` {l \<in> set dedup_input. \<not> example_isLatin (line_text l)}) \<and>
   length [plain_line [12354] 0, plain_line [12356] 1, plain_line [12358] 2] = 3 \<and>
   reconstructLyrics [plain_line [97] 0, plain_line [105] 1, plain_line [117] 2]
       [Api 0 0, Api 1 1, Api 2 2, Api 1 3] False
     = [Some (plain_line [97] 0), Some (plain_line [105] 1), Some (plain_line [117] 2),
        Some (plain_line [105] 3)]"
proof -
  have prep: "prepareLyrics example_isLatin dedup_input =
     ([plain_line [12354] 0, plain_line [12356] 1, plain_line [12358] 2],
      [Api 0 0, Api 1 1, Api 2 2, Api 1 3])"
    by (simp add: romanizer_defs example_defs)
  have slots: "length [plain_line [12354] 0, plain_line [12356] 1, plain_line [12358] 2]
     = card (contentKey ` {l \<in> set dedup_input. \<not> example_isLatin (line_text l)})"
    by (rule dedup_slots [OF prep, THEN conjunct1])
  have three: "length [plain_line [12354] 0, plain_line [12356] 1, plain_line [12358] 2] = 3"
    by simp
  have out: "reconstructLyrics [plain_line [97] 0, plain_line [105] 1, plain_line [117] 2]
       [Api 0 0, Api 1 1, Api 2 2, Api 1 3] False
     = [Some (plain_line [97] 0), Some (plain_line [105] 1), Some (plain_line [117] 2),
        Some (plain_line [105] 3)]"
    by (simp add: romanizer_defs example_defs)
  from prep slots three out show ?thesis by (intro conjI)
qed

lemma all_latin_prepare:
  assumes "list_all (\<lambda>l. f (line_text l)) input"
  shows "prepareLyrics f input = ([], map (\<lambda>(l, i). Latin l i) (zip input [0 ..< length input]))"
proof -
  obtain api plan where pl: "prepareLyrics f input = (api, plan)"
    by (cases "prepareLyrics f input")
  obtain m where plan: "plan = map (\<lambda>(l, i). plan_entry f m l i) (zip input [0 ..< length input])"
    and dom: "dom m = contentKey ` {l \<in> set input. \<not> f (line_text l)}"
    and card: "card (dom m) = length api"
    using prepareLyrics_inj [OF pl] by blast
  from assms have "{l \<in> set input. \<not> f (line_text l)} = {}"
    by (auto simp: list_all_iff)
  with dom card have "api = []" by simp
  moreover have "plan = map (\<lambda>(l, i). Latin l i) (zip input [0 ..< length input])"
    unfolding plan using assms
    by (auto simp: list_all_iff plan_entry_def dest: set_zip_leftD)
  ultimately show ?thesis using pl by simp
qed

text \<open>
  Claim C9, as amended. For a document whose lines are all Latin, \<^verbatim>\<open>romanize\<close> sends
  no request to the transformer and returns the lines in order, each with its text and
  other properties, with \<open>original_line_index\<close> set to its position and without a chunk
  array: \<open>hasAnyChunks\<close> is computed from the lines sent to the transformer, of which
  there are none, so the guard of the Latin branch drops every chunk.
\<close>

theorem all_latin_passthrough:
  assumes "list_all (\<lambda>l. isPurelyLatinScript E (line_text l)) input"
  shows "romanize E input =
     (Inr (map (\<lambda>(l, i). Some (l\<lparr> chunk := None, original_line_index := Some (int i) \<rparr>))
             (zip input [0 ..< length input])), [])"
proof -
  note pl = all_latin_prepare [OF assms]
  have "reconstructLyrics [] (snd (prepareLyrics (isPurelyLatinScript E) input)) False
          = map (\<lambda>p. Some (reconstruct_item [] False p)) (snd (prepareLyrics (isPurelyLatinScript E) input))"
    by (rule reconstructLyrics_prepared)
  then have "reconstructLyrics [] (map (\<lambda>(l, i). Latin l i) (zip input [0 ..< length input])) False
          = map (\<lambda>(l, i). Some (l\<lparr> chunk := None, original_line_index := Some (int i) \<rparr>))
             (zip input [0 ..< length input])"
    by (simp add: pl split_def)
  then show ?thesis
    by (simp add: romanize_def pl)
qed

theorem all_latin_passthrough_witness:
  "list_all (\<lambda>l. isPurelyLatinScript example_success (line_text l)) latin_chunked \<and>
   romanize example_success latin_chunked =
     (Inr [Some \<lparr> line_text = Some [108, 97], original_line_index = Some 0, chunk = None, rest = [] \<rparr>], [])"
proof -
  have all: "list_all (\<lambda>l. isPurelyLatinScript example_success (line_text l)) latin_chunked"
    by (simp add: example_defs)
  have "romanize example_success latin_chunked =
     (Inr (map (\<lambda>(l, i). Some (l\<lparr> chunk := None, original_line_index := Some (int i) \<rparr>))
             (zip latin_chunked [0 ..< length latin_chunked])), [])"
    by (rule all_latin_passthrough [OF all])
  then have run: "romanize example_success latin_chunked =
     (Inr [Some \<lparr> line_text = Some [108, 97], original_line_index = Some 0, chunk = None, rest = [] \<rparr>], [])"
    by (simp add: latin_chunked_def)
  from all run show ?thesis by (intro conjI)
qed

text \<open>
  The claim as stated fails: a Latin line with a chunk array comes back without it, so the
  document is not returned unchanged.
\<close>

theorem all_latin_unchanged_counterexample:
  "list_all (\<lambda>l. isPurelyLatinScript example_success (line_text l)) latin_chunked \<and>
   fst (romanize example_success latin_chunked) \<noteq> Inr (map Some latin_chunked)"
  by (simp add: romanizer_defs example_defs)


section \<open>Validation, repair and the retry loop\<close>

lemma js_filter_eq:
  "js_filter p xs =
     (if list_all (\<lambda>x. p x \<noteq> None) xs then Some (filter (\<lambda>x. p x = Some True) xs) else None)"
  by (induction xs) (auto split: option.splits)

lemma validateTextCoherence_Nil:
  "validateTextCoherence U rl i = [] \<longleftrightarrow> coherent U rl"
  by (auto simp: validateTextCoherence_def coherent_def Let_def)

lemma nonempty_filter:
  "list_all (\<lambda>c. is_empty_chunk c \<noteq> None) cs \<Longrightarrow>
   filter (\<lambda>c. is_nonempty_chunk c = Some True) cs = filter (\<lambda>c. is_empty_chunk c = Some False) cs"
  by (induction cs) (auto simp: is_nonempty_chunk_def)

lemma validateChunkDistribution_Nil:
  "validateChunkDistribution U ol rl i = Some [] \<longleftrightarrow>
     (list_all (\<lambda>c. is_empty_chunk c = Some False) (chunks_of rl)
      \<and> \<not> (length (chunks_of rl) > 1
            \<and> length (filter (\<lambda>c. is_empty_chunk c = Some False) (chunks_of rl)) = 1)
      \<and> coherent U rl)"
proof (cases "list_all (\<lambda>c. is_empty_chunk c \<noteq> None) (chunks_of rl)")
  case False
  then have "\<not> list_all (\<lambda>c. is_empty_chunk c = Some False) (chunks_of rl)"
    by (force simp: list_all_iff)
  with False show ?thesis
    by (simp add: validateChunkDistribution_def js_filter_eq)
next
  case True
  then have ne: "list_all (\<lambda>c. is_nonempty_chunk c \<noteq> None) (chunks_of rl)"
    by (simp add: is_nonempty_chunk_def list_all_iff)
  have two: "is_empty_chunk c \<noteq> Some True \<longleftrightarrow> is_empty_chunk c = Some False"
    if "c \<in> set (chunks_of rl)" for c
  proof -
    from True that obtain b where "is_empty_chunk c = Some b" by (auto simp: list_all_iff)
    then show ?thesis by (cases b) simp_all
  qed
  have none_empty: "filter (\<lambda>c. is_empty_chunk c = Some True) (chunks_of rl) = []
      \<longleftrightarrow> list_all (\<lambda>c. is_empty_chunk c = Some False) (chunks_of rl)"
    by (simp add: filter_empty_conv list_all_iff two)
  show ?thesis
    using True ne none_empty
    by (auto simp: validateChunkDistribution_def js_filter_eq nonempty_filter
        validateTextCoherence_Nil)
qed

lemma append_errors_Nil:
  "(case x of None \<Rightarrow> None | Some ce \<Rightarrow> Some (a @ b @ ce)) = Some [] \<longleftrightarrow>
     a = [] \<and> b = [] \<and> x = Some []"
  by (cases x) auto

lemma validate_line_Nil:
  "validate_line U ol rl i = Some [] \<longleftrightarrow> line_contract U ol rl i"
  by (auto simp: validate_line_def line_contract_def Let_def append_errors_Nil
      validateChunkDistribution_Nil)

lemma validate_each_Nil:
  "(\<exists>ds. validate_each U origs ls k = Some ([], ds)) \<longleftrightarrow>
     (\<forall>j < length ls. k + j < length origs \<longrightarrow>
        validate_line U (origs ! (k + j)) (ls ! j) (k + j) = Some [])"
proof (induction ls arbitrary: k)
  case Nil
  then show ?case by simp
next
  case (Cons l ls)
  have split: "(\<forall>j < Suc (length ls). P j) \<longleftrightarrow> P 0 \<and> (\<forall>j < length ls. P (Suc j))" for P
    by (auto simp: less_Suc_eq_0_disj)
  show ?case
    using Cons.IH [of "Suc k"]
    by (auto simp: split split: option.splits)
qed

text \<open>
  Claim C4. \<^verbatim>\<open>ResponseValidator.validate\<close> answers \<open>isValid = true\<close> exactly when the
  response meets the contract: the array exists with the length of the structured input, and
  every line has its position as index, a string as text, a chunk array exactly when the
  input line has chunks, and, when it has chunks, matching counts, no empty chunk, no
  concentration of the text in one chunk of several, and chunk texts that differ from the
  line text by at most 20 percent of the longer normalised length. On a response on which
  \<^verbatim>\<open>validate\<close> throws instead of answering, the contract does not hold.
\<close>

theorem validate_iff_contract:
  "(case validate U input r of None \<Rightarrow> False | Some result \<Rightarrow> isValid result)
     = response_contract U input r"
proof (cases r)
  case None
  then show ?thesis by (simp add: validate_def response_contract_def)
next
  case resp: (Some resp)
  show ?thesis
  proof (cases "romanized_lyrics resp")
    case None
    with resp show ?thesis by (simp add: validate_def response_contract_def)
  next
    case lines: (Some ls)
    show ?thesis
    proof (cases "length ls = length input")
      case False
      with resp lines show ?thesis by (simp add: validate_def response_contract_def)
    next
      case True
      have "(case validate U input r of None \<Rightarrow> False | Some result \<Rightarrow> isValid result)
          \<longleftrightarrow> (\<exists>ds. validate_each U input ls 0 = Some ([], ds))"
        using resp lines True by (auto simp: validate_def split: option.splits)
      also have "\<dots> \<longleftrightarrow> (\<forall>i < length ls. line_contract U (input ! i) (ls ! i) i)"
        using True by (simp add: validate_each_Nil validate_line_Nil)
      finally show ?thesis
        using resp lines True by (simp add: response_contract_def)
    qed
  qed
qed

theorem validate_iff_contract_witness:
  "(case validate example_util chunked_input (Some chunked_reply) of
      None \<Rightarrow> False | Some result \<Rightarrow> isValid result) \<and>
   response_contract example_util chunked_input (Some chunked_reply) \<and>
   \<not> (case validate example_util chunked_input (Some blank_chunk_reply) of
      None \<Rightarrow> False | Some result \<Rightarrow> isValid result) \<and>
   \<not> response_contract example_util chunked_input (Some blank_chunk_reply) \<and>
   validate example_util chunked_input (Some odd_chunk_reply) = None \<and>
   \<not> response_contract example_util chunked_input (Some odd_chunk_reply)"
proof -
  have good: "(case validate example_util chunked_input (Some chunked_reply) of
      None \<Rightarrow> False | Some result \<Rightarrow> isValid result)"
    by (simp add: romanizer_defs example_defs)
  have bad: "\<not> (case validate example_util chunked_input (Some blank_chunk_reply) of
      None \<Rightarrow> False | Some result \<Rightarrow> isValid result)"
    by (simp add: romanizer_defs example_defs)
  have a: "response_contract example_util chunked_input (Some chunked_reply)"
    by (rule validate_iff_contract [THEN iffD1, OF good])
  have b: "\<not> response_contract example_util chunked_input (Some blank_chunk_reply)"
    using bad by (rule contrapos_nn) (rule validate_iff_contract [THEN iffD2])
  have thrown: "validate example_util chunked_input (Some odd_chunk_reply) = None"
    by (simp add: romanizer_defs example_defs)
  have odd: "\<not> (case validate example_util chunked_input (Some odd_chunk_reply) of
      None \<Rightarrow> False | Some result \<Rightarrow> isValid result)"
    by (simp add: thrown)
  have c: "\<not> response_contract example_util chunked_input (Some odd_chunk_reply)"
    using odd by (rule contrapos_nn) (rule validate_iff_contract [THEN iffD2])
  from good a bad b thrown c show ?thesis by (intro conjI)
qed

text \<open>
  A reply on which \<^verbatim>\<open>validate\<close> throws is not counted as a validation failure: on an
  attempt that is not the last, the \<^verbatim>\<open>catch\<close> block leaves the conversation, the
  repeat counter and the last error as they were.
\<close>

lemma thrown_validation_example:
  "attempt_body (example_engine 5 (\<lambda>attempt. Inr ''r'') (\<lambda>s. Inr (Some odd_chunk_reply)))
      chunked_input [Api 0 0, Api 1 1] True (RomanizationPrompt chunked_input True) 2
      \<lparr> currentContents = [User (RomanizationPrompt chunked_input True)],
        lastValidResponse = None, sameErrorCount = 2, lastError = Message TopLevelMissing \<rparr>
     = Continue \<lparr> currentContents = [User (RomanizationPrompt chunked_input True)],
                  lastValidResponse = None, sameErrorCount = 2,
                  lastError = Message TopLevelMissing \<rparr>"
  by (simp add: romanizer_defs example_defs)

lemma apply_fix_length: "length (apply_fix ls f) = length ls"
  by (simp add: apply_fix_def split: option.splits)

lemma merge_length: "length (foldl apply_fix ls fs) = length ls"
  by (induction fs arbitrary: ls) (simp_all add: apply_fix_length)

lemma apply_fix_other:
  "original_line_index f \<noteq> Some (int i) \<Longrightarrow> apply_fix ls f ! i = ls ! i"
  by (auto simp: apply_fix_def split: option.splits)

lemma merge_untouched:
  "\<forall>f \<in> set fs. original_line_index f \<noteq> Some (int i) \<Longrightarrow> foldl apply_fix ls fs ! i = ls ! i"
  by (induction fs arbitrary: ls) (simp_all add: apply_fix_other)

lemma apply_fix_same:
  "i < length ls \<Longrightarrow> original_line_index f = Some (int i) \<Longrightarrow> apply_fix ls f ! i = f"
  by (simp add: apply_fix_def)

lemma merge_touched:
  "i < length ls \<Longrightarrow> \<exists>f \<in> set fs. original_line_index f = Some (int i) \<Longrightarrow>
   foldl apply_fix ls fs ! i \<in> set fs \<and> original_line_index (foldl apply_fix ls fs ! i) = Some (int i)"
proof (induction fs arbitrary: ls rule: rev_induct)
  case Nil
  then show ?case by simp
next
  case (snoc f fs)
  have len: "i < length (foldl apply_fix ls fs)"
    using snoc.prems(1) by (simp add: merge_length)
  show ?case
  proof (cases "original_line_index f = Some (int i)")
    case True
    with len show ?thesis by (simp add: apply_fix_same)
  next
    case False
    with snoc.prems(2) have "\<exists>g \<in> set fs. original_line_index g = Some (int i)" by auto
    from snoc.IH [OF snoc.prems(1) this] False show ?thesis
      by (simp add: apply_fix_other)
  qed
qed

lemma apply_fix_dropped: "out_of_bounds (length ls) f \<Longrightarrow> apply_fix ls f = ls"
  by (auto simp: apply_fix_def out_of_bounds_def split: option.splits)

lemma merge_dropped:
  "out_of_bounds (length ls) f \<Longrightarrow>
   foldl apply_fix ls (before @ [f] @ after) = foldl apply_fix ls (before @ after)"
  using apply_fix_dropped [of "foldl apply_fix ls before" f]
  by (simp add: merge_length)

lemma set_foldl_set_add: "set (foldl set_add acc xs) = set acc \<union> set xs"
  by (induction xs arbitrary: acc) (auto simp: set_add_def)

lemma flag_lines_mono:
  "flag_lines api ls k acc = Some flagged \<Longrightarrow> x \<in> set acc \<Longrightarrow> x \<in> set flagged"
  by (induction ls arbitrary: k acc) (auto simp: set_add_def split: if_splits option.splits)

lemma problematic_shape:
  "getProblematicLines api resp ds = Some pl \<Longrightarrow> l \<in> set pl \<Longrightarrow>
   \<exists>i < length api. l = (api ! i)\<lparr> original_line_index := Some (int i) \<rparr>"
  by (auto simp: getProblematicLines_def Let_def split: option.splits)

lemma problematic_covers:
  assumes pl: "getProblematicLines api resp ds = Some pl"
    and i: "i \<in> fst ` set ds" "i < length api"
  shows "(api ! i)\<lparr> original_line_index := Some (int i) \<rparr> \<in> set pl"
proof -
  have base: "i \<in> set (foldl set_add [] (map fst ds))"
    using i(1) by (simp add: set_foldl_set_add)
  from pl obtain flagged where
    flagged: "(case romanized_lyrics resp of
                 None \<Rightarrow> Some (foldl set_add [] (map fst ds))
               | Some ls \<Rightarrow> flag_lines api ls 0 (foldl set_add [] (map fst ds))) = Some flagged"
    and shape: "pl = map (\<lambda>index. (api ! index)\<lparr> original_line_index := Some (int index) \<rparr>)
                     (filter (\<lambda>index. index < length api) flagged)"
    by (auto simp: getProblematicLines_def Let_def split: option.splits)
  from flagged base have "i \<in> set flagged"
    by (cases "romanized_lyrics resp") (auto dest: flag_lines_mono)
  with i(2) shape show ?thesis by auto
qed


lemma log_prefix:
  "\<exists>more. snd (romanize_loop E api plan h ip a c sent) = sent @ more"
proof (induction E api plan h ip a c sent rule: romanize_loop.induct)
  case (1 E api plan h ip a c sent)
  show ?case
  proof (cases "a \<le> MAX_RETRIES E")
    case False
    then show ?thesis by (subst romanize_loop.simps) simp
  next
    case le: True
    show ?thesis
    proof (cases "attempt_body E api plan h ip a c")
      case (Return x)
      with le show ?thesis by (subst romanize_loop.simps) simp
    next
      case (Throw e)
      with le show ?thesis by (subst romanize_loop.simps) simp
    next
      case (Continue c')
      from "1.IH" [OF le refl Continue] obtain more where
        "snd (romanize_loop E api plan h ip (Suc a) c'
               (sent @ [(currentContents c, request_schema h a c)]))
           = (sent @ [(currentContents c, request_schema h a c)]) @ more" by blast
      with le Continue show ?thesis by (subst romanize_loop.simps) simp
    qed
  qed
qed

lemma loop_log_nth:
  "conversation_after E api plan h ip a c n = Some c' \<Longrightarrow> a + n \<le> MAX_RETRIES E \<Longrightarrow>
   snd (romanize_loop E api plan h ip a c sent) ! (length sent + n)
     = (currentContents c', request_schema h (a + n) c')"
proof (induction n arbitrary: a c sent)
  case 0
  then have le: "a \<le> MAX_RETRIES E" and same: "c' = c" by simp_all
  show ?case
  proof (cases "attempt_body E api plan h ip a c")
    case (Return x)
    with le same show ?thesis by (subst romanize_loop.simps) simp
  next
    case (Throw e)
    with le same show ?thesis by (subst romanize_loop.simps) simp
  next
    case (Continue c1)
    from log_prefix [of E api plan h ip "Suc a" c1 "sent @ [(currentContents c, request_schema h a c)]"]
    obtain more where "snd (romanize_loop E api plan h ip (Suc a) c1
               (sent @ [(currentContents c, request_schema h a c)]))
           = (sent @ [(currentContents c, request_schema h a c)]) @ more" by blast
    with le same Continue show ?thesis by (subst romanize_loop.simps) simp
  qed
next
  case (Suc n)
  from Suc.prems(1) have le: "a \<le> MAX_RETRIES E"
    by (simp split: if_splits)
  with Suc.prems(1) obtain c1 where step: "attempt_body E api plan h ip a c = Continue c1"
    and rest: "conversation_after E api plan h ip (Suc a) c1 n = Some c'"
    by (auto split: step.splits)
  from Suc.prems(2) have "Suc a + n \<le> MAX_RETRIES E" by simp
  from Suc.IH [OF rest this, of "sent @ [(currentContents c, request_schema h a c)]"]
  have "snd (romanize_loop E api plan h ip (Suc a) c1
              (sent @ [(currentContents c, request_schema h a c)])) ! (length sent + Suc n)
          = (currentContents c', request_schema h (a + Suc n) c')" by simp
  with le step show ?case by (subst romanize_loop.simps) simp
qed

lemma conversation_after_snoc:
  "conversation_after E api plan h ip a c n = Some c1 \<Longrightarrow> a + n \<le> MAX_RETRIES E \<Longrightarrow>
   attempt_body E api plan h ip (a + n) c1 = Continue c2 \<Longrightarrow>
   conversation_after E api plan h ip a c (Suc n) = Some c2"
proof (induction n arbitrary: a c)
  case 0
  then show ?case by simp
next
  case (Suc n)
  from Suc.prems(1) have le: "a \<le> MAX_RETRIES E"
    by (simp split: if_splits)
  with Suc.prems(1) obtain c' where step: "attempt_body E api plan h ip a c = Continue c'"
    and rest: "conversation_after E api plan h ip (Suc a) c' n = Some c1"
    by (auto split: step.splits)
  from Suc.prems have "Suc a + n \<le> MAX_RETRIES E"
    "attempt_body E api plan h ip (Suc a + n) c1 = Continue c2" by simp_all
  from Suc.IH [OF rest this] have "conversation_after E api plan h ip (Suc a) c' (Suc n) = Some c2" .
  with le step show ?case by simp
qed

lemma next_request:
  assumes before: "conversation_before E api plan h ip a = Some c"
    and lt: "a < MAX_RETRIES E"
    and step: "attempt_body E api plan h ip a c = Continue c'"
  shows "snd (romanize_loop E api plan h ip 1 (fresh_conversation ip Null) []) ! a
           = (currentContents c', request_schema h (Suc a) c')"
proof -
  from before obtain n where a: "a = Suc n"
    and c: "conversation_after E api plan h ip 1 (fresh_conversation ip Null) n = Some c"
    by (cases a) (simp_all add: conversation_before_def)
  from lt a have "1 + n \<le> MAX_RETRIES E" by simp
  moreover from step a have "attempt_body E api plan h ip (1 + n) c = Continue c'" by simp
  ultimately have "conversation_after E api plan h ip 1 (fresh_conversation ip Null) (Suc n) = Some c'"
    by (rule conversation_after_snoc [OF c])
  from loop_log_nth [OF this, of "[]"] lt a show ?thesis by simp
qed

lemma stored_first_step:
  "attempt_body E api plan h ip 1 c = Continue c' \<Longrightarrow> lastValidResponse c = None \<Longrightarrow>
   lastValidResponse c' = None \<or> (\<exists>t fr. attempt_response E h 1 c = Inr (t, lastValidResponse c', fr))"
  by (auto simp: attempt_body_def after_failure_def catch_attempt_def Let_def
      split: sum.splits option.splits if_splits js_error.splits prod.splits)

lemma stored_later_step:
  "attempt_body E api plan h ip a c = Continue c' \<Longrightarrow> a \<noteq> 1 \<Longrightarrow>
   lastValidResponse c' = None \<or> lastValidResponse c' = lastValidResponse c"
  by (auto simp: attempt_body_def after_failure_def catch_attempt_def Let_def
      split: sum.splits option.splits if_splits js_error.splits prod.splits)

lemma stored_later:
  "conversation_after E api plan h ip a c n = Some c' \<Longrightarrow> 1 < a \<Longrightarrow>
   lastValidResponse c' = None \<or> lastValidResponse c' = lastValidResponse c"
proof (induction n arbitrary: a c)
  case 0
  then show ?case by simp
next
  case (Suc n)
  from Suc.prems(1) obtain c1 where step: "attempt_body E api plan h ip a c = Continue c1"
    and rest: "conversation_after E api plan h ip (Suc a) c1 n = Some c'"
    by (auto split: step.splits if_splits)
  from stored_later_step [OF step] Suc.prems(2)
  have "lastValidResponse c1 = None \<or> lastValidResponse c1 = lastValidResponse c" by simp
  moreover from Suc.IH [OF rest] Suc.prems(2)
  have "lastValidResponse c' = None \<or> lastValidResponse c' = lastValidResponse c1" by simp
  ultimately show ?case by auto
qed

lemma stored_first:
  assumes "conversation_before E api plan h ip a = Some c"
  shows "lastValidResponse c = None
     \<or> (\<exists>t fr. attempt_response E h 1 (fresh_conversation ip Null) = Inr (t, lastValidResponse c, fr))"
proof -
  from assms obtain n where
    c: "conversation_after E api plan h ip 1 (fresh_conversation ip Null) n = Some c"
    by (cases a) (simp_all add: conversation_before_def)
  show ?thesis
  proof (cases n)
    case 0
    with c have "c = fresh_conversation ip Null" by simp
    then show ?thesis by (simp add: fresh_conversation_def)
  next
    case (Suc m)
    with c obtain c1 where
      step: "attempt_body E api plan h ip 1 (fresh_conversation ip Null) = Continue c1"
      and rest: "conversation_after E api plan h ip (Suc 1) c1 m = Some c"
      by (auto split: step.splits if_splits)
    from stored_first_step [OF step]
    have first: "lastValidResponse c1 = None
       \<or> (\<exists>t fr. attempt_response E h 1 (fresh_conversation ip Null) = Inr (t, lastValidResponse c1, fr))"
      by (simp add: fresh_conversation_def)
    from stored_later [OF rest]
    have "lastValidResponse c = None \<or> lastValidResponse c = lastValidResponse c1" by simp
    with first show ?thesis by auto
  qed
qed

lemma correction_step:
  assumes resp: "attempt_response E h a c = Inr (t, pj, Some resp)"
    and v: "validate (util E) api (Some resp) = Some vr" "\<not> isValid vr"
    and nf: "a \<noteq> MAX_RETRIES E"
    and few: "repeat_count c (first_error (errors vr)) < 3"
    and pl: "getProblematicLines api resp (detailedErrors vr) = Some pl"
  shows "attempt_body E api plan h ip a c =
     Continue \<lparr> currentContents = currentContents c @
                  [Model t, User (createCorrectionPrompt pl vr api h)],
                lastValidResponse = (if a = 1 then pj else lastValidResponse c),
                sameErrorCount = repeat_count c (first_error (errors vr)),
                lastError = first_error (errors vr) \<rparr>"
  using v nf few pl
  by (auto simp: attempt_body_def resp Let_def after_failure_def repeat_count_def)

text \<open>
  Claim C6, as amended. Take an attempt of a run of \<^verbatim>\<open>romanize\<close> that is not the last
  allowed one, whose reply fails validation without the repeat counter reaching three, and
  for which \<^verbatim>\<open>getProblematicLines\<close> returns the flagged lines. The next request of the
  run then carries the conversation so far, the reply, and a correction prompt: the
  selective-fix prompt listing exactly the flagged lines when their number is not zero and
  below 80 percent of the structured lines, and the full-retry prompt otherwise (zero
  flagged lines, or 80 percent and more); its schema is the selective one exactly when a
  response is stored. The flagged lines are structured-input lines re-tagged with their
  index and include every line with a validation error. On a selective attempt the stored
  response is the first attempt's parsed reply, stored before it was validated, and the
  fixed lines of the reply are merged into it: the length is kept, every index named by a
  fixed line gets one of the fixed lines with that index and every other index is left as
  it was; a fixed line whose index is absent, negative or past the end is dropped and
  raises nothing. When the stored response has no array, the fixed lines become the array.
\<close>

theorem selective_fix_merge:
  "(conversation_before E api plan h ip a = Some c \<and> a < MAX_RETRIES E
      \<and> attempt_response E h a c = Inr (t, pj, Some resp)
      \<and> validate (util E) api (Some resp) = Some vr \<and> \<not> isValid vr
      \<and> repeat_count c (first_error (errors vr)) < 3
      \<and> getProblematicLines api resp (detailedErrors vr) = Some pl \<longrightarrow>
        snd (romanize_loop E api plan h ip 1 (fresh_conversation ip Null) []) ! a
          = (currentContents c @
               [Model t,
                User (if 0 < length pl \<and> 5 * length pl < 4 * length api
                      then SelectiveFixPrompt (map (fix_entry_of vr) pl) h
                      else FullRetryPrompt api h)],
             if (if a = 1 then pj else lastValidResponse c) \<noteq> None
             then SelectiveRomanizationSchema h else RomanizationSchema h))
   \<and> (getProblematicLines api resp ds = Some pl \<longrightarrow>
        (\<forall>l \<in> set pl. \<exists>i < length api. l = (api ! i)\<lparr> original_line_index := Some (int i) \<rparr>)
        \<and> (\<forall>i \<in> fst ` set ds. i < length api \<longrightarrow>
              (api ! i)\<lparr> original_line_index := Some (int i) \<rparr> \<in> set pl))
   \<and> (conversation_before E api plan h ip a = Some c \<and> isSelectiveFix a c
        \<and> callGeminiAPI E a (currentContents c) (request_schema h a c) = Inr reply
        \<and> JSON_parse E reply = Inr (Some parsed) \<and> fixed_lines parsed = Some fixedLines \<longrightarrow>
        (\<exists>t1 first fr1.
            attempt_response E h 1 (fresh_conversation ip Null) = Inr (t1, Some first, fr1)
            \<and> lastValidResponse c = Some first
            \<and> attempt_response E h a c
                = Inr (reply, Some parsed, Some (mergeSelectiveFixes (Some first) fixedLines))))
   \<and> (romanized_lyrics prev = Some ls \<longrightarrow>
        (\<exists>merged. mergeSelectiveFixes (Some prev) fixedLines = prev\<lparr> romanized_lyrics := Some merged \<rparr>
           \<and> length merged = length ls
           \<and> (\<forall>i < length ls.
                 if \<exists>f \<in> set fixedLines. original_line_index f = Some (int i)
                 then merged ! i \<in> set fixedLines \<and> original_line_index (merged ! i) = Some (int i)
                 else merged ! i = ls ! i))
        \<and> (out_of_bounds (length ls) dropped \<longrightarrow>
              mergeSelectiveFixes (Some prev) (before @ [dropped] @ after)
                = mergeSelectiveFixes (Some prev) (before @ after)))
   \<and> (romanized_lyrics prev = None \<longrightarrow>
        mergeSelectiveFixes (Some prev) fixedLines
          = \<lparr> romanized_lyrics = Some fixedLines, fixed_lines = None \<rparr>)"
proof (intro conjI impI)
  assume hyp: "conversation_before E api plan h ip a = Some c \<and> a < MAX_RETRIES E
      \<and> attempt_response E h a c = Inr (t, pj, Some resp)
      \<and> validate (util E) api (Some resp) = Some vr \<and> \<not> isValid vr
      \<and> repeat_count c (first_error (errors vr)) < 3
      \<and> getProblematicLines api resp (detailedErrors vr) = Some pl"
  then have before: "conversation_before E api plan h ip a = Some c" and lt: "a < MAX_RETRIES E"
    and resp: "attempt_response E h a c = Inr (t, pj, Some resp)"
    and v: "validate (util E) api (Some resp) = Some vr" "\<not> isValid vr"
    and few: "repeat_count c (first_error (errors vr)) < 3"
    and pl: "getProblematicLines api resp (detailedErrors vr) = Some pl"
    by simp_all
  from before have pos: "0 < a" by (cases a) (simp_all add: conversation_before_def)
  from lt have nf: "a \<noteq> MAX_RETRIES E" by simp
  note step = correction_step [OF resp v nf few pl, of plan ip]
  have prompt: "createCorrectionPrompt pl vr api h
      = (if 0 < length pl \<and> 5 * length pl < 4 * length api
         then SelectiveFixPrompt (map (fix_entry_of vr) pl) h else FullRetryPrompt api h)"
    by (simp add: createCorrectionPrompt_def createSelectiveFixPrompt_def
        createFullRetryPrompt_def fix_entry_of_def)
  from next_request [OF before lt step] few pos
  show "snd (romanize_loop E api plan h ip 1 (fresh_conversation ip Null) []) ! a
          = (currentContents c @
               [Model t,
                User (if 0 < length pl \<and> 5 * length pl < 4 * length api
                      then SelectiveFixPrompt (map (fix_entry_of vr) pl) h
                      else FullRetryPrompt api h)],
             if (if a = 1 then pj else lastValidResponse c) \<noteq> None
             then SelectiveRomanizationSchema h else RomanizationSchema h)"
    by (simp add: prompt request_schema_def isSelectiveFix_def)
next
  assume "getProblematicLines api resp ds = Some pl"
  then show "\<forall>l \<in> set pl. \<exists>i < length api. l = (api ! i)\<lparr> original_line_index := Some (int i) \<rparr>"
    using problematic_shape by blast
next
  assume "getProblematicLines api resp ds = Some pl"
  then show "\<forall>i \<in> fst ` set ds. i < length api \<longrightarrow>
              (api ! i)\<lparr> original_line_index := Some (int i) \<rparr> \<in> set pl"
    using problematic_covers by blast
next
  assume hyp: "conversation_before E api plan h ip a = Some c \<and> isSelectiveFix a c
        \<and> callGeminiAPI E a (currentContents c) (request_schema h a c) = Inr reply
        \<and> JSON_parse E reply = Inr (Some parsed) \<and> fixed_lines parsed = Some fixedLines"
  then have stored: "lastValidResponse c \<noteq> None" by (simp add: isSelectiveFix_def)
  with stored_first [of E api plan h ip a c] hyp obtain t1 first fr1 where
    first: "attempt_response E h 1 (fresh_conversation ip Null) = Inr (t1, Some first, fr1)"
      "lastValidResponse c = Some first"
    by auto
  from hyp first(2) have "attempt_response E h a c
      = Inr (reply, Some parsed, Some (mergeSelectiveFixes (Some first) fixedLines))"
    by (simp add: attempt_response_def)
  with first show "\<exists>t1 first fr1.
            attempt_response E h 1 (fresh_conversation ip Null) = Inr (t1, Some first, fr1)
            \<and> lastValidResponse c = Some first
            \<and> attempt_response E h a c
                = Inr (reply, Some parsed, Some (mergeSelectiveFixes (Some first) fixedLines))"
    by blast
next
  assume prev: "romanized_lyrics prev = Some ls"
  have "mergeSelectiveFixes (Some prev) fixedLines
          = prev\<lparr> romanized_lyrics := Some (foldl apply_fix ls fixedLines) \<rparr>"
    by (simp add: mergeSelectiveFixes_def prev)
  moreover have "length (foldl apply_fix ls fixedLines) = length ls"
    by (rule merge_length)
  moreover have "\<forall>i < length ls.
               if \<exists>f \<in> set fixedLines. original_line_index f = Some (int i)
               then foldl apply_fix ls fixedLines ! i \<in> set fixedLines
                    \<and> original_line_index (foldl apply_fix ls fixedLines ! i) = Some (int i)
               else foldl apply_fix ls fixedLines ! i = ls ! i"
    using merge_touched [of _ ls fixedLines] merge_untouched [of fixedLines _ ls] by auto
  ultimately show "\<exists>merged. mergeSelectiveFixes (Some prev) fixedLines = prev\<lparr> romanized_lyrics := Some merged \<rparr>
         \<and> length merged = length ls
         \<and> (\<forall>i < length ls.
               if \<exists>f \<in> set fixedLines. original_line_index f = Some (int i)
               then merged ! i \<in> set fixedLines \<and> original_line_index (merged ! i) = Some (int i)
               else merged ! i = ls ! i)"
    by blast
next
  assume prev: "romanized_lyrics prev = Some ls" and "out_of_bounds (length ls) dropped"
  then show "mergeSelectiveFixes (Some prev) (before @ [dropped] @ after)
              = mergeSelectiveFixes (Some prev) (before @ after)"
    using merge_dropped [of ls dropped before after] by (simp add: mergeSelectiveFixes_def)
next
  assume "romanized_lyrics prev = None"
  then show "mergeSelectiveFixes (Some prev) fixedLines
          = \<lparr> romanized_lyrics = Some fixedLines, fixed_lines = None \<rparr>"
    by (simp add: mergeSelectiveFixes_def)
qed

theorem selective_fix_merge_witness:
  "(conversation_before fixing_engine fix_api [Api 0 0, Api 1 1] False fix_prompt 1
       = Some (fresh_conversation fix_prompt Null)
     \<and> 1 < MAX_RETRIES fixing_engine
     \<and> attempt_response fixing_engine False 1 (fresh_conversation fix_prompt Null)
         = Inr (''first'', Some first_reply, Some first_reply)
     \<and> validate (util fixing_engine) fix_api (Some first_reply) = Some first_result
     \<and> \<not> isValid first_result
     \<and> repeat_count (fresh_conversation fix_prompt Null) (first_error (errors first_result)) < 3
     \<and> getProblematicLines fix_api first_reply (detailedErrors first_result)
         = Some [plain_line [12356] 1]) \<and>
   snd (romanize_loop fixing_engine fix_api [Api 0 0, Api 1 1] False fix_prompt 1
          (fresh_conversation fix_prompt Null) []) ! 1
     = (currentContents (fresh_conversation fix_prompt Null) @
          [Model ''first'',
           User (if 0 < length [plain_line [12356] 1]
                    \<and> 5 * length [plain_line [12356] 1] < 4 * length fix_api
                 then SelectiveFixPrompt (map (fix_entry_of first_result) [plain_line [12356] 1]) False
                 else FullRetryPrompt fix_api False)],
        if (if (1::nat) = 1 then Some first_reply
            else lastValidResponse (fresh_conversation fix_prompt Null)) \<noteq> None
        then SelectiveRomanizationSchema False else RomanizationSchema False) \<and>
   snd (romanize_loop fixing_engine fix_api [Api 0 0, Api 1 1] False fix_prompt 1
          (fresh_conversation fix_prompt Null) []) ! 1
     = (currentContents after_first, SelectiveRomanizationSchema False) \<and>
   (conversation_before no_array_engine fix_api [Api 0 0, Api 1 1] False fix_prompt 1
       = Some (fresh_conversation fix_prompt Null)
     \<and> 1 < MAX_RETRIES no_array_engine
     \<and> attempt_response no_array_engine False 1 (fresh_conversation fix_prompt Null)
         = Inr (''r'', Some no_array, Some no_array)
     \<and> validate (util no_array_engine) fix_api (Some no_array) = Some no_array_result
     \<and> \<not> isValid no_array_result
     \<and> repeat_count (fresh_conversation fix_prompt Null) (first_error (errors no_array_result)) < 3
     \<and> getProblematicLines fix_api no_array (detailedErrors no_array_result) = Some []) \<and>
   snd (romanize_loop no_array_engine fix_api [Api 0 0, Api 1 1] False fix_prompt 1
          (fresh_conversation fix_prompt Null) []) ! 1
     = (currentContents (fresh_conversation fix_prompt Null) @
          [Model ''r'',
           User (if 0 < length ([] :: line list) \<and> 5 * length ([] :: line list) < 4 * length fix_api
                 then SelectiveFixPrompt (map (fix_entry_of no_array_result) []) False
                 else FullRetryPrompt fix_api False)],
        if (if (1::nat) = 1 then Some no_array
            else lastValidResponse (fresh_conversation fix_prompt Null)) \<noteq> None
        then SelectiveRomanizationSchema False else RomanizationSchema False) \<and>
   snd (romanize_loop no_array_engine fix_api [Api 0 0, Api 1 1] False fix_prompt 1
          (fresh_conversation fix_prompt Null) []) ! 1
     = ([User fix_prompt, Model ''r'', User (FullRetryPrompt fix_api False)],
        SelectiveRomanizationSchema False) \<and>
   getProblematicLines fix_api first_reply (detailedErrors first_result)
     = Some [plain_line [12356] 1] \<and>
   plain_line [12356] 1 \<in> set [plain_line [12356] 1] \<and>
   (\<exists>i < length fix_api.
       plain_line [12356] 1 = (fix_api ! i)\<lparr> original_line_index := Some (int i) \<rparr>) \<and>
   (conversation_before fixing_engine fix_api [Api 0 0, Api 1 1] False fix_prompt 2 = Some after_first
     \<and> isSelectiveFix 2 after_first
     \<and> callGeminiAPI fixing_engine 2 (currentContents after_first)
          (request_schema False 2 after_first) = Inr ''fix''
     \<and> JSON_parse fixing_engine ''fix'' = Inr (Some fix_reply)
     \<and> fixed_lines fix_reply = Some [plain_line [105] 1, plain_line [120] 7]) \<and>
   (\<exists>t1 first fr1.
       attempt_response fixing_engine False 1 (fresh_conversation fix_prompt Null)
         = Inr (t1, Some first, fr1)
       \<and> lastValidResponse after_first = Some first
       \<and> attempt_response fixing_engine False 2 after_first
           = Inr (''fix'', Some fix_reply,
                  Some (mergeSelectiveFixes (Some first) [plain_line [105] 1, plain_line [120] 7]))) \<and>
   romanized_lyrics first_reply = Some [plain_line [97] 0, plain_line [105] 5] \<and>
   out_of_bounds (length [plain_line [97] 0, plain_line [105] 5]) (plain_line [120] 7) \<and>
   mergeSelectiveFixes (Some first_reply) ([plain_line [105] 1] @ [plain_line [120] 7] @ [])
     = mergeSelectiveFixes (Some first_reply) ([plain_line [105] 1] @ []) \<and>
   mergeSelectiveFixes (Some first_reply) [plain_line [105] 1, plain_line [120] 7]
     = first_reply\<lparr> romanized_lyrics := Some [plain_line [97] 0, plain_line [105] 1] \<rparr> \<and>
   romanized_lyrics no_array = None \<and>
   mergeSelectiveFixes (Some no_array) [plain_line [105] 1]
     = \<lparr> romanized_lyrics = Some [plain_line [105] 1], fixed_lines = None \<rparr> \<and>
   romanize fixing_engine fix_api =
     (Inr [Some (plain_line [97] 0), Some (plain_line [105] 1)],
      [([User fix_prompt], RomanizationSchema False),
       (currentContents after_first, SelectiveRomanizationSchema False)])"
proof -
  have selective_if: "conversation_before fixing_engine fix_api [Api 0 0, Api 1 1] False fix_prompt 1
       = Some (fresh_conversation fix_prompt Null)
     \<and> 1 < MAX_RETRIES fixing_engine
     \<and> attempt_response fixing_engine False 1 (fresh_conversation fix_prompt Null)
         = Inr (''first'', Some first_reply, Some first_reply)
     \<and> validate (util fixing_engine) fix_api (Some first_reply) = Some first_result
     \<and> \<not> isValid first_result
     \<and> repeat_count (fresh_conversation fix_prompt Null) (first_error (errors first_result)) < 3
     \<and> getProblematicLines fix_api first_reply (detailedErrors first_result)
         = Some [plain_line [12356] 1]"
    by (simp add: romanizer_defs example_defs fix_defs repeat_defs loop_defs)
  have selective: "snd (romanize_loop fixing_engine fix_api [Api 0 0, Api 1 1] False fix_prompt 1
          (fresh_conversation fix_prompt Null) []) ! 1
     = (currentContents (fresh_conversation fix_prompt Null) @
          [Model ''first'',
           User (if 0 < length [plain_line [12356] 1]
                    \<and> 5 * length [plain_line [12356] 1] < 4 * length fix_api
                 then SelectiveFixPrompt (map (fix_entry_of first_result) [plain_line [12356] 1]) False
                 else FullRetryPrompt fix_api False)],
        if (if (1::nat) = 1 then Some first_reply
            else lastValidResponse (fresh_conversation fix_prompt Null)) \<noteq> None
        then SelectiveRomanizationSchema False else RomanizationSchema False)"
    by (rule selective_fix_merge [THEN conjunct1, THEN mp, OF selective_if])
  have selective_request: "snd (romanize_loop fixing_engine fix_api [Api 0 0, Api 1 1] False fix_prompt 1
          (fresh_conversation fix_prompt Null) []) ! 1
     = (currentContents after_first, SelectiveRomanizationSchema False)"
    unfolding selective by (simp add: romanizer_defs example_defs fix_defs repeat_defs loop_defs)
  have full_if: "conversation_before no_array_engine fix_api [Api 0 0, Api 1 1] False fix_prompt 1
       = Some (fresh_conversation fix_prompt Null)
     \<and> 1 < MAX_RETRIES no_array_engine
     \<and> attempt_response no_array_engine False 1 (fresh_conversation fix_prompt Null)
         = Inr (''r'', Some no_array, Some no_array)
     \<and> validate (util no_array_engine) fix_api (Some no_array) = Some no_array_result
     \<and> \<not> isValid no_array_result
     \<and> repeat_count (fresh_conversation fix_prompt Null) (first_error (errors no_array_result)) < 3
     \<and> getProblematicLines fix_api no_array (detailedErrors no_array_result) = Some []"
    by (simp add: romanizer_defs example_defs fix_defs repeat_defs loop_defs)
  have full: "snd (romanize_loop no_array_engine fix_api [Api 0 0, Api 1 1] False fix_prompt 1
          (fresh_conversation fix_prompt Null) []) ! 1
     = (currentContents (fresh_conversation fix_prompt Null) @
          [Model ''r'',
           User (if 0 < length ([] :: line list) \<and> 5 * length ([] :: line list) < 4 * length fix_api
                 then SelectiveFixPrompt (map (fix_entry_of no_array_result) []) False
                 else FullRetryPrompt fix_api False)],
        if (if (1::nat) = 1 then Some no_array
            else lastValidResponse (fresh_conversation fix_prompt Null)) \<noteq> None
        then SelectiveRomanizationSchema False else RomanizationSchema False)"
    by (rule selective_fix_merge [THEN conjunct1, THEN mp, OF full_if])
  have full_request: "snd (romanize_loop no_array_engine fix_api [Api 0 0, Api 1 1] False fix_prompt 1
          (fresh_conversation fix_prompt Null) []) ! 1
     = ([User fix_prompt, Model ''r'', User (FullRetryPrompt fix_api False)],
        SelectiveRomanizationSchema False)"
    unfolding full by (simp add: romanizer_defs example_defs fix_defs repeat_defs loop_defs)
  have flagged: "getProblematicLines fix_api first_reply (detailedErrors first_result)
     = Some [plain_line [12356] 1]"
    by (simp add: romanizer_defs example_defs fix_defs repeat_defs loop_defs)
  have member: "plain_line [12356] 1 \<in> set [plain_line [12356] 1]" by simp
  have shape: "\<exists>i < length fix_api.
       plain_line [12356] 1 = (fix_api ! i)\<lparr> original_line_index := Some (int i) \<rparr>"
    by (rule selective_fix_merge [THEN conjunct2, THEN conjunct1, THEN mp, OF flagged,
          THEN conjunct1, THEN bspec, OF member])
  have merge_if: "conversation_before fixing_engine fix_api [Api 0 0, Api 1 1] False fix_prompt 2 = Some after_first
     \<and> isSelectiveFix 2 after_first
     \<and> callGeminiAPI fixing_engine 2 (currentContents after_first)
          (request_schema False 2 after_first) = Inr ''fix''
     \<and> JSON_parse fixing_engine ''fix'' = Inr (Some fix_reply)
     \<and> fixed_lines fix_reply = Some [plain_line [105] 1, plain_line [120] 7]"
    by (simp add: romanizer_defs example_defs fix_defs repeat_defs loop_defs)
  have merge: "\<exists>t1 first fr1.
       attempt_response fixing_engine False 1 (fresh_conversation fix_prompt Null)
         = Inr (t1, Some first, fr1)
       \<and> lastValidResponse after_first = Some first
       \<and> attempt_response fixing_engine False 2 after_first
           = Inr (''fix'', Some fix_reply,
                  Some (mergeSelectiveFixes (Some first) [plain_line [105] 1, plain_line [120] 7]))"
    by (rule selective_fix_merge [THEN conjunct2, THEN conjunct2, THEN conjunct1, THEN mp,
          OF merge_if])
  have base: "romanized_lyrics first_reply = Some [plain_line [97] 0, plain_line [105] 5]"
    by (simp add: fix_defs)
  have oob: "out_of_bounds (length [plain_line [97] 0, plain_line [105] 5]) (plain_line [120] 7)"
    by (simp add: out_of_bounds_def example_defs)
  have dropped: "mergeSelectiveFixes (Some first_reply) ([plain_line [105] 1] @ [plain_line [120] 7] @ [])
     = mergeSelectiveFixes (Some first_reply) ([plain_line [105] 1] @ [])"
    by (rule selective_fix_merge [THEN conjunct2, THEN conjunct2, THEN conjunct2, THEN conjunct1,
          THEN mp, OF base, THEN conjunct2, THEN mp, OF oob])
  have merged: "mergeSelectiveFixes (Some first_reply) [plain_line [105] 1, plain_line [120] 7]
     = first_reply\<lparr> romanized_lyrics := Some [plain_line [97] 0, plain_line [105] 1] \<rparr>"
    by (simp add: romanizer_defs example_defs fix_defs)
  have bare: "romanized_lyrics no_array = None" by (simp add: fix_defs)
  have replaced: "mergeSelectiveFixes (Some no_array) [plain_line [105] 1]
     = \<lparr> romanized_lyrics = Some [plain_line [105] 1], fixed_lines = None \<rparr>"
    by (rule selective_fix_merge [THEN conjunct2, THEN conjunct2, THEN conjunct2, THEN conjunct2,
          THEN mp, OF bare])
  have run: "romanize fixing_engine fix_api =
     (Inr [Some (plain_line [97] 0), Some (plain_line [105] 1)],
      [([User fix_prompt], RomanizationSchema False),
       (currentContents after_first, SelectiveRomanizationSchema False)])"
    by (simp add: romanizer_defs example_defs fix_defs repeat_defs loop_defs)
  show ?thesis
    by (rule conjI [OF selective_if conjI [OF selective conjI [OF selective_request
          conjI [OF full_if conjI [OF full conjI [OF full_request conjI [OF flagged
          conjI [OF member conjI [OF shape conjI [OF merge_if conjI [OF merge conjI [OF base
          conjI [OF oob conjI [OF dropped conjI [OF merged conjI [OF bare
          conjI [OF replaced run]]]]]]]]]]]]]]]]])
qed

text \<open>
  The claim as stated fails in two ways. When no line is flagged, a number below 80
  percent, the next request carries the full-retry prompt: a reply without the array fails
  validation with zero flagged lines. And the fixed lines are not merged into the last
  valid response: the base of every merge is the first attempt's reply, which failed
  validation. In the second scenario the second attempt fixes line 1, the third attempt
  fixes line 2 in the first reply again, line 1 is back to its wrong index, and the run
  fails on it.
\<close>

theorem selective_fix_counterexample:
  "validate example_util fix_api (Some no_array) = Some no_array_result \<and>
   getProblematicLines fix_api no_array (detailedErrors no_array_result) = Some [] \<and>
   5 * length ([] :: line list) < 4 * length fix_api \<and>
   romanize no_array_engine fix_api =
     (Inl (FailedAfter 2 (FinalErrors 2 [TopLevelMissing])),
      [([User (RomanizationPrompt fix_api False)], RomanizationSchema False),
       ([User (RomanizationPrompt fix_api False), Model ''r'',
         User (FullRetryPrompt fix_api False)], SelectiveRomanizationSchema False)]) \<and>
   validate example_util lost_api (Some lost_first)
     = Some \<lparr> isValid = False, errors = [IncorrectIndex 1 (Some 5), IncorrectIndex 2 (Some 6)],
              detailedErrors = [(1, [IncorrectIndex 1 (Some 5)]), (2, [IncorrectIndex 2 (Some 6)])] \<rparr> \<and>
   conversation_before lost_engine lost_api [Api 0 0, Api 1 1, Api 2 2] False lost_prompt 2
     = Some lost_second \<and>
   attempt_response lost_engine False 2 lost_second
     = Inr (''one'', Some lost_fix_1,
            Some \<lparr> romanized_lyrics =
                     Some [plain_line [97] 0, plain_line [105] 1, plain_line [117] 6],
                   fixed_lines = None \<rparr>) \<and>
   conversation_before lost_engine lost_api [Api 0 0, Api 1 1, Api 2 2] False lost_prompt 3
     = Some lost_third \<and>
   lastValidResponse lost_third = Some lost_first \<and>
   attempt_response lost_engine False 3 lost_third
     = Inr (''two'', Some lost_fix_2,
            Some \<lparr> romanized_lyrics =
                     Some [plain_line [97] 0, plain_line [105] 5, plain_line [117] 2],
                   fixed_lines = None \<rparr>) \<and>
   fst (romanize lost_engine lost_api)
     = Inl (FailedAfter 3 (FinalErrors 3 [IncorrectIndex 1 (Some 5)]))"
  by (simp add: romanizer_defs example_defs fix_defs repeat_defs loop_defs)







section \<open>The services\<close>

text \<open>
  Claim C7. With a strategy other than \<open>none\<close> (which disables the read) and expiry \<open>T\<close>
  for the strategy in force, a stored entry younger than \<open>T\<close> is returned with its lyrics
  and version and the store is left alone; an entry whose age is \<open>T\<close> (or more) is not
  returned and is deleted from the store.
\<close>

theorem ttl_boundary:
  assumes "cacheStrategy S \<noteq> ''none''"
    and "lyricsDB w key = Some r"
    and "CACHE_EXPIRY S (expiry_strategy S) = Some T"
  shows "(Date_now S - lr_timestamp r < T \<longrightarrow>
            getFromDB S key w = (Some (lyrics_entry (lr_lyrics r) (lr_version r)), w))
       \<and> (Date_now S - lr_timestamp r \<ge> T \<longrightarrow>
            getFromDB S key w = (None, w\<lparr> lyricsDB := (lyricsDB w)(key := None) \<rparr>)
            \<and> lyricsDB (snd (getFromDB S key w)) key = None)"
  using assms by (simp add: getFromDB_def Let_def)

theorem ttl_boundary_witness:
  "cacheStrategy (example_services ''aggressive'' 5000) \<noteq> ''none'' \<and>
   lyricsDB (stored_world 4000) ''song'' = Some (stored_record 4000) \<and>
   CACHE_EXPIRY (example_services ''aggressive'' 5000)
      (expiry_strategy (example_services ''aggressive'' 5000)) = Some 1000 \<and>
   1000 \<le> Date_now (example_services ''aggressive'' 5000) - lr_timestamp (stored_record 4000) \<and>
   getFromDB (example_services ''aggressive'' 5000) ''song'' (stored_world 4000)
     = (None, (stored_world 4000)\<lparr> lyricsDB := (lyricsDB (stored_world 4000))(''song'' := None) \<rparr>) \<and>
   cacheStrategy (example_services ''aggressive'' 4999) \<noteq> ''none'' \<and>
   CACHE_EXPIRY (example_services ''aggressive'' 4999)
      (expiry_strategy (example_services ''aggressive'' 4999)) = Some 1000 \<and>
   Date_now (example_services ''aggressive'' 4999) - lr_timestamp (stored_record 4000) < 1000 \<and>
   getFromDB (example_services ''aggressive'' 4999) ''song'' (stored_world 4000)
     = (Some (lyrics_entry (lr_lyrics (stored_record 4000)) (lr_version (stored_record 4000))),
        stored_world 4000)"
proof -
  have s: "cacheStrategy (example_services ''aggressive'' 5000) \<noteq> ''none''"
    by (simp add: example_services_def)
  have r: "lyricsDB (stored_world 4000) ''song'' = Some (stored_record 4000)"
    by (simp add: stored_world_def empty_world_def)
  have t: "CACHE_EXPIRY (example_services ''aggressive'' 5000)
       (expiry_strategy (example_services ''aggressive'' 5000)) = Some 1000"
    by (simp add: example_services_def expiry_strategy_def)
  have age: "1000 \<le> Date_now (example_services ''aggressive'' 5000) - lr_timestamp (stored_record 4000)"
    by (simp add: example_services_def stored_record_def)
  have expired: "getFromDB (example_services ''aggressive'' 5000) ''song'' (stored_world 4000)
     = (None, (stored_world 4000)\<lparr> lyricsDB := (lyricsDB (stored_world 4000))(''song'' := None) \<rparr>)"
    by (rule ttl_boundary [OF s r t, THEN conjunct2, THEN mp, OF age, THEN conjunct1])
  have s': "cacheStrategy (example_services ''aggressive'' 4999) \<noteq> ''none''"
    by (simp add: example_services_def)
  have t': "CACHE_EXPIRY (example_services ''aggressive'' 4999)
       (expiry_strategy (example_services ''aggressive'' 4999)) = Some 1000"
    by (simp add: example_services_def expiry_strategy_def)
  have young: "Date_now (example_services ''aggressive'' 4999) - lr_timestamp (stored_record 4000) < 1000"
    by (simp add: example_services_def stored_record_def)
  have fresh: "getFromDB (example_services ''aggressive'' 4999) ''song'' (stored_world 4000)
     = (Some (lyrics_entry (lr_lyrics (stored_record 4000)) (lr_version (stored_record 4000))),
        stored_world 4000)"
    by (rule ttl_boundary [OF s' r t', THEN conjunct1, THEN mp, OF young])
  show ?thesis by (intro conjI) (fact s r t age expired s' t' young fresh)+
qed




text \<open>
  Claim C10, as amended. For a \<open>songInfo\<close> that is null or lacks a non-empty title or
  artist, \<^verbatim>\<open>LyricsService.getOrFetch\<close> rejects with the message of
  \<^verbatim>\<open>validateSongInfo\<close> and leaves the state as it was, whatever the caches, the
  registry and the providers hold. \<^verbatim>\<open>TranslationService.getOrFetch\<close> does the same for an
  object without title or artist; for null it rejects with the \<open>TypeError\<close> of building
  its cache key, which it does before it calls the lyrics service, again with the state
  untouched.
\<close>

theorem invalid_song_info:
  "(songInfo = None \<or> (\<exists>si. songInfo = Some si \<and> (falsy (title si) \<or> falsy (artist si)))) \<longrightarrow>
     LyricsService_getOrFetch S songInfo forceReload w
       = (Rejected (Error ''Song info must include title and artist''), w)
     \<and> TranslationService_getOrFetch S songInfo action targetLang forceReload w
       = (Rejected (if songInfo = None then TypeError
                    else Error ''Song info must include title and artist''), w)"
  by (auto simp: LyricsService_getOrFetch_def validateSongInfo_def
      TranslationService_getOrFetch_def TranslationService_createCacheKey_def)

theorem invalid_song_info_witness:
  "(Some untitled = None \<or> (\<exists>si. Some untitled = Some si \<and> (falsy (title si) \<or> falsy (artist si)))) \<and>
   LyricsService_getOrFetch (example_services ''aggressive'' 5000) (Some untitled) False (stored_world 4000)
       = (Rejected (Error ''Song info must include title and artist''), stored_world 4000)
     \<and> TranslationService_getOrFetch (example_services ''aggressive'' 5000) (Some untitled)
          ''translate'' ''en'' False (stored_world 4000)
       = (Rejected (if Some untitled = None then TypeError
                    else Error ''Song info must include title and artist''), stored_world 4000)"
proof -
  have h: "Some untitled = None \<or> (\<exists>si. Some untitled = Some si \<and> (falsy (title si) \<or> falsy (artist si)))"
    by (simp add: untitled_def falsy_def)
  show ?thesis by (rule conjI [OF h invalid_song_info [THEN mp, OF h]])
qed

text \<open>
  The claim as stated fails for \<^verbatim>\<open>TranslationService.getOrFetch\<close> with a null
  \<open>songInfo\<close>: the rejection is a \<open>TypeError\<close>, not the message of the validation.
\<close>

theorem null_song_info_counterexample:
  "TranslationService_getOrFetch (example_services ''aggressive'' 5000) None ''translate'' ''en''
      False (stored_world 4000) = (Rejected TypeError, stored_world 4000) \<and>
   fst (TranslationService_getOrFetch (example_services ''aggressive'' 5000) None ''translate'' ''en''
      False (stored_world 4000)) \<noteq> Rejected (Error ''Song info must include title and artist'')"
  by (simp add: service_defs)

section \<open>Overlapping calls\<close>

text \<open>What the steps of a call do to the registry and to the handle counter.\<close>

lemma getFromDB_registry:
  "ongoingFetches (snd (getFromDB S k w)) = ongoingFetches w \<and>
   handles (snd (getFromDB S k w)) = handles w"
  by (simp add: getFromDB_def Let_def split: option.splits)

lemma setCached_registry:
  "ongoingFetches (setCached k e w) = ongoingFetches w \<and> handles (setCached k e w) = handles w"
  by (simp add: setCached_def)

lemma fetch_body_registry:
  "ongoingFetches (snd (fetch_body S si k f w)) = ongoingFetches w \<and>
   handles (snd (fetch_body S si k f w)) = handles w"
  by (simp add: fetch_body_def Let_def setCached_def split: sum.splits option.splits)

lemma fetchNewLyrics_registry:
  "ongoingFetches (snd (fetchNewLyrics S si k f w)) = (ongoingFetches w)(k := None) \<and>
   handles (snd (fetchNewLyrics S si k f w)) = handles w"
  using fetch_body_registry [of S si k f w]
  by (simp add: fetchNewLyrics_def Let_def deleteOngoingFetch_def split_def split: sum.splits)

lemma advance_length: "length (calls (advance S si i sys)) = length (calls sys)"
  by (simp add: advance_def Let_def split_def split: phase.splits option.splits)


lemma single_flightI:
  assumes "\<And>i j h h'. i < length (calls sys) \<Longrightarrow> j < length (calls sys) \<Longrightarrow>
             calls sys ! i = Fetching h \<Longrightarrow> calls sys ! j = Fetching h' \<Longrightarrow> i = j"
    and "\<And>h. ongoingFetches (shared sys) key = Some h \<Longrightarrow>
             \<exists>i < length (calls sys). calls sys ! i = Fetching h"
    and "\<And>i h. i < length (calls sys) \<Longrightarrow> calls sys ! i = Fetching h \<Longrightarrow>
             ongoingFetches (shared sys) key = Some h"
    and "\<And>h. ongoingFetches (shared sys) key = Some h \<Longrightarrow>
             h < handles (shared sys) \<and> promises sys h = None"
    and "\<And>p. promises sys p \<noteq> None \<Longrightarrow> p < handles (shared sys)"
    and "\<And>i p. i < length (calls sys) \<Longrightarrow> calls sys ! i = Waiting p \<Longrightarrow>
             ongoingFetches (shared sys) key = Some p \<or> promises sys p \<noteq> None"
  shows "single_flight key sys"
  unfolding single_flight_def using assms by blast

lemma single_flight_one:
  "single_flight key sys \<Longrightarrow> i < length (calls sys) \<Longrightarrow> j < length (calls sys) \<Longrightarrow>
   calls sys ! i = Fetching h \<Longrightarrow> calls sys ! j = Fetching h' \<Longrightarrow> i = j"
  unfolding single_flight_def by blast

lemma single_flight_owner:
  "single_flight key sys \<Longrightarrow> ongoingFetches (shared sys) key = Some h \<Longrightarrow>
   \<exists>i < length (calls sys). calls sys ! i = Fetching h"
  unfolding single_flight_def by blast

lemma single_flight_entry:
  "single_flight key sys \<Longrightarrow> i < length (calls sys) \<Longrightarrow> calls sys ! i = Fetching h \<Longrightarrow>
   ongoingFetches (shared sys) key = Some h"
  unfolding single_flight_def by blast

lemma single_flight_pending:
  "single_flight key sys \<Longrightarrow> ongoingFetches (shared sys) key = Some h \<Longrightarrow>
   h < handles (shared sys) \<and> promises sys h = None"
  unfolding single_flight_def by blast

lemma single_flight_settled:
  "single_flight key sys \<Longrightarrow> promises sys p \<noteq> None \<Longrightarrow> p < handles (shared sys)"
  unfolding single_flight_def by blast

lemma single_flight_waiting:
  "single_flight key sys \<Longrightarrow> i < length (calls sys) \<Longrightarrow> calls sys ! i = Waiting p \<Longrightarrow>
   ongoingFetches (shared sys) key = Some p \<or> promises sys p \<noteq> None"
  unfolding single_flight_def by blast

lemma single_flight_neutral:
  assumes inv: "single_flight key sys"
    and i: "i < length (calls sys)"
    and old: "\<And>h. calls sys ! i \<noteq> Fetching h"
    and new: "\<And>h. ph \<noteq> Fetching h" "\<And>p. ph \<noteq> Waiting p"
    and same: "ongoingFetches (shared sys') key = ongoingFetches (shared sys) key"
      "handles (shared sys') = handles (shared sys)" "promises sys' = promises sys"
      "calls sys' = (calls sys)[i := ph]"
  shows "single_flight key sys'"
proof (rule single_flightI)
  have fetching: "calls sys ! j = Fetching h"
    if "j < length (calls sys')" "calls sys' ! j = Fetching h" for j h
    using that i new unfolding same by (cases "j = i") simp_all
  have waiting: "calls sys ! j = Waiting p"
    if "j < length (calls sys')" "calls sys' ! j = Waiting p" for j p
    using that i new unfolding same by (cases "j = i") simp_all
  have keep: "calls sys' ! j = Fetching h"
    if "j < length (calls sys)" "calls sys ! j = Fetching h" for j h
    using that i old unfolding same by (cases "j = i") simp_all
  have len: "length (calls sys') = length (calls sys)" by (simp add: same)
  show "a = b" if "a < length (calls sys')" "b < length (calls sys')"
    "calls sys' ! a = Fetching h" "calls sys' ! b = Fetching h'" for a b h h'
    using single_flight_one [OF inv, of a b h h'] fetching that len by simp
  show "\<exists>a < length (calls sys'). calls sys' ! a = Fetching h"
    if "ongoingFetches (shared sys') key = Some h" for h
  proof -
    from that have "ongoingFetches (shared sys) key = Some h" by (simp add: same)
    from single_flight_owner [OF inv this] obtain a where "a < length (calls sys)"
      "calls sys ! a = Fetching h" by blast
    with keep [of a h] len show ?thesis by auto
  qed
  show "ongoingFetches (shared sys') key = Some h"
    if "a < length (calls sys')" "calls sys' ! a = Fetching h" for a h
    using single_flight_entry [OF inv, of a h] fetching [OF that] that len unfolding same(1) by simp
  show "h < handles (shared sys') \<and> promises sys' h = None"
    if "ongoingFetches (shared sys') key = Some h" for h
    using single_flight_pending [OF inv, of h] that unfolding same by simp
  show "p < handles (shared sys')" if "promises sys' p \<noteq> None" for p
    using single_flight_settled [OF inv, of p] that unfolding same by simp
  show "ongoingFetches (shared sys') key = Some p \<or> promises sys' p \<noteq> None"
    if "a < length (calls sys')" "calls sys' ! a = Waiting p" for a p
    using single_flight_waiting [OF inv, of a p] waiting [OF that] that len unfolding same by simp
qed


lemma single_flight_join:
  assumes inv: "single_flight key sys"
    and i: "i < length (calls sys)"
    and old: "\<And>h. calls sys ! i \<noteq> Fetching h"
    and reg: "ongoingFetches (shared sys) key = Some p"
    and same: "shared sys' = shared sys" "promises sys' = promises sys"
      "calls sys' = (calls sys)[i := Waiting p]"
  shows "single_flight key sys'"
proof (rule single_flightI)
  have fetching: "calls sys ! j = Fetching h"
    if "j < length (calls sys')" "calls sys' ! j = Fetching h" for j h
    using that i unfolding same by (cases "j = i") simp_all
  have waiting: "calls sys ! j = Waiting q \<or> (j = i \<and> q = p)"
    if "j < length (calls sys')" "calls sys' ! j = Waiting q" for j q
    using that i unfolding same by (cases "j = i") simp_all
  have keep: "calls sys' ! j = Fetching h"
    if "j < length (calls sys)" "calls sys ! j = Fetching h" for j h
    using that i old unfolding same by (cases "j = i") simp_all
  have len: "length (calls sys') = length (calls sys)" by (simp add: same)
  show "a = b" if "a < length (calls sys')" "b < length (calls sys')"
    "calls sys' ! a = Fetching h" "calls sys' ! b = Fetching h'" for a b h h'
    using single_flight_one [OF inv, of a b h h'] fetching that len by simp
  show "\<exists>a < length (calls sys'). calls sys' ! a = Fetching h"
    if "ongoingFetches (shared sys') key = Some h" for h
  proof -
    from that have "ongoingFetches (shared sys) key = Some h" by (simp add: same)
    from single_flight_owner [OF inv this] obtain a where "a < length (calls sys)"
      "calls sys ! a = Fetching h" by blast
    with keep [of a h] len show ?thesis by auto
  qed
  show "ongoingFetches (shared sys') key = Some h"
    if "a < length (calls sys')" "calls sys' ! a = Fetching h" for a h
    using single_flight_entry [OF inv, of a h] fetching [OF that] that len unfolding same(1) by simp
  show "h < handles (shared sys') \<and> promises sys' h = None"
    if "ongoingFetches (shared sys') key = Some h" for h
    using single_flight_pending [OF inv, of h] that unfolding same by simp
  show "q < handles (shared sys')" if "promises sys' q \<noteq> None" for q
    using single_flight_settled [OF inv, of q] that unfolding same by simp
  show "ongoingFetches (shared sys') key = Some q \<or> promises sys' q \<noteq> None"
    if "a < length (calls sys')" "calls sys' ! a = Waiting q" for a q
    using single_flight_waiting [OF inv, of a q] waiting [OF that] that len reg unfolding same
    by auto
qed

lemma single_flight_register:
  assumes inv: "single_flight key sys"
    and i: "i < length (calls sys)"
    and free: "ongoingFetches (shared sys) key = None"
    and same: "ongoingFetches (shared sys') key = Some (handles (shared sys))"
      "handles (shared sys') = Suc (handles (shared sys))" "promises sys' = promises sys"
      "calls sys' = (calls sys)[i := Fetching (handles (shared sys))]"
  shows "single_flight key sys'"
proof (rule single_flightI)
  have none: "calls sys ! j \<noteq> Fetching h" if "j < length (calls sys)" for j h
    using single_flight_entry [OF inv that, of h] free by auto
  have fetching: "j = i \<and> h = handles (shared sys)"
    if "j < length (calls sys')" "calls sys' ! j = Fetching h" for j h
    using that i none [of j h] unfolding same by (cases "j = i") simp_all
  have waiting: "calls sys ! j = Waiting q"
    if "j < length (calls sys')" "calls sys' ! j = Waiting q" for j q
    using that i unfolding same by (cases "j = i") simp_all
  have len: "length (calls sys') = length (calls sys)" by (simp add: same)
  show "a = b" if "a < length (calls sys')" "b < length (calls sys')"
    "calls sys' ! a = Fetching h" "calls sys' ! b = Fetching h'" for a b h h'
    using fetching [OF that(1) that(3)] fetching [OF that(2) that(4)] by simp
  show "\<exists>a < length (calls sys'). calls sys' ! a = Fetching h"
    if "ongoingFetches (shared sys') key = Some h" for h
    using that i unfolding same by (intro exI [of _ i]) simp
  show "ongoingFetches (shared sys') key = Some h"
    if "a < length (calls sys')" "calls sys' ! a = Fetching h" for a h
    using fetching [OF that] same(1) by simp
  have fresh: "promises sys (handles (shared sys)) = None"
  proof (rule ccontr)
    assume "promises sys (handles (shared sys)) \<noteq> None"
    from single_flight_settled [OF inv this] show False by simp
  qed
  show "h < handles (shared sys') \<and> promises sys' h = None"
    if "ongoingFetches (shared sys') key = Some h" for h
    using that fresh unfolding same by simp
  show "q < handles (shared sys')" if "promises sys' q \<noteq> None" for q
    using single_flight_settled [OF inv, of q] that unfolding same by simp
  show "ongoingFetches (shared sys') key = Some q \<or> promises sys' q \<noteq> None"
    if "a < length (calls sys')" "calls sys' ! a = Waiting q" for a q
    using single_flight_waiting [OF inv, of a q] waiting [OF that] that len free unfolding same
    by auto
qed

lemma single_flight_settle:
  assumes inv: "single_flight key sys"
    and i: "i < length (calls sys)"
    and old: "calls sys ! i = Fetching h"
    and same: "ongoingFetches (shared sys') key = None"
      "handles (shared sys') = handles (shared sys)" "promises sys' = (promises sys)(h \<mapsto> r)"
      "calls sys' = (calls sys)[i := Finished r]"
  shows "single_flight key sys'"
proof (rule single_flightI)
  have reg: "ongoingFetches (shared sys) key = Some h"
    using single_flight_entry [OF inv i old] .
  have len: "length (calls sys') = length (calls sys)" by (simp add: same)
  have none: "calls sys' ! j \<noteq> Fetching h'" if j: "j < length (calls sys')" for j h'
  proof (cases "j = i")
    case True
    with i show ?thesis by (simp add: same)
  next
    case False
    have "calls sys ! j \<noteq> Fetching h'"
    proof
      assume "calls sys ! j = Fetching h'"
      from single_flight_one [OF inv _ i this old] j len have "j = i" by simp
      with False show False by simp
    qed
    with False show ?thesis by (simp add: same)
  qed
  have waiting: "calls sys ! j = Waiting q"
    if "j < length (calls sys')" "calls sys' ! j = Waiting q" for j q
    using that i unfolding same by (cases "j = i") simp_all
  show "a = b" if "a < length (calls sys')" "b < length (calls sys')"
    "calls sys' ! a = Fetching g" "calls sys' ! b = Fetching g'" for a b g g'
    using none [OF that(1), of g] that(3) by simp
  show "\<exists>a < length (calls sys'). calls sys' ! a = Fetching g"
    if "ongoingFetches (shared sys') key = Some g" for g
    using that same(1) by simp
  show "ongoingFetches (shared sys') key = Some g"
    if "a < length (calls sys')" "calls sys' ! a = Fetching g" for a g
    using none [OF that(1), of g] that(2) by simp
  show "g < handles (shared sys') \<and> promises sys' g = None"
    if "ongoingFetches (shared sys') key = Some g" for g
    using that same(1) by simp
  show "q < handles (shared sys')" if q: "promises sys' q \<noteq> None" for q
  proof (cases "q = h")
    case True
    with single_flight_pending [OF inv reg] show ?thesis by (simp add: same)
  next
    case False
    with q have "promises sys q \<noteq> None" by (simp add: same)
    from single_flight_settled [OF inv this] show ?thesis by (simp add: same)
  qed
  show "ongoingFetches (shared sys') key = Some q \<or> promises sys' q \<noteq> None"
    if w: "a < length (calls sys')" "calls sys' ! a = Waiting q" for a q
  proof (cases "q = h")
    case True
    then show ?thesis by (simp add: same)
  next
    case False
    from waiting [OF w] w(1) len have "calls sys ! a = Waiting q" "a < length (calls sys)"
      by simp_all
    from single_flight_waiting [OF inv this(2) this(1)] reg False
    have "promises sys q \<noteq> None" by simp
    with False show ?thesis by (simp add: same)
  qed
qed


lemma advance_single_flight:
  assumes inv: "single_flight (LyricsService_createCacheKey si) sys"
  shows "single_flight (LyricsService_createCacheKey si) (advance S si i sys)"
proof (cases "length (calls sys) \<le> i")
  case True
  with inv show ?thesis by (simp add: advance_def)
next
  case False
  then have i: "i < length (calls sys)" by simp
  let ?key = "LyricsService_createCacheKey si"
  let ?w = "shared sys"
  show ?thesis
  proof (cases "calls sys ! i")
    case NotStarted
    show ?thesis
      by (rule single_flight_neutral [OF inv i, where ph = "calls (advance S si i sys) ! i"])
        (use i NotStarted in \<open>auto simp: advance_def Let_def split: option.splits\<close>)
  next
    case AwaitingDB
    show ?thesis
      by (rule single_flight_neutral [OF inv i, where ph = "calls (advance S si i sys) ! i"])
        (use i AwaitingDB getFromDB_registry [of S ?key ?w] in
          \<open>auto simp: advance_def Let_def split_def setCached_def split: option.splits\<close>)
  next
    case AwaitingLocal
    show ?thesis
    proof (cases "checkLocalLyrics S si ?w")
      case (Some e)
      show ?thesis
        by (rule single_flight_neutral [OF inv i, where ph = "Finished (Resolved e)"])
          (use i AwaitingLocal Some in \<open>auto simp: advance_def Let_def setCached_def\<close>)
    next
      case None
      show ?thesis
      proof (cases "ongoingFetches ?w ?key")
        case (Some p)
        show ?thesis
          by (rule single_flight_join [OF inv i _ Some])
            (use i AwaitingLocal None Some in \<open>auto simp: advance_def Let_def\<close>)
      next
        case free: None
        show ?thesis
          by (rule single_flight_register [OF inv i free])
            (use i AwaitingLocal None free in
              \<open>auto simp: advance_def Let_def setOngoingFetch_def\<close>)
      qed
    qed
  next
    case (Fetching h)
    show ?thesis
      by (rule single_flight_settle [OF inv i Fetching,
            where r = "fst (fetchNewLyrics S si ?key False ?w)"])
        (use i Fetching fetchNewLyrics_registry [of S si ?key False ?w] in
          \<open>auto simp: advance_def Let_def split_def\<close>)
  next
    case (Waiting p)
    show ?thesis
    proof (cases "promises sys p")
      case None
      with i Waiting inv show ?thesis by (simp add: advance_def Let_def)
    next
      case (Some r)
      show ?thesis
        by (rule single_flight_neutral [OF inv i, where ph = "Finished r"])
          (use i Waiting Some in \<open>auto simp: advance_def Let_def\<close>)
    qed
  next
    case (Finished r)
    with i inv show ?thesis by (simp add: advance_def Let_def)
  qed
qed

lemma run_single_flight:
  "single_flight (LyricsService_createCacheKey si) sys \<Longrightarrow>
   single_flight (LyricsService_createCacheKey si) (run S si schedule sys)"
  unfolding run_def
  by (induction schedule arbitrary: sys) (simp_all add: advance_single_flight)

lemma start_single_flight:
  "ongoingFetches w key = None \<Longrightarrow> single_flight key (start w n)"
  by (rule single_flightI) (simp_all add: start_def)

lemma fetching_Nil: "(fetching ph = []) = (\<forall>h. ph \<noteq> Fetching h)"
  by (cases ph) simp_all

lemma concat_fetching_Nil:
  "(\<And>j. j < length xs \<Longrightarrow> fetching (xs ! j) = []) \<Longrightarrow> concat (map fetching xs) = []"
  by (auto simp: in_set_conv_nth)

lemma concat_fetching_one:
  assumes i: "i < length xs" and at: "xs ! i = Fetching h"
    and others: "\<And>j. j < length xs \<Longrightarrow> j \<noteq> i \<Longrightarrow> fetching (xs ! j) = []"
  shows "concat (map fetching xs) = [h]"
proof -
  have before: "concat (map fetching (take i xs)) = []"
    by (rule concat_fetching_Nil) (use i others in simp)
  have after: "concat (map fetching (drop (Suc i) xs)) = []"
    by (rule concat_fetching_Nil) (use i others in simp)
  have "xs = take i xs @ xs ! i # drop (Suc i) xs"
    using i by (rule id_take_nth_drop)
  then have "concat (map fetching xs)
      = concat (map fetching (take i xs @ xs ! i # drop (Suc i) xs))" by simp
  also have "\<dots> = concat (map fetching (take i xs)) @ fetching (xs ! i)
      @ concat (map fetching (drop (Suc i) xs))" by simp
  also have "\<dots> = [h]" unfolding before after at by simp
  finally show ?thesis .
qed

lemma in_flight_registry:
  assumes inv: "single_flight key sys"
  shows "in_flight sys = (case ongoingFetches (shared sys) key of None \<Rightarrow> [] | Some h \<Rightarrow> [h])"
proof (cases "ongoingFetches (shared sys) key")
  case None
  have "fetching (calls sys ! j) = []" if "j < length (calls sys)" for j
    using single_flight_entry [OF inv that] None by (auto simp: fetching_Nil)
  then show ?thesis using None by (simp add: in_flight_def concat_fetching_Nil)
next
  case (Some h)
  from single_flight_owner [OF inv Some] obtain i where i: "i < length (calls sys)"
    and at: "calls sys ! i = Fetching h" by blast
  have "fetching (calls sys ! j) = []" if "j < length (calls sys)" "j \<noteq> i" for j
    using single_flight_one [OF inv that(1) i _ at] that(2) by (auto simp: fetching_Nil)
  from concat_fetching_one [OF i at this] Some show ?thesis by (simp add: in_flight_def)
qed

lemma advance_other:
  "m \<noteq> k \<Longrightarrow> calls (advance S si k sys) ! m = calls sys ! m"
  by (simp add: advance_def Let_def split_def split: phase.splits option.splits)

lemma advance_fetching:
  assumes "k < length (calls sys)" and "calls sys ! k = Fetching h"
  shows "calls (advance S si k sys) ! k
           = Finished (fst (fetchNewLyrics S si (LyricsService_createCacheKey si) False (shared sys)))"
    and "promises (advance S si k sys) = (promises sys)(h \<mapsto>
           fst (fetchNewLyrics S si (LyricsService_createCacheKey si) False (shared sys)))"
    and "shared (advance S si k sys)
           = snd (fetchNewLyrics S si (LyricsService_createCacheKey si) False (shared sys))"
    and "fetches (advance S si k sys) = fetches sys"
  using assms by (simp_all add: advance_def Let_def split_def)

lemma advance_waiting:
  assumes "k < length (calls sys)" and "calls sys ! k = Waiting p"
  shows "calls (advance S si k sys) ! k
           = (case promises sys p of None \<Rightarrow> Waiting p | Some r \<Rightarrow> Finished r)"
    and "promises (advance S si k sys) = promises sys"
  using assms by (simp_all add: advance_def Let_def split: option.splits)

lemma advance_finished:
  "calls sys ! k = Finished r \<Longrightarrow> advance S si k sys = sys"
  by (simp add: advance_def Let_def)

lemma advance_promises:
  "(\<And>h. calls sys ! k \<noteq> Fetching h) \<Longrightarrow> promises (advance S si k sys) = promises sys"
  by (simp add: advance_def Let_def split_def split: phase.splits option.splits)

lemma advance_coalesced:
  assumes inv: "single_flight (LyricsService_createCacheKey si) sys"
    and co: "coalesced i j h sys"
  shows "coalesced i j h (advance S si k sys)"
proof (cases "length (calls sys) \<le> k")
  case True
  with co show ?thesis by (simp add: advance_def)
next
  case False
  then have k: "k < length (calls sys)" by simp
  let ?sys = "advance S si k sys"
  from co have i: "i < length (calls sys)" and j: "j < length (calls sys)"
    by (simp_all add: coalesced_def)
  have len: "length (calls ?sys) = length (calls sys)" by (rule advance_length)
  from co consider
      (pending) "calls sys ! i = Fetching h" "calls sys ! j = Waiting h" "promises sys h = None"
    | (settled) r where "calls sys ! i = Finished r" "promises sys h = Some r"
        "calls sys ! j = Waiting h \<or> calls sys ! j = Finished r"
    unfolding coalesced_def by (elim conjE disjE exE) auto
  then show ?thesis
  proof cases
    case pending
    then have ij: "i \<noteq> j" by auto
    show ?thesis
    proof (cases "k = i")
      case True
      from advance_fetching [OF i pending(1), of S si] advance_other [OF ij [symmetric], of S si sys]
        pending(2) i j len True
      show ?thesis by (simp add: coalesced_def)
    next
      case ki: False
      show ?thesis
      proof (cases "k = j")
        case True
        from advance_waiting [OF j pending(2), of S si] advance_other [OF ij, of S si sys]
          pending i j len True
        show ?thesis by (simp add: coalesced_def)
      next
        case kj: False
        have "calls sys ! k \<noteq> Fetching g" for g
        proof
          assume "calls sys ! k = Fetching g"
          from single_flight_one [OF inv k i this pending(1)] ki show False by simp
        qed
        from advance_promises [OF this, of S si] advance_other [of i k S si sys]
          advance_other [of j k S si sys] ki kj pending i j len
        show ?thesis by (simp add: coalesced_def)
      qed
    qed
  next
    case settled
    have kept: "promises ?sys h = Some r"
    proof (cases "\<exists>g. calls sys ! k = Fetching g")
      case True
      then obtain g where g: "calls sys ! k = Fetching g" by blast
      from single_flight_entry [OF inv k g] have "ongoingFetches (shared sys)
        (LyricsService_createCacheKey si) = Some g" .
      from single_flight_pending [OF inv this] settled(2) have "g \<noteq> h" by auto
      with advance_fetching(2) [OF k g, of S si] settled(2) show ?thesis by simp
    next
      case False
      then have "calls sys ! k \<noteq> Fetching g" for g by simp
      from advance_promises [OF this, of S si] settled(2) show ?thesis by simp
    qed
    have fetcher: "calls ?sys ! i = Finished r"
    proof (cases "k = i")
      case True
      with advance_finished [OF settled(1), of S si] settled(1) show ?thesis by simp
    next
      case False
      with advance_other [of i k S si sys] settled(1) show ?thesis by simp
    qed
    have joiner: "calls ?sys ! j = Waiting h \<or> calls ?sys ! j = Finished r"
    proof (cases "k = j")
      case kj: True
      from settled(3) show ?thesis
      proof
        assume w: "calls sys ! j = Waiting h"
        from advance_waiting(1) [OF j w, of S si] settled(2) kj show ?thesis by simp
      next
        assume f: "calls sys ! j = Finished r"
        from advance_finished [OF f, of S si] f kj show ?thesis by simp
      qed
    next
      case False
      with advance_other [of j k S si sys] settled(3) show ?thesis by simp
    qed
    from kept fetcher joiner i j len show ?thesis by (simp add: coalesced_def)
  qed
qed

lemma run_coalesced:
  "single_flight (LyricsService_createCacheKey si) sys \<Longrightarrow> coalesced i j h sys \<Longrightarrow>
   coalesced i j h (run S si schedule sys)"
  unfolding run_def
  by (induction schedule arbitrary: sys) (simp_all add: advance_single_flight advance_coalesced)

lemma run_length: "length (calls (run S si schedule sys)) = length (calls sys)"
  unfolding run_def by (induction schedule arbitrary: sys) (simp_all add: advance_length)

lemma coalesced_same:
  assumes "coalesced i j h sys" and "calls sys ! j = Finished r"
  shows "calls sys ! i = Finished r \<and> promises sys h = Some r"
  using assms by (auto simp: coalesced_def)


lemma start_length: "length (calls (start w n)) = n"
  by (simp add: start_def)

lemma advance_local:
  assumes "j < length (calls sys)" and "calls sys ! j = AwaitingLocal"
    and "checkLocalLyrics S si (shared sys) = None"
  shows "ongoingFetches (shared sys) (LyricsService_createCacheKey si) = None \<Longrightarrow>
           calls (advance S si j sys) ! j = Fetching (handles (shared sys))
           \<and> ongoingFetches (shared (advance S si j sys)) (LyricsService_createCacheKey si)
               = Some (handles (shared sys))
           \<and> fetches (advance S si j sys) = Suc (fetches sys)"
    and "ongoingFetches (shared sys) (LyricsService_createCacheKey si) = Some h \<Longrightarrow>
           calls (advance S si j sys) ! j = Waiting h
           \<and> shared (advance S si j sys) = shared sys
           \<and> fetches (advance S si j sys) = fetches sys"
  using assms by (simp_all add: advance_def Let_def setOngoingFetch_def)

text \<open>A single call that takes four steps in a row does what \<^verbatim>\<open>getOrFetch\<close> does when
  it runs to completion on its own.\<close>

lemma fetchNewLyrics_settles: "fst (fetchNewLyrics S si k f w) \<noteq> Joined p"
  by (simp add: fetchNewLyrics_def Let_def split_def split: sum.splits)

lemma solo_run:
  "calls (run S si [0, 0, 0, 0] (start w 1))
     = [case fst (LyricsService_getOrFetch S (Some si) False w) of
          Joined p \<Rightarrow> Waiting p | Resolved e \<Rightarrow> Finished (Resolved e)
        | Rejected e \<Rightarrow> Finished (Rejected e)]
   \<and> shared (run S si [0, 0, 0, 0] (start w 1)) = snd (LyricsService_getOrFetch S (Some si) False w)"
proof (cases "validateSongInfo (Some si)")
  case (Some e)
  then show ?thesis
    by (simp add: run_def start_def advance_def LyricsService_getOrFetch_def Let_def)
next
  case valid: None
  let ?key = "LyricsService_createCacheKey si"
  show ?thesis
  proof (cases "cache w ?key")
    case (Some hit)
    with valid show ?thesis
      by (simp add: run_def start_def advance_def LyricsService_getOrFetch_def Let_def)
  next
    case miss: None
    obtain dbResult w1 where db: "getFromDB S ?key w = (dbResult, w1)"
      by (cases "getFromDB S ?key w")
    show ?thesis
    proof (cases dbResult)
      case (Some e)
      with valid miss db show ?thesis
        by (simp add: run_def start_def advance_def LyricsService_getOrFetch_def Let_def)
    next
      case nodb: None
      show ?thesis
      proof (cases "checkLocalLyrics S si w1")
        case (Some e)
        with valid miss db nodb show ?thesis
          by (simp add: run_def start_def advance_def LyricsService_getOrFetch_def Let_def)
      next
        case nolocal: None
        show ?thesis
        proof (cases "ongoingFetches w1 ?key")
          case (Some p)
          with valid miss db nodb nolocal show ?thesis
            by (simp add: run_def start_def advance_def LyricsService_getOrFetch_def Let_def)
        next
          case free: None
          obtain r w2 where f: "fetchNewLyrics S si ?key False (setOngoingFetch ?key w1) = (r, w2)"
            by (cases "fetchNewLyrics S si ?key False (setOngoingFetch ?key w1)")
          with fetchNewLyrics_settles [of S si ?key False "setOngoingFetch ?key w1"]
          have "\<And>p. r \<noteq> Joined p" by simp
          then have r: "(case r of Joined p \<Rightarrow> Waiting p | Resolved e \<Rightarrow> Finished (Resolved e)
              | Rejected e \<Rightarrow> Finished (Rejected e)) = Finished r"
            by (cases r) auto
          from valid miss db nodb nolocal free f r show ?thesis
            by (simp add: run_def start_def advance_def LyricsService_getOrFetch_def Let_def)
        qed
      qed
    qed
  qed
qed

text \<open>
  Claim C2, as amended. Take any number of calls of \<^verbatim>\<open>getOrFetch\<close> for one song with
  \<open>forceReload = false\<close>, on a state whose registry has no entry for the song, and any order
  in which they take turns. At every moment at most one fetch for the song is under way,
  and the registry holds an entry for the song exactly while one is: the handle of that
  fetch. A call that reaches the registry check when there is no entry starts a fetch
  and registers it. A call that reaches the check while there is an entry starts no
  fetch and waits for the pending one; whenever it has finished, the fetching call has
  finished with the same result. When the fetch settles, with a result or with an error,
  the entry is removed and no fetch is under way.
\<close>

theorem single_flight_coalescing:
  assumes free: "ongoingFetches w (LyricsService_createCacheKey si) = None"
  shows
    "in_flight (run S si schedule (start w n))
       = (case ongoingFetches (shared (run S si schedule (start w n)))
                 (LyricsService_createCacheKey si) of None \<Rightarrow> [] | Some h \<Rightarrow> [h])
     \<and> (j < n \<and> calls (run S si schedule (start w n)) ! j = AwaitingLocal
          \<and> checkLocalLyrics S si (shared (run S si schedule (start w n))) = None
          \<and> ongoingFetches (shared (run S si schedule (start w n)))
               (LyricsService_createCacheKey si) = None \<longrightarrow>
          in_flight (advance S si j (run S si schedule (start w n)))
            = [handles (shared (run S si schedule (start w n)))]
          \<and> fetches (advance S si j (run S si schedule (start w n)))
            = Suc (fetches (run S si schedule (start w n))))
     \<and> (j < n \<and> calls (run S si schedule (start w n)) ! j = AwaitingLocal
          \<and> checkLocalLyrics S si (shared (run S si schedule (start w n))) = None
          \<and> ongoingFetches (shared (run S si schedule (start w n)))
               (LyricsService_createCacheKey si) = Some h \<longrightarrow>
          calls (advance S si j (run S si schedule (start w n))) ! j = Waiting h
          \<and> in_flight (advance S si j (run S si schedule (start w n))) = [h]
          \<and> fetches (advance S si j (run S si schedule (start w n)))
            = fetches (run S si schedule (start w n)))
     \<and> (i < n \<and> j < n \<and> calls (run S si schedule (start w n)) ! i = Fetching h
          \<and> calls (run S si schedule (start w n)) ! j = Waiting h
          \<and> calls (run S si later (run S si schedule (start w n))) ! j = Finished r \<longrightarrow>
          calls (run S si later (run S si schedule (start w n))) ! i = Finished r)
     \<and> (i < n \<and> calls (run S si schedule (start w n)) ! i = Fetching h \<longrightarrow>
          calls (advance S si i (run S si schedule (start w n))) ! i
            = Finished (fst (fetchNewLyrics S si (LyricsService_createCacheKey si) False
                 (shared (run S si schedule (start w n)))))
          \<and> ongoingFetches (shared (advance S si i (run S si schedule (start w n))))
               (LyricsService_createCacheKey si) = None
          \<and> in_flight (advance S si i (run S si schedule (start w n))) = [])"
proof -
  let ?key = "LyricsService_createCacheKey si"
  let ?sys = "run S si schedule (start w n)"
  have inv: "single_flight ?key ?sys"
    by (rule run_single_flight [OF start_single_flight [OF free]])
  have len: "length (calls ?sys) = n" by (simp add: run_length start_length)
  have next_inv: "single_flight ?key (advance S si k ?sys)" for k
    by (rule advance_single_flight [OF inv])
  have registry: "in_flight ?sys
      = (case ongoingFetches (shared ?sys) ?key of None \<Rightarrow> [] | Some h \<Rightarrow> [h])"
    by (rule in_flight_registry [OF inv])
  have launch: "in_flight (advance S si j ?sys) = [handles (shared ?sys)]
      \<and> fetches (advance S si j ?sys) = Suc (fetches ?sys)"
    if "j < n" "calls ?sys ! j = AwaitingLocal" "checkLocalLyrics S si (shared ?sys) = None"
      "ongoingFetches (shared ?sys) ?key = None"
    using advance_local(1) [of j ?sys S si] in_flight_registry [OF next_inv, of j] that len
    by simp
  have join: "calls (advance S si j ?sys) ! j = Waiting h
      \<and> in_flight (advance S si j ?sys) = [h]
      \<and> fetches (advance S si j ?sys) = fetches ?sys"
    if "j < n" "calls ?sys ! j = AwaitingLocal" "checkLocalLyrics S si (shared ?sys) = None"
      "ongoingFetches (shared ?sys) ?key = Some h"
    using advance_local(2) [of j ?sys S si h] in_flight_registry [OF next_inv, of j] that len
    by simp
  have same: "calls (run S si later ?sys) ! i = Finished r"
    if "i < n" "j < n" "calls ?sys ! i = Fetching h" "calls ?sys ! j = Waiting h"
      "calls (run S si later ?sys) ! j = Finished r"
  proof -
    from that(1,3) len have "ongoingFetches (shared ?sys) ?key = Some h"
      using single_flight_entry [OF inv, of i h] by simp
    from single_flight_pending [OF inv this] have "promises ?sys h = None" by simp
    with that(1-4) len have "coalesced i j h ?sys" by (simp add: coalesced_def)
    from run_coalesced [OF inv this] have "coalesced i j h (run S si later ?sys)" .
    from coalesced_same [OF this that(5)] show ?thesis by simp
  qed
  have settle: "calls (advance S si i ?sys) ! i
        = Finished (fst (fetchNewLyrics S si ?key False (shared ?sys)))
      \<and> ongoingFetches (shared (advance S si i ?sys)) ?key = None
      \<and> in_flight (advance S si i ?sys) = []"
    if "i < n" "calls ?sys ! i = Fetching h"
  proof -
    from that len have i: "i < length (calls ?sys)" by simp
    have gone: "ongoingFetches (shared (advance S si i ?sys)) ?key = None"
      using advance_fetching(3) [OF i that(2), of S si]
        fetchNewLyrics_registry [of S si ?key False "shared ?sys"] by simp
    with advance_fetching(1) [OF i that(2), of S si] in_flight_registry [OF next_inv, of i]
    show ?thesis by simp
  qed
  from registry launch join same settle show ?thesis by blast
qed

theorem single_flight_coalescing_witness:
  "ongoingFetches empty_world (LyricsService_createCacheKey titled) = None \<and>
   in_flight (two_calls [0, 1, 0, 0])
     = (case ongoingFetches (shared (two_calls [0, 1, 0, 0])) (LyricsService_createCacheKey titled)
        of None \<Rightarrow> [] | Some h \<Rightarrow> [h]) \<and>
   ((0::nat) < 2 \<and> calls (two_calls [0, 1, 0]) ! 0 = AwaitingLocal
     \<and> checkLocalLyrics (example_services ''aggressive'' 5000) titled
          (shared (two_calls [0, 1, 0])) = None
     \<and> ongoingFetches (shared (two_calls [0, 1, 0])) (LyricsService_createCacheKey titled) = None) \<and>
   (in_flight (advance (example_services ''aggressive'' 5000) titled 0 (two_calls [0, 1, 0]))
      = [handles (shared (two_calls [0, 1, 0]))]
     \<and> fetches (advance (example_services ''aggressive'' 5000) titled 0 (two_calls [0, 1, 0]))
      = Suc (fetches (two_calls [0, 1, 0]))) \<and>
   ((1::nat) < 2 \<and> calls (two_calls [0, 1, 0, 0, 1]) ! 1 = AwaitingLocal
     \<and> checkLocalLyrics (example_services ''aggressive'' 5000) titled
          (shared (two_calls [0, 1, 0, 0, 1])) = None
     \<and> ongoingFetches (shared (two_calls [0, 1, 0, 0, 1])) (LyricsService_createCacheKey titled)
          = Some 0) \<and>
   (calls (advance (example_services ''aggressive'' 5000) titled 1 (two_calls [0, 1, 0, 0, 1])) ! 1
      = Waiting 0
     \<and> in_flight (advance (example_services ''aggressive'' 5000) titled 1
          (two_calls [0, 1, 0, 0, 1])) = [0]
     \<and> fetches (advance (example_services ''aggressive'' 5000) titled 1 (two_calls [0, 1, 0, 0, 1]))
      = fetches (two_calls [0, 1, 0, 0, 1])) \<and>
   ((0::nat) < 2 \<and> (1::nat) < 2 \<and> calls (two_calls [0, 1, 0, 0, 1, 1]) ! 0 = Fetching 0
     \<and> calls (two_calls [0, 1, 0, 0, 1, 1]) ! 1 = Waiting 0
     \<and> calls (run (example_services ''aggressive'' 5000) titled [0, 1]
          (two_calls [0, 1, 0, 0, 1, 1])) ! 1 = Finished fetched) \<and>
   calls (run (example_services ''aggressive'' 5000) titled [0, 1]
     (two_calls [0, 1, 0, 0, 1, 1])) ! 0 = Finished fetched \<and>
   ((0::nat) < 2 \<and> calls (two_calls [0, 1, 0, 0]) ! 0 = Fetching 0) \<and>
   (calls (advance (example_services ''aggressive'' 5000) titled 0 (two_calls [0, 1, 0, 0])) ! 0
      = Finished (fst (fetchNewLyrics (example_services ''aggressive'' 5000) titled
           (LyricsService_createCacheKey titled) False (shared (two_calls [0, 1, 0, 0]))))
     \<and> ongoingFetches (shared (advance (example_services ''aggressive'' 5000) titled 0
          (two_calls [0, 1, 0, 0]))) (LyricsService_createCacheKey titled) = None
     \<and> in_flight (advance (example_services ''aggressive'' 5000) titled 0 (two_calls [0, 1, 0, 0]))
      = [])"
proof -
  have free: "ongoingFetches empty_world (LyricsService_createCacheKey titled) = None"
    by (simp add: empty_world_def)
  note inst = single_flight_coalescing [OF free, where S = "example_services ''aggressive'' 5000"
      and n = 2, folded two_calls_def]
  have registry: "in_flight (two_calls [0, 1, 0, 0])
     = (case ongoingFetches (shared (two_calls [0, 1, 0, 0])) (LyricsService_createCacheKey titled)
        of None \<Rightarrow> [] | Some h \<Rightarrow> [h])"
    by (rule inst [THEN conjunct1])
  have launch_if: "(0::nat) < 2 \<and> calls (two_calls [0, 1, 0]) ! 0 = AwaitingLocal
     \<and> checkLocalLyrics (example_services ''aggressive'' 5000) titled
          (shared (two_calls [0, 1, 0])) = None
     \<and> ongoingFetches (shared (two_calls [0, 1, 0])) (LyricsService_createCacheKey titled) = None"
    by (simp add: flight_defs service_defs)
  have launch: "in_flight (advance (example_services ''aggressive'' 5000) titled 0 (two_calls [0, 1, 0]))
      = [handles (shared (two_calls [0, 1, 0]))]
     \<and> fetches (advance (example_services ''aggressive'' 5000) titled 0 (two_calls [0, 1, 0]))
      = Suc (fetches (two_calls [0, 1, 0]))"
    by (rule inst [THEN conjunct2, THEN conjunct1, THEN mp, OF launch_if])
  have join_if: "(1::nat) < 2 \<and> calls (two_calls [0, 1, 0, 0, 1]) ! 1 = AwaitingLocal
     \<and> checkLocalLyrics (example_services ''aggressive'' 5000) titled
          (shared (two_calls [0, 1, 0, 0, 1])) = None
     \<and> ongoingFetches (shared (two_calls [0, 1, 0, 0, 1])) (LyricsService_createCacheKey titled)
          = Some 0"
    by (simp add: flight_defs service_defs)
  have join: "calls (advance (example_services ''aggressive'' 5000) titled 1 (two_calls [0, 1, 0, 0, 1])) ! 1
      = Waiting 0
     \<and> in_flight (advance (example_services ''aggressive'' 5000) titled 1
          (two_calls [0, 1, 0, 0, 1])) = [0]
     \<and> fetches (advance (example_services ''aggressive'' 5000) titled 1 (two_calls [0, 1, 0, 0, 1]))
      = fetches (two_calls [0, 1, 0, 0, 1])"
    by (rule inst [THEN conjunct2, THEN conjunct2, THEN conjunct1, THEN mp, OF join_if])
  have same_if: "(0::nat) < 2 \<and> (1::nat) < 2 \<and> calls (two_calls [0, 1, 0, 0, 1, 1]) ! 0 = Fetching 0
     \<and> calls (two_calls [0, 1, 0, 0, 1, 1]) ! 1 = Waiting 0
     \<and> calls (run (example_services ''aggressive'' 5000) titled [0, 1]
          (two_calls [0, 1, 0, 0, 1, 1])) ! 1 = Finished fetched"
    by (simp add: flight_defs service_defs)
  have same: "calls (run (example_services ''aggressive'' 5000) titled [0, 1]
     (two_calls [0, 1, 0, 0, 1, 1])) ! 0 = Finished fetched"
    by (rule inst [THEN conjunct2, THEN conjunct2, THEN conjunct2, THEN conjunct1, THEN mp,
          OF same_if])
  have settle_if: "(0::nat) < 2 \<and> calls (two_calls [0, 1, 0, 0]) ! 0 = Fetching 0"
    by (simp add: flight_defs service_defs)
  have settle: "calls (advance (example_services ''aggressive'' 5000) titled 0 (two_calls [0, 1, 0, 0])) ! 0
      = Finished (fst (fetchNewLyrics (example_services ''aggressive'' 5000) titled
           (LyricsService_createCacheKey titled) False (shared (two_calls [0, 1, 0, 0]))))
     \<and> ongoingFetches (shared (advance (example_services ''aggressive'' 5000) titled 0
          (two_calls [0, 1, 0, 0]))) (LyricsService_createCacheKey titled) = None
     \<and> in_flight (advance (example_services ''aggressive'' 5000) titled 0 (two_calls [0, 1, 0, 0]))
      = []"
    by (rule inst [THEN conjunct2, THEN conjunct2, THEN conjunct2, THEN conjunct2, THEN mp,
          OF settle_if])
  show ?thesis
    by (rule conjI [OF free conjI [OF registry conjI [OF launch_if conjI [OF launch
          conjI [OF join_if conjI [OF join conjI [OF same_if conjI [OF same
          conjI [OF settle_if settle]]]]]]]]])
qed

text \<open>
  The claim as stated fails: two calls that overlap can fetch twice, one fetch after the
  other. Both calls miss the memory cache and the persistent cache; the first starts its
  fetch, which settles and removes the registry entry while the second still awaits
  \<^verbatim>\<open>checkLocalLyrics\<close>; the second then finds no entry and fetches again.
\<close>

theorem double_fetch_counterexample:
  "ongoingFetches empty_world (LyricsService_createCacheKey titled) = None
   \<and> calls (two_calls [0, 1]) = [AwaitingDB, AwaitingDB]
   \<and> calls (two_calls [0, 1, 0, 0, 1]) = [Fetching 0, AwaitingLocal]
   \<and> calls (two_calls [0, 1, 0, 0, 1, 0, 1, 1]) = [Finished fetched, Finished fetched]
   \<and> fetches (two_calls [0, 1, 0, 0, 1, 0, 1, 1]) = 2"
  by (simp add: flight_defs service_defs)


end
